(* ===== verification/Prelude.thy ===== *)
theory Prelude
  imports Main "HOL-Library.Word" "HOL-Library.Sublist"
begin

text \<open>
  The shared vocabulary of the development: the C++ standard-library operations on
  \<^verbatim>\<open>std::string\<close> that the sources under \<^verbatim>\<open>src/drop\<close> use, the
  conversions between text and machine integers, the narrowing conversions between
  integer types, and the exceptions those operations throw.

  A \<^verbatim>\<open>std::string\<close> is a list of bytes (\<^typ>\<open>string\<close>).  A position that may be
  \<^verbatim>\<open>std::string::npos\<close> is an option, \<open>None\<close> standing for \<^verbatim>\<open>npos\<close>.  An
  operation that can throw returns a sum, \<open>Inl\<close> carrying the exception.
\<close>

named_theorems str_simps \<open>rewrite rules for the string operations\<close>
named_theorems num_simps \<open>rewrite rules for printing and parsing numbers\<close>

type_synonym time = int
type_synonym path = string
type_synonym u32 = "32 word"
type_synonym u64 = "64 word"

section \<open>Exceptions\<close>

datatype cxx_exn =
    Invalid_argument
  | Out_of_range
  | Filesystem_error
  | Signed_overflow \<comment> \<open>undefined behaviour, reported as a failure of the model\<close>

type_synonym 'a res = "cxx_exn + 'a"

fun bind_res :: "'a res \<Rightarrow> ('a \<Rightarrow> 'b res) \<Rightarrow> 'b res" where
  "bind_res (Inl e) f = Inl e"
| "bind_res (Inr x) f = f x"

lemma bind_res_eq_Inr [simp]:
  "bind_res m f = Inr y \<longleftrightarrow> (\<exists>x. m = Inr x \<and> f x = Inr y)"
  by (cases m) auto

lemma bind_res_eq_Inl:
  "bind_res m f = Inl e \<longleftrightarrow> m = Inl e \<or> (\<exists>x. m = Inr x \<and> f x = Inl e)"
  by (cases m) auto

section \<open>Searching and slicing\<close>

text \<open>\<^verbatim>\<open>s.find(c)\<close>: the first position of a byte.\<close>

fun find_char :: "char \<Rightarrow> string \<Rightarrow> nat option" where
  "find_char c [] = None"
| "find_char c (x # xs) = (if x = c then Some 0 else map_option Suc (find_char c xs))"

text \<open>\<^verbatim>\<open>s.rfind(c)\<close>: the last position of a byte.\<close>

fun rfind_char :: "char \<Rightarrow> string \<Rightarrow> nat option" where
  "rfind_char c [] = None"
| "rfind_char c (x # xs) =
     (case rfind_char c xs of
        Some i \<Rightarrow> Some (Suc i)
      | None \<Rightarrow> if x = c then Some 0 else None)"

text \<open>\<^verbatim>\<open>s.rfind(c, pos)\<close>: the last position not after \<open>pos\<close>.\<close>

definition rfind_char_upto :: "char \<Rightarrow> string \<Rightarrow> nat \<Rightarrow> nat option" where
  "rfind_char_upto c s pos = rfind_char c (take (Suc pos) s)"

text \<open>\<^verbatim>\<open>s.find(pat) != npos\<close>.\<close>

fun contains :: "string \<Rightarrow> string \<Rightarrow> bool" where
  "contains pat [] = (pat = [])"
| "contains pat (x # xs) = (prefix pat (x # xs) \<or> contains pat xs)"

text \<open>
  \<^verbatim>\<open>s.substr(pos)\<close> throws \<^verbatim>\<open>std::out_of_range\<close> when the position lies beyond
  the end of the string.
\<close>

definition substr_from :: "string \<Rightarrow> nat \<Rightarrow> string res" where
  "substr_from s pos = (if pos \<le> length s then Inr (drop pos s) else Inl Out_of_range)"

text \<open>
  \<^verbatim>\<open>s.substr(s.rfind(c) + 1)\<close>: \<^verbatim>\<open>npos + 1\<close> wraps to 0, so the whole string
  is kept when the byte does not occur, and the call never throws.
\<close>

definition after_last :: "char \<Rightarrow> string \<Rightarrow> string" where
  "after_last c s = (case rfind_char c s of None \<Rightarrow> s | Some i \<Rightarrow> drop (Suc i) s)"

text \<open>\<^verbatim>\<open>while (!s.empty() && P(s.back())) s.pop_back();\<close>\<close>

function strip_back :: "(char \<Rightarrow> bool) \<Rightarrow> string \<Rightarrow> string" where
  "strip_back P s = (if s \<noteq> [] \<and> P (last s) then strip_back P (butlast s) else s)"
  by pat_completeness auto
termination
  by (relation "measure (\<lambda>(P, s). length s)") auto

declare strip_back.simps [simp del]

text \<open>\<^verbatim>\<open>while (!s.empty() && P(s.front())) s.erase(0, 1);\<close>\<close>

fun strip_front :: "(char \<Rightarrow> bool) \<Rightarrow> string \<Rightarrow> string" where
  "strip_front P [] = []"
| "strip_front P (x # xs) = (if P x then strip_front P xs else x # xs)"

text \<open>
  The sequence of strings that \<^verbatim>\<open>while (std::getline(in, line, d))\<close> delivers: a
  delimiter ends a line, a last line without delimiter is delivered when it is not
  empty, and nothing is delivered after a final delimiter.
\<close>

function getlines :: "char \<Rightarrow> string \<Rightarrow> string list" where
  "getlines d s =
     (if s = [] then []
      else takeWhile (\<lambda>c. c \<noteq> d) s
             # getlines d (drop (Suc (length (takeWhile (\<lambda>c. c \<noteq> d) s))) s))"
  by pat_completeness auto
termination
  by (relation "measure (\<lambda>(d, s). length s)") auto

declare getlines.simps [simp del]

subsection \<open>Lemmas on searching and slicing\<close>

lemma find_char_None [str_simps]: "find_char c s = None \<longleftrightarrow> c \<notin> set s"
  by (induction s) auto

lemma find_char_Some: "find_char c s = Some i \<Longrightarrow> i < length s \<and> s ! i = c \<and> c \<notin> set (take i s)"
  by (induction s arbitrary: i) (auto split: if_splits)

lemma rfind_char_None [str_simps]: "rfind_char c s = None \<longleftrightarrow> c \<notin> set s"
  by (induction s) (auto split: option.splits)

lemma rfind_char_Some:
  "rfind_char c s = Some i \<Longrightarrow> i < length s \<and> s ! i = c \<and> c \<notin> set (drop (Suc i) s)"
proof (induction s arbitrary: i)
  case Nil
  then show ?case by simp
next
  case (Cons x xs)
  show ?case
  proof (cases "rfind_char c xs")
    case None
    with Cons.prems show ?thesis by (auto simp: rfind_char_None split: if_splits)
  next
    case (Some j)
    with Cons.prems Cons.IH show ?thesis by auto
  qed
qed

lemma rfind_char_append_sep [str_simps]:
  "c \<notin> set ys \<Longrightarrow> rfind_char c (xs @ c # ys) = Some (length xs)"
proof (induction xs)
  case Nil
  then have "rfind_char c ys = None" by (simp add: rfind_char_None)
  then show ?case by simp
next
  case (Cons x xs)
  then show ?case by simp
qed

lemma after_last_append_sep [str_simps]:
  "c \<notin> set ys \<Longrightarrow> after_last c (xs @ c # ys) = ys"
  by (simp add: after_last_def rfind_char_append_sep)

lemma after_last_no_sep [str_simps]: "c \<notin> set s \<Longrightarrow> after_last c s = s"
  by (simp add: after_last_def rfind_char_None [THEN iffD2])

lemma after_last_notin: "c \<notin> set (after_last c s)"
  by (auto simp: after_last_def rfind_char_None dest: rfind_char_Some split: option.splits)

lemma contains_iff_sublist: "contains pat s \<longleftrightarrow> sublist pat s"
proof (induction s)
  case Nil
  then show ?case by simp
next
  case (Cons x xs)
  then show ?case by (simp add: sublist_Cons_right)
qed

lemma contains_infix [intro, simp]: "contains pat (xs @ pat @ ys)"
  by (simp add: contains_iff_sublist sublist_appendI)

lemma contains_prefix [simp]: "contains pat (pat @ ys)"
  using contains_infix [of pat "[]" ys] by simp

lemma contains_suffix [simp]: "contains pat (xs @ pat)"
  using contains_infix [of pat xs "[]"] by simp

lemma contains_append_leftI: "contains pat s \<Longrightarrow> contains pat (s @ t)"
  unfolding contains_iff_sublist sublist_def by (metis append.assoc)

lemma contains_append_rightI: "contains pat t \<Longrightarrow> contains pat (s @ t)"
  unfolding contains_iff_sublist sublist_def by (metis append.assoc)

lemma strip_back_eq: "strip_back P s = rev (dropWhile P (rev s))"
proof (induction P s rule: strip_back.induct)
  case (1 P s)
  show ?case
  proof (cases s rule: rev_cases)
    case Nil
    then show ?thesis by (simp add: strip_back.simps)
  next
    case (snoc ys y)
    then show ?thesis using "1.IH" by (subst strip_back.simps) auto
  qed
qed

lemma strip_back_Nil [simp]: "strip_back P [] = []"
  by (simp add: strip_back_eq)

lemma strip_back_snoc: "strip_back P (s @ [c]) = (if P c then strip_back P s else s @ [c])"
  by (simp add: strip_back_eq)

lemma strip_back_id [str_simps]: "s = [] \<or> \<not> P (last s) \<Longrightarrow> strip_back P s = s"
  by (subst strip_back.simps) auto

lemma last_strip_back: "strip_back P s \<noteq> [] \<Longrightarrow> \<not> P (last (strip_back P s))"
  by (simp add: strip_back_eq last_rev hd_dropWhile)

lemma strip_front_eq: "strip_front P s = dropWhile P s"
  by (induction s) auto

lemma set_strip_back: "set (strip_back P s) \<subseteq> set s"
  using set_dropWhileD by (fastforce simp: strip_back_eq)

lemma set_strip_front: "set (strip_front P s) \<subseteq> set s"
  using set_dropWhileD by (fastforce simp: strip_front_eq)

lemma getlines_Nil [simp]: "getlines d [] = []"
  by (simp add: getlines.simps)

lemma getlines_line [str_simps]:
  assumes "d \<notin> set l"
  shows "getlines d (l @ d # rest) = l # getlines d rest"
proof -
  have tw: "takeWhile (\<lambda>c. c \<noteq> d) (l @ d # rest) = l"
    using assms by (induction l) auto
  show ?thesis by (subst getlines.simps) (simp add: tw)
qed

lemma getlines_last [str_simps]:
  assumes "d \<notin> set l" and "l \<noteq> []"
  shows "getlines d l = [l]"
proof -
  have tw: "takeWhile (\<lambda>c. c \<noteq> d) l = l"
    using assms(1) by (induction l) auto
  show ?thesis using assms(2) by (subst getlines.simps) (simp add: tw)
qed

text \<open>Writing lines with their terminator and reading them back gives the lines.\<close>

lemma getlines_unlines:
  "(\<And>l. l \<in> set ls \<Longrightarrow> d \<notin> set l) \<Longrightarrow> getlines d (concat (map (\<lambda>l. l @ [d]) ls)) = ls"
  by (induction ls) (auto simp: getlines_line)

lemma getlines_no_sep: "l \<in> set (getlines d s) \<Longrightarrow> d \<notin> set l"
proof (induction d s rule: getlines.induct)
  case (1 d s)
  show ?case
  proof (cases "s = []")
    case True
    with "1.prems" show ?thesis by simp
  next
    case False
    with "1" show ?thesis
      by (subst (asm) (2) getlines.simps) (auto dest: set_takeWhileD)
  qed
qed

section \<open>Numbers as text\<close>

definition digit_char :: "nat \<Rightarrow> char" where
  "digit_char d = char_of (48 + d)"

definition is_digit :: "char \<Rightarrow> bool" where
  "is_digit c \<longleftrightarrow> 48 \<le> (of_char c :: nat) \<and> (of_char c :: nat) \<le> 57"

definition digit_val :: "char \<Rightarrow> nat" where
  "digit_val c = of_char c - 48"

text \<open>\<^verbatim>\<open>std::to_string\<close> on unsigned and on signed values.\<close>

function show_nat :: "nat \<Rightarrow> string" where
  "show_nat n = (if n < 10 then [digit_char n]
                 else show_nat (n div 10) @ [digit_char (n mod 10)])"
  by pat_completeness auto
termination
  by (relation "measure id") auto

declare show_nat.simps [simp del]

definition show_int :: "int \<Rightarrow> string" where
  "show_int i = (if i < 0 then CHR ''-'' # show_nat (nat (- i)) else show_nat (nat i))"

definition digits_val :: "string \<Rightarrow> nat" where
  "digits_val ds = foldl (\<lambda>n c. n * 10 + digit_val c) 0 ds"

text \<open>\<^verbatim>\<open>isspace\<close> in the C locale.\<close>

definition is_space :: "char \<Rightarrow> bool" where
  "is_space c \<longleftrightarrow> c = CHR '' '' \<or> (9 \<le> (of_char c :: nat) \<and> (of_char c :: nat) \<le> 13)"

text \<open>
  \<^verbatim>\<open>std::stoi\<close> and \<^verbatim>\<open>std::stoull\<close> in base 10: leading white space and one
  optional sign are skipped, the longest run of digits is converted, anything after it is
  ignored.  No digit at all throws \<^verbatim>\<open>std::invalid_argument\<close>, a value that does not
  fit throws \<^verbatim>\<open>std::out_of_range\<close>.  \<^verbatim>\<open>strtoull\<close> accepts a minus sign and
  negates the value modulo \<open>2 ^ 64\<close>.
\<close>

definition split_sign :: "string \<Rightarrow> bool \<times> string" where
  "split_sign s =
     (case s of
        [] \<Rightarrow> (False, [])
      | c # cs \<Rightarrow> if c = CHR ''-'' then (True, cs) else if c = CHR ''+'' then (False, cs)
                  else (False, s))"

definition scan_number :: "string \<Rightarrow> (bool \<times> nat) option" where
  "scan_number s =
     (let (neg, t) = split_sign (dropWhile is_space s); ds = takeWhile is_digit t
      in if ds = [] then None else Some (neg, digits_val ds))"

definition stoi :: "string \<Rightarrow> int res" where
  "stoi s =
     (case scan_number s of
        None \<Rightarrow> Inl Invalid_argument
      | Some (neg, n) \<Rightarrow>
          (let v = (if neg then - int n else int n)
           in if - (2 ^ 31) \<le> v \<and> v < 2 ^ 31 then Inr v else Inl Out_of_range))"

definition stoull :: "string \<Rightarrow> u64 res" where
  "stoull s =
     (case scan_number s of
        None \<Rightarrow> Inl Invalid_argument
      | Some (neg, n) \<Rightarrow>
          if n < 2 ^ 64 then Inr (if neg then - of_nat n else of_nat n) else Inl Out_of_range)"

subsection \<open>Lemmas on numbers as text\<close>

lemma of_char_digit_char: "d < 10 \<Longrightarrow> (of_char (digit_char d) :: nat) = 48 + d"
  by (simp add: digit_char_def)

lemma digit_char_digit [num_simps]: "d < 10 \<Longrightarrow> is_digit (digit_char d)"
  by (simp add: is_digit_def of_char_digit_char)

lemma digit_val_digit_char [num_simps]: "d < 10 \<Longrightarrow> digit_val (digit_char d) = d"
  by (simp add: digit_val_def of_char_digit_char)

lemma show_nat_not_Nil [simp]: "show_nat n \<noteq> []"
  by (subst show_nat.simps) simp

lemma show_nat_digits: "c \<in> set (show_nat n) \<Longrightarrow> is_digit c"
proof (induction n rule: show_nat.induct)
  case (1 n)
  show ?case
  proof (cases "n < 10")
    case True
    with "1.prems" show ?thesis by (subst (asm) show_nat.simps) (simp add: digit_char_digit)
  next
    case False
    with "1" show ?thesis
      by (subst (asm) (2) show_nat.simps) (auto simp: digit_char_digit)
  qed
qed

lemma digits_val_snoc [num_simps]: "digits_val (ds @ [c]) = digits_val ds * 10 + digit_val c"
  by (simp add: digits_val_def)

lemma digits_val_show_nat [num_simps]: "digits_val (show_nat n) = n"
proof (induction n rule: show_nat.induct)
  case (1 n)
  show ?case
  proof (cases "n < 10")
    case True
    then show ?thesis
      by (subst show_nat.simps) (simp add: digits_val_def digit_val_digit_char)
  next
    case False
    with "1.IH" show ?thesis
      by (subst show_nat.simps) (simp add: digits_val_snoc digit_val_digit_char)
  qed
qed

lemma show_nat_inj: "show_nat m = show_nat n \<Longrightarrow> m = n"
  by (metis digits_val_show_nat)

lemma is_digit_not_space: "is_digit c \<Longrightarrow> \<not> is_space c"
  by (auto simp: is_digit_def is_space_def)

lemma is_digit_not_sign: "is_digit c \<Longrightarrow> c \<noteq> CHR ''-'' \<and> c \<noteq> CHR ''+''"
  by (auto simp: is_digit_def)

lemma is_digit_not_sep: "is_digit c \<Longrightarrow> c \<noteq> CHR '' '' \<and> c \<noteq> CHR 0x0A"
  by (auto simp: is_digit_def)

lemma show_nat_no_sep: "CHR '' '' \<notin> set (show_nat n)" "CHR 0x0A \<notin> set (show_nat n)"
  using show_nat_digits is_digit_not_sep by blast+

lemma scan_number_show_nat [num_simps]: "scan_number (show_nat n) = Some (False, n)"
proof -
  obtain c cs where eq: "show_nat n = c # cs"
    by (cases "show_nat n") auto
  have dig: "is_digit c" using show_nat_digits [of c n] eq by simp
  have dw: "dropWhile is_space (show_nat n) = show_nat n"
    using dig is_digit_not_space eq by simp
  have tw: "takeWhile is_digit (show_nat n) = show_nat n"
    using show_nat_digits by (simp add: takeWhile_eq_all_conv)
  have "split_sign (show_nat n) = (False, show_nat n)"
    using dig is_digit_not_sign eq by (auto simp: split_sign_def)
  then show ?thesis
    by (simp add: scan_number_def dw tw digits_val_show_nat)
qed

lemma stoull_show_nat [num_simps]: "n < 2 ^ 64 \<Longrightarrow> stoull (show_nat n) = Inr (of_nat n)"
  by (simp add: stoull_def scan_number_show_nat)

lemma stoull_show_word [num_simps]: "stoull (show_nat (unat (w :: u64))) = Inr w"
proof -
  have "unat w < 2 ^ 64" using unsigned_less [of w] by simp
  then show ?thesis by (simp add: stoull_show_nat)
qed

lemma stoi_show_nat [num_simps]: "n < 2 ^ 31 \<Longrightarrow> stoi (show_nat n) = Inr (int n)"
  by (simp add: stoi_def scan_number_show_nat Let_def)

section \<open>Integer conversions\<close>

text \<open>
  \<^verbatim>\<open>int\<close> initialised from an unsigned protobuf field keeps the low 32 bits and reads
  them as two's complement; \<^verbatim>\<open>int\<close> addition that leaves the type's range is
  undefined behaviour.
\<close>

definition int_of_u32 :: "u32 \<Rightarrow> int" where
  "int_of_u32 w = sint w"

definition int_of_u64 :: "u64 \<Rightarrow> int" where
  "int_of_u64 w = sint (ucast w :: u32)"

definition int_add :: "int \<Rightarrow> int \<Rightarrow> int res" where
  "int_add a b = (if - (2 ^ 31) \<le> a + b \<and> a + b < 2 ^ 31 then Inr (a + b) else Inl Signed_overflow)"

lemma int_of_u32_small:
  assumes "uint w < 2 ^ 31"
  shows "int_of_u32 w = int (unat w)"
proof -
  have "- (2 ^ 31) \<le> uint w"
    by (rule order_trans [OF _ uint_ge_0]) simp
  then have "signed_take_bit 31 (uint w) = uint w"
    using assms by (rule signed_take_bit_int_eq_self)
  then show ?thesis by (simp add: int_of_u32_def sint_uint)
qed

lemma int_of_u32_bounds: "- (2 ^ 31) \<le> int_of_u32 w \<and> int_of_u32 w < 2 ^ 31"
  using sint_ge [of w] sint_lt [of w] by (simp add: int_of_u32_def)

lemma int_of_u64_bounds: "- (2 ^ 31) \<le> int_of_u64 w \<and> int_of_u64 w < 2 ^ 31"
  using sint_ge [of "ucast w :: u32"] sint_lt [of "ucast w :: u32"] by (simp add: int_of_u64_def)

lemma int_of_u32_cases: "int_of_u32 w = (if uint w < 2 ^ 31 then uint w else uint w - 2 ^ 32)"
proof (cases "uint w < 2 ^ 31")
  case True
  then show ?thesis by (simp add: int_of_u32_small)
next
  case False
  have u: "uint w < 2 ^ 32" using uint_lt2p [of w] by simp
  have "uint w div 2 ^ 31 = 1"
    using False u by (intro int_div_pos_eq [of _ _ _ "uint w - 2 ^ 31"]) simp_all
  then have "bit (uint w) 31" by (simp add: bit_iff_odd)
  moreover have "take_bit 32 (uint w) = uint w"
    using u by (simp add: take_bit_int_eq_self)
  ultimately show ?thesis
    using False by (simp add: int_of_u32_def sint_uint signed_take_bit_eq_take_bit_minus)
qed

lemma int_of_u64_cases:
  "int_of_u64 w = (let n = uint w mod 2 ^ 32 in if n < 2 ^ 31 then n else n - 2 ^ 32)"
proof -
  have "uint (ucast w :: u32) = uint w mod 2 ^ 32"
    by (simp add: unsigned_ucast_eq take_bit_eq_mod)
  then show ?thesis
    using int_of_u32_cases [of "ucast w"] by (simp add: int_of_u64_def int_of_u32_def Let_def)
qed

end
