(* ===== verification/Watchdog.thy ===== *)
theory Watchdog
  imports Prelude
begin

text \<open>
  The parent side of a profiler's child process: the watchdog thread and the
  \<^verbatim>\<open>waitpid\<close> / \<^verbatim>\<open>child_done\<close> / \<^verbatim>\<open>join\<close> sequence that
  \<^verbatim>\<open>perf_profiler.cpp\<close>, \<^verbatim>\<open>async_profiler_profiler.cpp\<close> and
  \<^verbatim>\<open>script_runner.cpp\<close> share line by line.  It is a machine whose steps are the
  sections the two threads execute under \<^verbatim>\<open>done_mu\<close>, the system calls of the main
  thread, the passage of time and the end of the child; the scheduler and the operating system
  are the sequence of events it is given.  Times are nanoseconds since \<^verbatim>\<open>start\<close>.
\<close>

section \<open>Machine\<close>

datatype wstatus = Exited nat | Signaled nat

datatype child_state = Running | Zombie wstatus | Reaped

text \<open>The main thread: in \<^verbatim>\<open>waitpid\<close>, past it, past the assignment of
  \<^verbatim>\<open>child_done\<close>, past \<^verbatim>\<open>join\<close>.\<close>

datatype main_pc = M_waitpid | M_waited | M_done | M_joined

text \<open>The watchdog: in the first \<^verbatim>\<open>wait_until\<close>, in the second with its deadline,
  finished.\<close>

datatype watchdog_pc = W_wait | W_kill_wait time | W_exit

datatype signal = SIGTERM | SIGKILL

record watch_state =
  ws_now :: time
  ws_child :: child_state
  ws_main :: main_pc
  ws_dog :: watchdog_pc
  child_done :: bool
  timed_out :: bool
  ws_wp :: "(string + wstatus) option"
  ws_sent :: "(signal \<times> time) list"

definition watch_init :: watch_state where
  "watch_init =
     \<lparr>ws_now = 0, ws_child = Running, ws_main = M_waitpid, ws_dog = W_wait, child_done = False,
      timed_out = False, ws_wp = None, ws_sent = []\<rparr>"

datatype watch_event =
    Tick nat
  | Child_ends wstatus
  | Waitpid_returns
  | Waitpid_fails string
  | Main_sets_done
  | Dog_wakes
  | Main_joins

definition nsec :: "int \<Rightarrow> time" where
  "nsec s = s * 1000000000"

text \<open>
  One step; \<open>None\<close> when the thread is not there.  \<open>Dog_wakes\<close> is a return of the
  condition variable for any reason: the predicate decides first, then the deadline, and
  otherwise the wait goes on.
\<close>

fun watch_step :: "int \<Rightarrow> watch_event \<Rightarrow> watch_state \<Rightarrow> watch_state option" where
  "watch_step timeout_sec (Tick n) s = Some (s\<lparr>ws_now := ws_now s + int n\<rparr>)"
| "watch_step timeout_sec (Child_ends st) s =
     (if ws_child s = Running then Some (s\<lparr>ws_child := Zombie st\<rparr>) else None)"
| "watch_step timeout_sec Waitpid_returns s =
     (case (ws_main s, ws_child s) of
        (M_waitpid, Zombie st) \<Rightarrow>
          Some (s\<lparr>ws_child := Reaped, ws_main := M_waited, ws_wp := Some (Inr st)\<rparr>)
      | _ \<Rightarrow> None)"
| "watch_step timeout_sec (Waitpid_fails e) s =
     (if ws_main s = M_waitpid then Some (s\<lparr>ws_main := M_waited, ws_wp := Some (Inl e)\<rparr>) else None)"
| "watch_step timeout_sec Main_sets_done s =
     (if ws_main s = M_waited then Some (s\<lparr>ws_main := M_done, child_done := True\<rparr>) else None)"
| "watch_step timeout_sec Dog_wakes s =
     (case ws_dog s of
        W_wait \<Rightarrow>
          if child_done s then Some (s\<lparr>ws_dog := W_exit\<rparr>)
          else if ws_now s \<ge> nsec timeout_sec
          then Some (s\<lparr>timed_out := True, ws_sent := ws_sent s @ [(SIGTERM, ws_now s)],
                       ws_dog := W_kill_wait (ws_now s + nsec 5)\<rparr>)
          else Some s
      | W_kill_wait kill_deadline \<Rightarrow>
          if child_done s then Some (s\<lparr>ws_dog := W_exit\<rparr>)
          else if ws_now s \<ge> kill_deadline
          then Some (s\<lparr>ws_sent := ws_sent s @ [(SIGKILL, ws_now s)], ws_dog := W_exit\<rparr>)
          else Some s
      | W_exit \<Rightarrow> None)"
| "watch_step timeout_sec Main_joins s =
     (if ws_main s = M_done \<and> ws_dog s = W_exit then Some (s\<lparr>ws_main := M_joined\<rparr>) else None)"

fun watch_run :: "int \<Rightarrow> watch_event list \<Rightarrow> watch_state \<Rightarrow> watch_state option" where
  "watch_run timeout_sec [] s = Some s"
| "watch_run timeout_sec (e # es) s =
     (case watch_step timeout_sec e s of None \<Rightarrow> None | Some s' \<Rightarrow> watch_run timeout_sec es s')"

text \<open>
  What the code after \<^verbatim>\<open>watchdog.join()\<close> sees: \<^verbatim>\<open>timed_out\<close> and the result of
  \<^verbatim>\<open>waitpid\<close>; \<open>None\<close> when the given events do not get that far.
\<close>

definition watch_child :: "int \<Rightarrow> watch_event list \<Rightarrow> (bool \<times> (string + wstatus)) option" where
  "watch_child timeout_sec es =
     (case watch_run timeout_sec es watch_init of
        None \<Rightarrow> None
      | Some s \<Rightarrow>
          if ws_main s = M_joined then map_option (\<lambda>w. (timed_out s, w)) (ws_wp s) else None)"

section \<open>Invariant\<close>

text \<open>
  Signals are sent in the order SIGTERM, SIGKILL, at most one of each, SIGTERM not before the
  timeout and SIGKILL not within five seconds of it.
\<close>

definition sent_ok :: "int \<Rightarrow> watch_state \<Rightarrow> bool" where
  "sent_ok timeout_sec s =
     (case ws_dog s of
        W_wait \<Rightarrow> ws_sent s = [] \<and> \<not> timed_out s
      | W_kill_wait kd \<Rightarrow> (\<exists>t. ws_sent s = [(SIGTERM, t)] \<and> nsec timeout_sec \<le> t \<and> t \<le> ws_now s
                             \<and> kd = t + nsec 5) \<and> timed_out s
      | W_exit \<Rightarrow>
          (ws_sent s = [] \<and> \<not> timed_out s \<and> child_done s)
          \<or> (timed_out s \<and> (\<exists>t. nsec timeout_sec \<le> t \<and> t \<le> ws_now s
               \<and> ((ws_sent s = [(SIGTERM, t)] \<and> child_done s)
                  \<or> (\<exists>u. t + nsec 5 \<le> u \<and> u \<le> ws_now s \<and> ws_sent s = [(SIGTERM, t), (SIGKILL, u)])))))"

definition main_ok :: "watch_state \<Rightarrow> bool" where
  "main_ok s =
     (case ws_main s of
        M_waitpid \<Rightarrow> \<not> child_done s \<and> ws_wp s = None \<and> ws_child s \<noteq> Reaped
      | M_waited \<Rightarrow> \<not> child_done s \<and> ws_wp s \<noteq> None
      | M_done \<Rightarrow> child_done s \<and> ws_wp s \<noteq> None
      | M_joined \<Rightarrow> child_done s \<and> ws_wp s \<noteq> None \<and> ws_dog s = W_exit)"

definition watch_inv :: "int \<Rightarrow> watch_state \<Rightarrow> bool" where
  "watch_inv timeout_sec s \<longleftrightarrow> sent_ok timeout_sec s \<and> main_ok s"

lemma watch_inv_init: "watch_inv timeout_sec watch_init"
  by (simp add: watch_inv_def sent_ok_def main_ok_def watch_init_def)

lemma nsec_mono: "nsec a \<le> nsec b \<longleftrightarrow> a \<le> b"
  by (simp add: nsec_def)

lemma sent_ok_tick: "sent_ok n s \<Longrightarrow> sent_ok n (s\<lparr>ws_now := ws_now s + int k\<rparr>)"
  by (fastforce simp: sent_ok_def split: watchdog_pc.splits)

lemma sent_ok_frame:
  assumes "sent_ok n s" and "ws_dog s' = ws_dog s" "ws_sent s' = ws_sent s" "timed_out s' = timed_out s"
    "ws_now s' = ws_now s" "child_done s \<longrightarrow> child_done s'"
  shows "sent_ok n s'"
  using assms by (auto simp: sent_ok_def split: watchdog_pc.splits)

lemma sent_ok_dog: "sent_ok n s \<Longrightarrow> watch_step n Dog_wakes s = Some s' \<Longrightarrow> sent_ok n s'"
  by (cases "ws_dog s") (auto simp: sent_ok_def split: if_splits)

lemma main_ok_dog: "main_ok s \<Longrightarrow> watch_step n Dog_wakes s = Some s' \<Longrightarrow> main_ok s'"
  by (cases "ws_dog s"; cases "ws_main s") (auto simp: main_ok_def split: if_splits)

lemma watch_inv_step:
  assumes "watch_inv n s" and "watch_step n e s = Some s'"
  shows "watch_inv n s'"
proof (cases e)
  case (Tick k)
  then show ?thesis
    using assms sent_ok_tick [of n s k] by (auto simp: watch_inv_def main_ok_def split: main_pc.splits)
next
  case Dog_wakes
  then show ?thesis using assms sent_ok_dog main_ok_dog by (auto simp: watch_inv_def)
next
  case Main_joins
  then show ?thesis
    using assms by (auto simp: watch_inv_def main_ok_def split: if_splits intro: sent_ok_frame)
qed (use assms in \<open>auto simp: watch_inv_def main_ok_def split: if_splits main_pc.splits child_state.splits
      intro: sent_ok_frame\<close>)

lemma watch_inv_run: "watch_inv n s \<Longrightarrow> watch_run n es s = Some s' \<Longrightarrow> watch_inv n s'"
  by (induction es arbitrary: s) (auto split: option.splits intro: watch_inv_step)


section \<open>Completion\<close>











text \<open>
  C26. The watchdog's signals.  In every interleaving of the waiting thread, the watchdog, the
  clock and the child, nothing is ever sent before the timeout; what is sent is SIGTERM, then at
  least five seconds later SIGKILL, at most one of each; \<open>timed_out\<close> is true exactly when
  SIGTERM was sent; and when the code after the join runs, the result of waitpid is there, and
  without a timeout the child was never signalled.
\<close>

theorem watchdog_signals:
  assumes "watch_run timeout_sec es watch_init = Some s"
  shows "(timed_out s \<longleftrightarrow> ws_sent s \<noteq> [])
    \<and> (ws_sent s \<noteq> [] \<longrightarrow> (\<exists>t \<ge> nsec timeout_sec.
          ws_sent s = [(SIGTERM, t)] \<or> (\<exists>u \<ge> t + nsec 5. ws_sent s = [(SIGTERM, t), (SIGKILL, u)])))
    \<and> (ws_main s = M_joined \<longrightarrow> (\<exists>w. ws_wp s = Some w \<and> watch_child timeout_sec es = Some (timed_out s, w)))"
proof -
  have inv: "sent_ok timeout_sec s" "main_ok s"
    using watch_inv_run [OF watch_inv_init assms] by (simp_all add: watch_inv_def)
  have "ws_main s = M_joined \<longrightarrow> (\<exists>w. ws_wp s = Some w \<and> watch_child timeout_sec es = Some (timed_out s, w))"
    using inv(2) assms by (auto simp: main_ok_def watch_child_def)
  then show ?thesis
    using inv(1) by (cases "ws_dog s") (auto simp: sent_ok_def)
qed

theorem watchdog_signals_witness:
  "watch_child 1 [Tick 1000000000, Dog_wakes, Tick 5000000000, Dog_wakes, Child_ends (Signaled 9),
      Waitpid_returns, Main_sets_done, Main_joins] = Some (True, Inr (Signaled 9))"
proof -
  let ?es = "[Tick 1000000000, Dog_wakes, Tick 5000000000, Dog_wakes, Child_ends (Signaled 9),
      Waitpid_returns, Main_sets_done, Main_joins]"
  obtain s where s: "watch_run 1 ?es watch_init = Some s" "ws_main s = M_joined"
      "ws_wp s = Some (Inr (Signaled 9))" "timed_out s"
    by (simp add: watch_init_def nsec_def)
  then show ?thesis using watchdog_signals [OF s(1)] by auto
qed



text \<open>
  The main thread sets \<^verbatim>\<open>child_done\<close> only after it has reaped the child, so the
  watchdog can time out in between: it then signals a process group whose leader no longer
  exists, and a child that exited in time with status 0 is reported as timed out.
\<close>

lemma signal_after_reap:
  assumes "0 \<le> timeout_sec"
  shows "\<exists>s. watch_run timeout_sec
       [Child_ends (Exited 0), Waitpid_returns, Tick (nat (nsec timeout_sec)), Dog_wakes] watch_init = Some s
     \<and> ws_child s = Reaped \<and> ws_sent s \<noteq> [] \<and> timed_out s \<and> ws_wp s = Some (Inr (Exited 0))"
  using assms by (simp add: watch_init_def nsec_def)

end
