(* ===== verification/OSModel.thy ===== *)
theory OSModel
  imports Watchdog
begin

text \<open>
  What the agent's code sees of the operating system: files, child processes, shell commands,
  descriptors and the wall clock.  None of it is in the sources, so each choice the system makes
  is a field of the environment \<open>os_env\<close>, indexed by the number of the fork, pipe or clock
  reading where it may change from call to call; what the agent does to the system is recorded in
  \<open>os_state\<close>.  A call that can end in an exception or not at all has the type
  \<open>outc\<close>.
\<close>

section \<open>Outcomes\<close>

datatype 'a outc = Returns 'a | Throws cxx_exn | Hangs

fun bind_outc :: "'a outc \<Rightarrow> ('a \<Rightarrow> 'b outc) \<Rightarrow> 'b outc" where
  "bind_outc (Returns x) f = f x"
| "bind_outc (Throws e) f = Throws e"
| "bind_outc Hangs f = Hangs"

definition of_res :: "'a res \<Rightarrow> 'a outc" where
  "of_res r = (case r of Inl e \<Rightarrow> Throws e | Inr x \<Rightarrow> Returns x)"

lemma bind_outc_Returns [simp]: "bind_outc m f = Returns y \<longleftrightarrow> (\<exists>x. m = Returns x \<and> f x = Returns y)"
  by (cases m) auto

lemma of_res_Returns [simp]: "of_res r = Returns x \<longleftrightarrow> r = Inr x"
  by (auto simp: of_res_def split: sum.splits)

lemma of_res_not_Hangs [simp]: "of_res r \<noteq> Hangs"
  by (simp add: of_res_def split: sum.splits)

section \<open>State and environment\<close>

type_synonym filesystem = "path \<rightharpoonup> string"

text \<open>
  What a forked child does before \<^verbatim>\<open>exec\<close>: the program and its arguments, whether it
  leads a new process group, the file its standard output and error go to (\<open>None\<close> for
  \<^verbatim>\<open>/dev/null\<close> or a pipe), and what it writes to standard error when
  \<^verbatim>\<open>exec\<close> fails.
\<close>

record child_spec =
  cs_program :: string
  cs_argv :: "string list"
  cs_setpgid :: bool
  cs_stdout :: "path option"
  cs_stderr :: "path option"
  cs_exec_error :: string

record os_state =
  os_fs :: filesystem
  os_forks :: nat
  os_children :: "child_spec list"
  os_shell :: "string list"
  os_fds :: int
  os_clock :: nat

record os_env =
  mkdir_ok :: "path \<Rightarrow> bool"
  open_ok :: "path \<Rightarrow> bool"
  chmod_error :: "path \<Rightarrow> string option"
  pipe_ok :: "nat \<Rightarrow> bool"
  fork_error :: "nat \<Rightarrow> string option"
  exec_ok :: "nat \<Rightarrow> bool"
  child_effect :: "nat \<Rightarrow> child_spec \<Rightarrow> filesystem \<Rightarrow> filesystem"
  child_events :: "nat \<Rightarrow> watch_event list"
  child_wait :: "nat \<Rightarrow> string + wstatus"
  child_output :: "nat \<Rightarrow> string"
  wall_clock :: "nat \<Rightarrow> int"
  exe_link :: "string option"
  env_var :: "string \<Rightarrow> string option"
  canonical :: "path \<Rightarrow> path"
  cwd :: path

section \<open>Files\<close>

definition create_directories :: "os_env \<Rightarrow> path \<Rightarrow> unit outc" where
  "create_directories env p = (if mkdir_ok env p then Returns () else Throws Filesystem_error)"

definition file_exists :: "os_state \<Rightarrow> path \<Rightarrow> bool" where
  "file_exists os p \<longleftrightarrow> os_fs os p \<noteq> None"

definition file_size :: "os_state \<Rightarrow> path \<Rightarrow> nat outc" where
  "file_size os p = (case os_fs os p of None \<Rightarrow> Throws Filesystem_error | Some s \<Rightarrow> Returns (length s))"

text \<open>\<^verbatim>\<open>std::ofstream(p)\<close> with truncation, then one write: \<open>None\<close> when it does not open.\<close>

definition write_file :: "os_env \<Rightarrow> path \<Rightarrow> string \<Rightarrow> os_state \<Rightarrow> os_state option" where
  "write_file env p content os =
     (if open_ok env p then Some (os\<lparr>os_fs := (os_fs os)(p \<mapsto> content)\<rparr>) else None)"

definition remove_file :: "path \<Rightarrow> os_state \<Rightarrow> os_state" where
  "remove_file p os = os\<lparr>os_fs := (os_fs os)(p := None)\<rparr>"

text \<open>\<^verbatim>\<open>std::filesystem::path::parent_path\<close>.\<close>

definition parent_path :: "path \<Rightarrow> path" where
  "parent_path p =
     (case rfind_char (CHR ''/'') p of
        None \<Rightarrow> []
      | Some i \<Rightarrow> (let d = strip_back (\<lambda>c. c = CHR ''/'') (take i p) in if d = [] then ''/'' else d))"

definition read_clock :: "os_env \<Rightarrow> os_state \<Rightarrow> int \<times> os_state" where
  "read_clock env os = (wall_clock env (os_clock os), os\<lparr>os_clock := Suc (os_clock os)\<rparr>)"

section \<open>Child processes\<close>

text \<open>
  The child between \<^verbatim>\<open>fork\<close> and \<^verbatim>\<open>exec\<close>: a file it can open for writing is
  truncated, one it cannot open leaves the inherited descriptor in place.
\<close>

definition redirect :: "os_env \<Rightarrow> path option \<Rightarrow> filesystem \<Rightarrow> filesystem" where
  "redirect env target fs =
     (case target of None \<Rightarrow> fs | Some p \<Rightarrow> if open_ok env p then fs(p \<mapsto> []) else fs)"

definition child_fs :: "os_env \<Rightarrow> nat \<Rightarrow> child_spec \<Rightarrow> filesystem \<Rightarrow> filesystem" where
  "child_fs env n spec fs =
     (let fs1 = redirect env (cs_stderr spec) (redirect env (cs_stdout spec) fs)
      in if exec_ok env n then child_effect env n spec fs1
         else (case cs_stderr spec of
                 None \<Rightarrow> fs1
               | Some p \<Rightarrow> if open_ok env p then fs1(p \<mapsto> cs_exec_error spec) else fs1))"

text \<open>\<^verbatim>\<open>fork\<close> and what the child does; the number of the fork identifies the child.\<close>

definition fork_child :: "os_env \<Rightarrow> child_spec \<Rightarrow> os_state \<Rightarrow> (string + nat) \<times> os_state" where
  "fork_child env spec os =
     (let n = os_forks os; os1 = os\<lparr>os_forks := Suc n\<rparr>
      in case fork_error env n of
           Some e \<Rightarrow> (Inl e, os1)
         | None \<Rightarrow> (Inr n, os1\<lparr>os_children := os_children os @ [spec],
                               os_fs := child_fs env n spec (os_fs os)\<rparr>))"

text \<open>A child whose \<^verbatim>\<open>exec\<close> failed exits with 127.\<close>

definition exit_code :: "os_env \<Rightarrow> nat \<Rightarrow> wstatus \<Rightarrow> wstatus" where
  "exit_code env n st =
     (case st of Exited _ \<Rightarrow> if exec_ok env n then st else Exited 127 | Signaled _ \<Rightarrow> st)"

fun watch_events :: "os_env \<Rightarrow> nat \<Rightarrow> watch_event list \<Rightarrow> watch_event list" where
  "watch_events env n [] = []"
| "watch_events env n (Child_ends st # es) = Child_ends (exit_code env n st) # watch_events env n es"
| "watch_events env n (e # es) = e # watch_events env n es"

text \<open>The wait under the watchdog, and the plain \<^verbatim>\<open>waitpid\<close>.\<close>

definition wait_with_timeout :: "os_env \<Rightarrow> nat \<Rightarrow> int \<Rightarrow> (bool \<times> (string + wstatus)) outc" where
  "wait_with_timeout env n timeout_sec =
     (case watch_child timeout_sec (watch_events env n (child_events env n)) of
        None \<Rightarrow> Hangs
      | Some r \<Rightarrow> Returns r)"

definition waitpid :: "os_env \<Rightarrow> nat \<Rightarrow> string + wstatus" where
  "waitpid env n = map_sum id (exit_code env n) (child_wait env n)"

section \<open>Shell commands\<close>

text \<open>
  \<^verbatim>\<open>popen(cmd, "r")\<close>, reading to end of file, \<^verbatim>\<open>pclose\<close>: \<open>None\<close> when the pipe
  or the fork fails, else the output and whether the shell's status is 0.
\<close>

definition popen_read :: "os_env \<Rightarrow> string \<Rightarrow> os_state \<Rightarrow> (string \<times> bool) option \<times> os_state" where
  "popen_read env cmd os =
     (let n = os_forks os; os1 = os\<lparr>os_forks := Suc n\<rparr>
      in if \<not> pipe_ok env n \<or> fork_error env n \<noteq> None then (None, os1)
         else (Some (child_output env n, child_wait env n = Inr (Exited 0)),
               os1\<lparr>os_shell := os_shell os @ [cmd]\<rparr>))"

section \<open>Lemmas\<close>

lemma fork_child_error: "fst (fork_child env spec os) = Inl e \<Longrightarrow> os_fs (snd (fork_child env spec os)) = os_fs os"
  by (auto simp: fork_child_def Let_def split: option.splits)

lemma wait_with_timeout_result:
  assumes "wait_with_timeout env n timeout_sec = Returns (to, wp)"
  shows "watch_child timeout_sec (watch_events env n (child_events env n)) = Some (to, wp)"
  using assms by (simp add: wait_with_timeout_def split: option.splits)

text \<open>Without a timeout the status comes from a child that ended by itself.\<close>

lemma watch_child_status:
  assumes "watch_run n es s = Some s'" and "ws_wp s' = Some (Inr st)"
    and "ws_wp s \<noteq> Some (Inr st)" and "ws_child s \<noteq> Zombie st"
  shows "Child_ends st \<in> set es"
  using assms
proof (induction es arbitrary: s)
  case (Cons e es)
  then obtain s1 where step: "watch_step n e s = Some s1" and run: "watch_run n es s1 = Some s'"
    by (auto split: option.splits)
  show ?case
  proof (cases "e = Child_ends st")
    case False
    have "ws_wp s1 \<noteq> Some (Inr st) \<and> ws_child s1 \<noteq> Zombie st"
      using step Cons.prems(3,4) False
      by (cases e) (auto split: if_splits main_pc.splits child_state.splits watchdog_pc.splits)
    then show ?thesis using Cons.IH [OF run Cons.prems(2)] by simp
  qed simp
qed simp

lemma watch_events_ends: "Child_ends st \<in> set (watch_events env n es) \<Longrightarrow> \<exists>st'. st = exit_code env n st'"
  by (induction env n es rule: watch_events.induct) auto

lemma wait_status_exec:
  assumes "wait_with_timeout env n timeout_sec = Returns (to, Inr (Exited c))"
  shows "exec_ok env n \<or> c = 127"
proof -
  obtain s where "watch_run timeout_sec (watch_events env n (child_events env n)) watch_init = Some s"
      "ws_wp s = Some (Inr (Exited c))"
    using wait_with_timeout_result [OF assms]
    by (auto simp: watch_child_def split: option.splits if_splits)
  from watch_child_status [OF this] have "Child_ends (Exited c) \<in> set (watch_events env n (child_events env n))"
    by (simp add: watch_init_def)
  from watch_events_ends [OF this] obtain st where "Exited c = exit_code env n st" ..
  then show ?thesis by (cases st) (auto simp: exit_code_def split: if_splits)
qed

section \<open>An environment in which everything succeeds\<close>

definition sample_os_env :: os_env where
  "sample_os_env =
     \<lparr>mkdir_ok = (\<lambda>_. True), open_ok = (\<lambda>_. True), chmod_error = (\<lambda>_. None), pipe_ok = (\<lambda>_. True),
      fork_error = (\<lambda>_. None), exec_ok = (\<lambda>_. True), child_effect = (\<lambda>_ _ fs. fs),
      child_events = (\<lambda>_. [Child_ends (Exited 0), Waitpid_returns, Main_sets_done, Dog_wakes, Main_joins]),
      child_wait = (\<lambda>_. Inr (Exited 0)), child_output = (\<lambda>_. ''200''), wall_clock = int,
      exe_link = None, env_var = (\<lambda>_. None), canonical = (\<lambda>p. p), cwd = ''/''\<rparr>"

definition sample_os :: os_state where
  "sample_os = \<lparr>os_fs = Map.empty, os_forks = 0, os_children = [], os_shell = [], os_fds = 3, os_clock = 0\<rparr>"

end
