(* ===== verification/Messages.thy ===== *)
theory Messages
  imports Prelude Complex_Main
begin

text \<open>
  The protobuf messages of \<^verbatim>\<open>src/drop/common/proto\<close>, one record per message.  A
  scalar field is the C++ type protoc gives it (\<^verbatim>\<open>uint32\<close> is \<^typ>\<open>u32\<close>,
  \<^verbatim>\<open>uint64\<close> is \<^typ>\<open>u64\<close>, \<^verbatim>\<open>int32\<close> is \<^typ>\<open>u32\<close> read with
  \<^const>\<open>sint\<close>); a sub-message whose presence the code tests is an option; a
  \<^verbatim>\<open>double\<close> is a real number, so floating-point rounding is not modelled.  The
  constants \<open>default_\<dots>\<close> are the messages protobuf constructs when no field is set.
\<close>

section \<open>common.proto\<close>

record pid_stats =
  ps_name :: string
  ps_pid :: u32
  ps_utime :: u64
  ps_stime :: u64
  ps_rss :: u64
  ps_cpu_percent :: real
  ps_rss_mb :: u64
  ps_read_kbs :: u64
  ps_write_kbs :: u64

record file_attachment =
  file_name :: string
  file_content :: string

record cos_config =
  cos_region :: string
  cos_bucket :: string
  cos_tmp_ak :: string
  cos_tmp_sk :: string
  cos_tmp_token :: string
  cos_expire_ts :: int

record record_argv =
  argv_hz :: u32
  argv_duration :: u64
  argv_pid :: u32
  argv_callgraph :: string
  argv_subprocess :: bool
  argv_event :: string

definition default_cos_config :: cos_config where
  "default_cos_config = \<lparr>cos_region = [], cos_bucket = [], cos_tmp_ak = [], cos_tmp_sk = [], cos_tmp_token = [], cos_expire_ts = 0\<rparr>"

definition default_record_argv :: record_argv where
  "default_record_argv = \<lparr>argv_hz = 0, argv_duration = 0, argv_pid = 0, argv_callgraph = [], argv_subprocess = False, argv_event = []\<rparr>"

section \<open>hotmethod.proto\<close>

record task_desc =
  td_task_id :: string
  td_task_type :: u32
  td_profiler_type :: u32
  td_sample_argv :: record_argv
  td_container_name :: string
  td_container_type :: u32
  td_timeout_sec :: u32
  td_cos_config :: cos_config
  td_script_content :: string

definition default_task_desc :: task_desc where
  "default_task_desc =
     \<lparr>td_task_id = [], td_task_type = 0, td_profiler_type = 0, td_sample_argv = default_record_argv,
      td_container_name = [], td_container_type = 0, td_timeout_sec = 0,
      td_cos_config = default_cos_config, td_script_content = []\<rparr>"

record target =
  tg_sample_argv :: record_argv
  tg_profiler_type :: u32
  tg_task_id :: string

record task_result =
  tr_task_id :: string
  tr_error_message :: string
  tr_file :: file_attachment
  tr_cos_key :: string
  tr_self_pstats :: "pid_stats list"
  tr_children_pstats :: "pid_stats list"

definition default_task_result :: task_result where
  "default_task_result =
     \<lparr>tr_task_id = [], tr_error_message = [], tr_file = \<lparr>file_name = [], file_content = []\<rparr>,
      tr_cos_key = [], tr_self_pstats = [], tr_children_pstats = []\<rparr>"

section \<open>healthcheck.proto\<close>

record health_check_request =
  hcq_host_name :: string
  hcq_ip_addr :: string
  hcq_uid :: string
  hcq_agent_version :: string
  hcq_self_pstats :: "pid_stats option"
  hcq_children_pstats :: "pid_stats option"

datatype serving_status = UNKNOWN | SERVING | NOT_SERVING

record health_check_response =
  hcr_status :: serving_status
  hcr_pending :: bool
  hcr_task_desc :: "task_desc option"

definition default_health_check_response :: health_check_response where
  "default_health_check_response = \<lparr>hcr_status = UNKNOWN, hcr_pending = False, hcr_task_desc = None\<rparr>"

section \<open>control.proto\<close>

record create_task_request =
  ctq_target_ip :: string
  ctq_service :: string
  ctq_task_desc :: task_desc

record create_task_response =
  ctr_success :: bool
  ctr_message :: string

record fetch_data_request =
  fdq_task_id :: string

record fetch_data_response =
  fdr_success :: bool
  fdr_cos_key :: string
  fdr_error_message :: string

record stat_agent_request =
  saq_target_ip :: string

record agent_info =
  ai_host_name :: string
  ai_ip_addr :: string
  ai_online :: bool
  ai_uid :: string
  ai_agent_version :: string

record stat_agent_response =
  sar_agents :: "agent_info list"

section \<open>init.proto\<close>

record register_agent_request =
  raq_host_name :: string
  raq_ip_addr :: string
  raq_uid :: string
  raq_agent_version :: string

record register_agent_response =
  rar_success :: bool
  rar_message :: string
  rar_uid :: string

record fetch_config_request =
  fcq_uid :: string

record fetch_config_response =
  fcr_cos_config :: cos_config
  fcr_log_level :: string

end
