(* ===== verification/AgentStats.thy ===== *)
theory AgentStats
  imports OSModel Messages
begin

text \<open>
  The agent's self-monitoring in \<^verbatim>\<open>src/drop/agent/main.cpp\<close>:
  \<^verbatim>\<open>ReadSelfStat\<close>, \<^verbatim>\<open>ReadSelfIO\<close> and \<^verbatim>\<open>ComputePidStats\<close>.  Counters
  are 64-bit and wrap; a \<^verbatim>\<open>double\<close> is a real number.  \<^verbatim>\<open>std::stoull\<close> and
  \<^verbatim>\<open>substr\<close> may throw, and nothing catches it.
\<close>

record proc_stats =
  pr_utime :: u64
  pr_stime :: u64
  pr_rss_pages :: u64
  pr_read_bytes :: u64
  pr_write_bytes :: u64
  pr_cpu_percent :: real
  pr_rss_mb :: u64
  pr_read_kbs :: u64
  pr_write_kbs :: u64

definition zero_stats :: proc_stats where
  "zero_stats =
     \<lparr>pr_utime = 0, pr_stime = 0, pr_rss_pages = 0, pr_read_bytes = 0, pr_write_bytes = 0,
      pr_cpu_percent = 0, pr_rss_mb = 0, pr_read_kbs = 0, pr_write_kbs = 0\<rparr>"

section \<open>/proc/self/stat\<close>

definition stat_field :: "nat \<Rightarrow> string \<Rightarrow> proc_stats \<Rightarrow> proc_stats res" where
  "stat_field field tok out =
     (if field = 14 then bind_res (stoull tok) (\<lambda>v. Inr (out\<lparr>pr_utime := v\<rparr>))
      else if field = 15 then bind_res (stoull tok) (\<lambda>v. Inr (out\<lparr>pr_stime := v\<rparr>))
      else if field = 24 then bind_res (stoull tok) (\<lambda>v. Inr (out\<lparr>pr_rss_pages := v\<rparr>))
      else Inr out)"

text \<open>The loop over the fields; \<open>rest\<close> is what lies at and after \<^verbatim>\<open>pos\<close>.\<close>

function stat_loop :: "nat \<Rightarrow> string \<Rightarrow> proc_stats \<Rightarrow> proc_stats res" where
  "stat_loop field rest out =
     (if rest = [] then Inr out
      else
        (let tok = takeWhile (\<lambda>c. c \<noteq> CHR '' '') rest
         in bind_res (stat_field field tok out) (\<lambda>out1.
              if field + 1 > 24 then Inr out1
              else stat_loop (field + 1) (drop (Suc (length tok)) rest) out1)))"
  by pat_completeness auto
termination
  by (relation "measure (\<lambda>(field, rest, out). length rest)") auto

declare stat_loop.simps [simp del]

definition rss_in_mb :: "int \<Rightarrow> u64 \<Rightarrow> u64" where
  "rss_in_mb page_size pages = (pages * word_of_int page_size) div (1024 * 1024)"

definition first_line :: "string \<Rightarrow> string" where
  "first_line content = (case getlines (CHR 0x0A) content of [] \<Rightarrow> [] | l # _ \<Rightarrow> l)"

definition ReadSelfStat :: "int \<Rightarrow> os_state \<Rightarrow> proc_stats \<Rightarrow> (bool \<times> proc_stats) res" where
  "ReadSelfStat page_size os out =
     (case os_fs os ''/proc/self/stat'' of
        None \<Rightarrow> Inr (False, out)
      | Some content \<Rightarrow>
          (let line = first_line content
           in case rfind_char (CHR '')'') line of
                None \<Rightarrow> Inr (False, out)
              | Some comm_end \<Rightarrow>
                  bind_res (substr_from line (comm_end + 2)) (\<lambda>rest.
                  bind_res (stat_loop 3 rest out) (\<lambda>out1.
                  Inr (True, out1\<lparr>pr_rss_mb := rss_in_mb page_size (pr_rss_pages out1)\<rparr>)))))"

section \<open>/proc/self/io\<close>

fun io_loop :: "string list \<Rightarrow> proc_stats \<Rightarrow> proc_stats res" where
  "io_loop [] out = Inr out"
| "io_loop (line # lines) out =
     (if take 11 line = ''read_bytes:''
      then bind_res (stoull (drop 11 line)) (\<lambda>v. io_loop lines (out\<lparr>pr_read_bytes := v\<rparr>))
      else if take 12 line = ''write_bytes:''
      then bind_res (stoull (drop 12 line)) (\<lambda>v. io_loop lines (out\<lparr>pr_write_bytes := v\<rparr>))
      else io_loop lines out)"

definition ReadSelfIO :: "os_state \<Rightarrow> proc_stats \<Rightarrow> (bool \<times> proc_stats) res" where
  "ReadSelfIO os out =
     (case os_fs os ''/proc/self/io'' of
        None \<Rightarrow> Inr (False, out)
      | Some content \<Rightarrow> bind_res (io_loop (getlines (CHR 0x0A) content) out) (\<lambda>out1. Inr (True, out1)))"

section \<open>ComputePidStats\<close>

text \<open>
  The two function-local statics; \<^verbatim>\<open>prev_time\<close> is initialised by a clock reading on the
  first call.
\<close>

record stats_memory =
  sm_prev :: proc_stats
  sm_prev_time :: "real option"

definition fresh_memory :: stats_memory where
  "fresh_memory = \<lparr>sm_prev = zero_stats, sm_prev_time = None\<rparr>"

text \<open>\<^verbatim>\<open>static_cast<uint64_t>\<close> of a \<^verbatim>\<open>double\<close>; out of range it is undefined.\<close>

definition u64_of_double :: "real \<Rightarrow> u64 res" where
  "u64_of_double x = (if 0 \<le> x \<and> x < 2 ^ 64 then Inr (word_of_int \<lfloor>x\<rfloor>) else Inl Signed_overflow)"

definition elapsed_since :: "real \<Rightarrow> real \<Rightarrow> real" where
  "elapsed_since prev_time now = (if now - prev_time < 1 / 100 then 1 / 100 else now - prev_time)"

definition cpu_percent :: "int \<Rightarrow> real \<Rightarrow> proc_stats \<Rightarrow> proc_stats \<Rightarrow> real" where
  "cpu_percent clk_tck elapsed prev cur =
     real (unat ((pr_utime cur - pr_utime prev) + (pr_stime cur - pr_stime prev)))
       / (elapsed * real_of_int clk_tck) * 100"

definition rate_kbs :: "real \<Rightarrow> u64 \<Rightarrow> u64 \<Rightarrow> u64 res" where
  "rate_kbs elapsed prev cur = u64_of_double (real (unat (cur - prev)) / elapsed / 1024)"

text \<open>
  \<open>t0\<close> is the reading that initialises \<^verbatim>\<open>prev_time\<close>, used on the first call only, and
  \<open>now\<close> the reading after the files.
\<close>

definition ComputePidStats ::
  "int \<Rightarrow> int \<Rightarrow> int \<Rightarrow> real \<Rightarrow> real \<Rightarrow> os_state \<Rightarrow> stats_memory \<Rightarrow> (pid_stats \<times> stats_memory) res" where
  "ComputePidStats clk_tck page_size pid t0 now os mem =
     bind_res (ReadSelfStat page_size os zero_stats) (\<lambda>(_, cur0).
     bind_res (ReadSelfIO os cur0) (\<lambda>(_, cur1).
       (let prev = sm_prev mem;
            elapsed = elapsed_since (case sm_prev_time mem of None \<Rightarrow> t0 | Some t \<Rightarrow> t) now
        in bind_res (rate_kbs elapsed (pr_read_bytes prev) (pr_read_bytes cur1)) (\<lambda>rk.
           bind_res (rate_kbs elapsed (pr_write_bytes prev) (pr_write_bytes cur1)) (\<lambda>wk.
             (let cur = cur1\<lparr>pr_cpu_percent := cpu_percent clk_tck elapsed prev cur1,
                             pr_rss_mb := rss_in_mb page_size (pr_rss_pages cur1),
                             pr_read_kbs := rk, pr_write_kbs := wk\<rparr>
              in Inr (\<lparr>ps_name = ''drop_agent'', ps_pid = word_of_int pid, ps_utime = pr_utime cur,
                       ps_stime = pr_stime cur, ps_rss = pr_rss_pages cur, ps_cpu_percent = pr_cpu_percent cur,
                       ps_rss_mb = pr_rss_mb cur, ps_read_kbs = pr_read_kbs cur, ps_write_kbs = pr_write_kbs cur\<rparr>,
                      \<lparr>sm_prev = cur, sm_prev_time = Some now\<rparr>)))))))"

section \<open>Properties\<close>

text \<open>The fields as a sequence: what \<^verbatim>\<open>std::getline\<close> with a space would deliver.\<close>

fun stat_tokens :: "nat \<Rightarrow> string list \<Rightarrow> proc_stats \<Rightarrow> proc_stats res" where
  "stat_tokens field [] out = Inr out"
| "stat_tokens field (tok # toks) out =
     bind_res (stat_field field tok out) (\<lambda>out1. if field + 1 > 24 then Inr out1 else stat_tokens (field + 1) toks out1)"

lemma stat_loop_tokens: "stat_loop field rest out = stat_tokens field (getlines (CHR '' '') rest) out"
proof (induction field rest out rule: stat_loop.induct)
  case (1 field rest out)
  show ?case
  proof (cases "rest = []")
    case True
    then show ?thesis by (simp add: stat_loop.simps)
  next
    case False
    let ?tok = "takeWhile (\<lambda>c. c \<noteq> CHR '' '') rest"
    have g: "getlines (CHR '' '') rest = ?tok # getlines (CHR '' '') (drop (Suc (length ?tok)) rest)"
      using False by (subst getlines.simps) simp
    show ?thesis
    proof (cases "stat_field field ?tok out")
      case (Inl e)
      then show ?thesis using False by (subst stat_loop.simps) (simp add: g Let_def)
    next
      case (Inr out1)
      show ?thesis
      proof (cases "field + 1 > 24")
        case True
        then show ?thesis using False Inr by (subst stat_loop.simps) (simp add: g Let_def)
      next
        case F: False
        from "1.IH" [OF False refl F] have
          "stat_loop (field + 1) (drop (Suc (length ?tok)) rest) out1 =
             stat_tokens (field + 1) (getlines (CHR '' '') (drop (Suc (length ?tok)) rest)) out1" .
        then show ?thesis using False Inr F by (subst stat_loop.simps) (simp add: g Let_def)
      qed
    qed
  qed
qed

lemma stat_field_other: "field \<notin> {14, 15, 24} \<Longrightarrow> stat_field field tok out = Inr out"
  by (simp add: stat_field_def)

lemma stat_tokens_skip:
  "field + length toks \<le> 24 \<Longrightarrow> \<forall>i < length toks. field + i \<notin> {14, 15, 24} \<Longrightarrow>
   stat_tokens field (toks @ rest) out = stat_tokens (field + length toks) rest out"
proof (induction toks arbitrary: field)
  case (Cons tok toks)
  have "field \<notin> {14, 15, 24}" using Cons.prems(2) [rule_format, of 0] by simp
  moreover have "\<forall>i < length toks. Suc field + i \<notin> {14, 15, 24}"
    using Cons.prems(2) by (metis Suc_less_eq add_Suc_shift length_Cons)
  ultimately show ?case using Cons.IH [of "Suc field"] Cons.prems(1) by (simp add: stat_field_other)
qed simp

text \<open>Fields as the kernel prints them, separated by single spaces.\<close>

fun join_fields :: "string list \<Rightarrow> string" where
  "join_fields [] = []"
| "join_fields [f] = f"
| "join_fields (f # g # fs) = f @ CHR '' '' # join_fields (g # fs)"

lemma getlines_join:
  "\<forall>f \<in> set fs. f \<noteq> [] \<and> CHR '' '' \<notin> set f \<Longrightarrow> getlines (CHR '' '') (join_fields fs) = fs"
  by (induction fs rule: join_fields.induct) (simp_all add: getlines_line getlines_last)

lemma set_join: "set (join_fields fs) \<subseteq> insert (CHR '' '') (\<Union>f \<in> set fs. set f)"
  by (induction fs rule: join_fields.induct) auto

definition plain_field :: "string \<Rightarrow> bool" where
  "plain_field f \<longleftrightarrow> f \<noteq> [] \<and> CHR '' '' \<notin> set f \<and> CHR '')'' \<notin> set f \<and> CHR 0x0A \<notin> set f"

lemma plain_number: "plain_field (show_nat n)"
proof -
  have "CHR '')'' \<notin> set (show_nat n)" using show_nat_digits by (force simp: is_digit_def)
  then show ?thesis using show_nat_no_sep by (simp add: plain_field_def)
qed

definition stat_line :: "string \<Rightarrow> string \<Rightarrow> string list \<Rightarrow> string" where
  "stat_line pid comm flds = pid @ '' ('' @ comm @ '') '' @ join_fields flds"

lemma rest_of_stat_line:
  assumes "list_all plain_field flds"
  shows "\<exists>i. rfind_char (CHR '')'') (stat_line pid comm flds) = Some i
    \<and> substr_from (stat_line pid comm flds) (i + 2) = Inr (join_fields flds)"
proof -
  have "CHR '')'' \<notin> set (CHR '' '' # join_fields flds)"
    using assms set_join [of flds] by (auto simp: plain_field_def list_all_iff)
  moreover have "stat_line pid comm flds = (pid @ '' ('' @ comm) @ CHR '')'' # CHR '' '' # join_fields flds"
    by (simp add: stat_line_def)
  ultimately have "rfind_char (CHR '')'') (stat_line pid comm flds) = Some (length (pid @ '' ('' @ comm))"
    using rfind_char_append_sep [of "CHR '')''" "CHR '' '' # join_fields flds" "pid @ '' ('' @ comm"] by simp
  moreover have "stat_line pid comm flds = (pid @ '' ('' @ comm @ '') '') @ join_fields flds"
    by (simp add: stat_line_def)
  then have "substr_from (stat_line pid comm flds) (length (pid @ '' ('' @ comm) + 2) = Inr (join_fields flds)"
    by (simp add: substr_from_def del: append_assoc)
  ultimately show ?thesis by blast
qed

text \<open>
  Reading \<^verbatim>\<open>/proc/self/stat\<close>.  For a line of the documented form, with any command
  name in parentheses (blanks and closing parentheses included) and the following fields
  separated by blanks, \<^verbatim>\<open>ReadSelfStat\<close> stores fields 14, 15 and 24 as user time, system
  time and resident pages, whatever follows them.
\<close>

theorem self_stat_parse:
  assumes "os_fs os ''/proc/self/stat'' = Some (stat_line pid comm
      (pre @ [show_nat (unat ut), show_nat (unat st)] @ mid @ [show_nat (unat rss)] @ post) @ [CHR 0x0A])"
    and "CHR 0x0A \<notin> set (pid @ comm)" and "length pre = 11" and "length mid = 8"
    and "list_all plain_field (pre @ mid @ post)"
  shows "ReadSelfStat page_size os out = Inr (True, out\<lparr>pr_utime := ut, pr_stime := st, pr_rss_pages := rss,
      pr_rss_mb := rss_in_mb page_size rss\<rparr>)"
proof -
  let ?fs = "pre @ [show_nat (unat ut), show_nat (unat st)] @ mid @ [show_nat (unat rss)] @ post"
  let ?l = "stat_line pid comm ?fs"
  have plain: "list_all plain_field ?fs" using assms(5) plain_number by simp
  have "CHR 0x0A \<notin> set ?l"
    using plain assms(2) set_join [of ?fs] by (auto simp: stat_line_def plain_field_def list_all_iff)
  from getlines_line [OF this, of "[]"] have first: "first_line (?l @ [CHR 0x0A]) = ?l" by (simp add: first_line_def)
  obtain i where i: "rfind_char (CHR '')'') ?l = Some i" "substr_from ?l (i + 2) = Inr (join_fields ?fs)"
    using rest_of_stat_line [OF plain] by blast
  have "\<forall>f \<in> set ?fs. f \<noteq> [] \<and> CHR '' '' \<notin> set f" using plain by (simp add: plain_field_def list_all_iff)
  then have toks: "stat_loop 3 (join_fields ?fs) out = stat_tokens 3 ?fs out"
    by (simp only: stat_loop_tokens getlines_join)
  also have "\<dots> = stat_tokens 14 ([show_nat (unat ut), show_nat (unat st)] @ mid @ [show_nat (unat rss)] @ post) out"
    using stat_tokens_skip [of 3 pre] assms(3) by simp
  also have "\<dots> = stat_tokens 16 (mid @ [show_nat (unat rss)] @ post) (out\<lparr>pr_utime := ut, pr_stime := st\<rparr>)"
    by (simp add: stat_field_def stoull_show_word)
  also have "\<dots> = stat_tokens 24 ([show_nat (unat rss)] @ post) (out\<lparr>pr_utime := ut, pr_stime := st\<rparr>)"
    using stat_tokens_skip [of 16 mid] assms(4) by simp
  also have "\<dots> = Inr (out\<lparr>pr_utime := ut, pr_stime := st, pr_rss_pages := rss\<rparr>)"
    by (simp add: stat_field_def stoull_show_word)
  finally show ?thesis
    unfolding ReadSelfStat_def assms(1) option.case Let_def first i(1) i(2) bind_res.simps by simp
qed

theorem self_stat_parse_witness:
  "ReadSelfStat 4096 (sample_os\<lparr>os_fs := [''/proc/self/stat'' \<mapsto> stat_line ''7'' ''drop) agent''
       (replicate 11 ''0'' @ [show_nat (unat (5 :: u64)), show_nat (unat (6 :: u64))] @ replicate 8 ''0''
         @ [show_nat (unat (1024 :: u64))] @ [''0'']) @ [CHR 0x0A]]\<rparr>) zero_stats
     = Inr (True, zero_stats\<lparr>pr_utime := 5, pr_stime := 6, pr_rss_pages := 1024, pr_rss_mb := rss_in_mb 4096 1024\<rparr>)"
  by (rule self_stat_parse [where pre = "replicate 11 ''0''" and mid = "replicate 8 ''0''" and post = "[''0'']"
        and pid = "''7''" and comm = "''drop) agent''"])
    (simp_all add: plain_field_def list_all_iff)

lemma rate_range:
  assumes "1 / 100 \<le> elapsed"
  shows "rate_kbs elapsed prev cur = Inr (word_of_int \<lfloor>real (unat (cur - prev)) / elapsed / 1024\<rfloor>)"
proof -
  have "unat (cur - prev) < 2 ^ LENGTH(64)" by (rule unsigned_less)
  then obtain d where d: "unat (cur - prev) = d" "real d < 2 ^ 64" by simp
  have "real d / elapsed / 1024 \<le> real d / (1 / 100) / 1024"
    using assms by (intro divide_right_mono divide_left_mono) auto
  also have "\<dots> < 2 ^ 64" using d(2) by simp
  finally have "real d / elapsed / 1024 < 2 ^ 64" .
  moreover have "0 \<le> real d / elapsed / 1024" using assms by simp
  ultimately show ?thesis unfolding rate_kbs_def d(1) by (simp add: u64_of_double_def)
qed

lemma elapsed_positive: "1 / 100 \<le> elapsed_since t now"
  by (simp add: elapsed_since_def)

lemma cpu_nonneg: "0 < e \<Longrightarrow> 0 < clk_tck \<Longrightarrow> 0 \<le> cpu_percent clk_tck e prev cur"
  unfolding cpu_percent_def by (intro mult_nonneg_nonneg divide_nonneg_nonneg of_nat_0_le_iff) auto

text \<open>
  The conversions in \<^verbatim>\<open>ComputePidStats\<close> are defined.  Once both files have been read, the
  function returns on every clock reading (also one that did not advance or went back) and every
  pair of counter values: the read and write rates are the counter differences modulo \<open>2^64\<close>
  per second in KiB, rounded down, which always fit 64 bits, and the CPU share is not negative.
  The statics then hold the values just read.
\<close>

theorem pid_stats_defined:
  assumes "ReadSelfStat page_size os zero_stats = Inr (b, cur0)" and "ReadSelfIO os cur0 = Inr (b', cur)"
    and "0 < clk_tck"
  shows "\<exists>ps mem'. ComputePidStats clk_tck page_size pid t0 now os mem = Inr (ps, mem')
    \<and> (let e = elapsed_since (case sm_prev_time mem of None \<Rightarrow> t0 | Some t \<Rightarrow> t) now
       in ps_read_kbs ps = word_of_int \<lfloor>real (unat (pr_read_bytes cur - pr_read_bytes (sm_prev mem))) / e / 1024\<rfloor>
        \<and> ps_write_kbs ps = word_of_int \<lfloor>real (unat (pr_write_bytes cur - pr_write_bytes (sm_prev mem))) / e / 1024\<rfloor>
        \<and> 0 \<le> ps_cpu_percent ps)
    \<and> pr_utime (sm_prev mem') = pr_utime cur \<and> pr_read_bytes (sm_prev mem') = pr_read_bytes cur
    \<and> sm_prev_time mem' = Some now"
proof -
  let ?e = "elapsed_since (case sm_prev_time mem of None \<Rightarrow> t0 | Some t \<Rightarrow> t) now"
  have "0 < ?e" using elapsed_positive [of "case sm_prev_time mem of None \<Rightarrow> t0 | Some t \<Rightarrow> t" now] by linarith
  then have "0 \<le> cpu_percent clk_tck ?e (sm_prev mem) cur"
    using assms(3) by (rule cpu_nonneg)
  then show ?thesis
    using assms by (simp add: ComputePidStats_def Let_def rate_range [OF elapsed_positive])
qed

theorem pid_stats_defined_witness:
  "\<exists>ps mem'. ComputePidStats 100 4096 7 0 5 sample_os fresh_memory = Inr (ps, mem') \<and> 0 \<le> ps_cpu_percent ps"
proof -
  have "ReadSelfStat 4096 sample_os zero_stats = Inr (False, zero_stats)" "ReadSelfIO sample_os zero_stats = Inr (False, zero_stats)"
    by (simp_all add: ReadSelfStat_def ReadSelfIO_def sample_os_def)
  from pid_stats_defined [OF this, of 100 7 0 5 fresh_memory] show ?thesis unfolding Let_def by force
qed

text \<open>
  The first sample of a process: the differences run from 0 and the time from the start of the
  call, so the CPU share is the whole time used so far over a hundredth of a second.
\<close>

lemma first_sample_inflated:
  assumes "ReadSelfStat page_size os zero_stats = Inr (b, cur0)" and "ReadSelfIO os cur0 = Inr (b', cur)"
    and "now - t0 < 1 / 100"
  shows "\<exists>ps mem'. ComputePidStats clk_tck page_size pid t0 now os fresh_memory = Inr (ps, mem')
    \<and> ps_cpu_percent ps = real (unat (pr_utime cur + pr_stime cur)) * 10000 / real_of_int clk_tck"
  using assms
  by (simp add: ComputePidStats_def Let_def rate_range fresh_memory_def zero_stats_def elapsed_since_def cpu_percent_def)

end
