(* ===== verification/Symbols.thy ===== *)
theory Symbols
  imports OSModel "HOL-Library.List_Lexorder" "HOL-Library.Char_ord"
begin

text \<open>
  Symbol resolution of \<^verbatim>\<open>src/drop/common/src/ebpf_loader.cpp\<close>: the kernel symbol table,
  the executable mappings of a process with their cache, and the batched \<^verbatim>\<open>addr2line\<close>
  calls.  A \<^verbatim>\<open>std::map\<close> is its sequence of entries in key order.
\<close>

section \<open>Ordered maps and hexadecimal numbers\<close>

fun omap_upd :: "('k :: linorder) \<Rightarrow> ('v option \<Rightarrow> 'v) \<Rightarrow> ('k \<times> 'v) list \<Rightarrow> ('k \<times> 'v) list" where
  "omap_upd k f [] = [(k, f None)]"
| "omap_upd k f ((k', v) # m) =
     (if k < k' then (k, f None) # (k', v) # m
      else if k = k' then (k', f (Some v)) # m
      else (k', v) # omap_upd k f m)"

definition hex_val :: "char \<Rightarrow> nat" where
  "hex_val c =
     (let n = of_char c in if n \<le> 57 then n - 48 else if n \<le> 70 then n - 55 else n - 87)"

definition is_hex :: "char \<Rightarrow> bool" where
  "is_hex c \<longleftrightarrow> is_digit c \<or> (97 \<le> (of_char c :: nat) \<and> (of_char c :: nat) \<le> 102)
     \<or> (65 \<le> (of_char c :: nat) \<and> (of_char c :: nat) \<le> 70)"

definition hex_digit :: "nat \<Rightarrow> char" where
  "hex_digit d = (if d < 10 then char_of (48 + d) else char_of (87 + d))"

text \<open>\<^verbatim>\<open>%lx\<close> in \<^verbatim>\<open>snprintf\<close>.\<close>

function show_hex :: "nat \<Rightarrow> string" where
  "show_hex n = (if n < 16 then [hex_digit n] else show_hex (n div 16) @ [hex_digit (n mod 16)])"
  by pat_completeness auto
termination
  by (relation "measure id") auto

declare show_hex.simps [simp del]

definition hex_number :: "string \<Rightarrow> nat" where
  "hex_number ds = foldl (\<lambda>n c. n * 16 + hex_val c) 0 ds"

text \<open>
  A hexadecimal number at the start of the input, after white space, a sign and an optional
  \<^verbatim>\<open>0x\<close>: the value, whether it is negated, and the rest; \<open>None\<close> when no digit follows.
\<close>

definition scan_hex :: "string \<Rightarrow> ((bool \<times> nat) \<times> string) option" where
  "scan_hex s =
     (let (neg, t) = split_sign (dropWhile is_space s);
          u = (case t of
                 CHR ''0'' # x # d # rest \<Rightarrow> if (x = CHR ''x'' \<or> x = CHR ''X'') \<and> is_hex d then d # rest else t
               | _ \<Rightarrow> t);
          ds = takeWhile is_hex u
      in if ds = [] then None else Some ((neg, hex_number ds), dropWhile is_hex u))"

definition u64_of_scan :: "bool \<times> nat \<Rightarrow> u64" where
  "u64_of_scan p = (if fst p then - of_nat (snd p) else of_nat (snd p))"

section \<open>Kernel symbols\<close>

type_synonym ksyms = "(u64 \<times> string) list"

text \<open>\<^verbatim>\<open>iss >> std::hex >> addr >> type >> name\<close>; a number that does not fit fails the stream.\<close>

definition parse_kallsyms_line :: "string \<Rightarrow> (u64 \<times> string) option" where
  "parse_kallsyms_line line =
     (case scan_hex line of
        None \<Rightarrow> None
      | Some (p, r1) \<Rightarrow>
          if snd p \<ge> 2 ^ 64 then None
          else (case dropWhile is_space r1 of
                  [] \<Rightarrow> None
                | _ # r2 \<Rightarrow>
                    (let name = takeWhile (\<lambda>c. \<not> is_space c) (dropWhile is_space r2)
                     in if name = [] then None else Some (u64_of_scan p, name))))"

fun kallsyms_loop :: "string list \<Rightarrow> ksyms \<Rightarrow> ksyms" where
  "kallsyms_loop [] syms = syms"
| "kallsyms_loop (l # ls) syms =
     (case parse_kallsyms_line l of
        None \<Rightarrow> kallsyms_loop ls syms
      | Some (addr, name) \<Rightarrow> kallsyms_loop ls (omap_upd addr (\<lambda>_. name) syms))"

definition ReadKallsyms :: "os_state \<Rightarrow> ksyms" where
  "ReadKallsyms os =
     (case os_fs os ''/proc/kallsyms'' of
        None \<Rightarrow> []
      | Some content \<Rightarrow> kallsyms_loop (getlines (CHR 0x0A) content) [])"

text \<open>\<^verbatim>\<open>upper_bound(addr)\<close>, then one back: the last entry whose key is at most the address.\<close>

definition ResolveKsym :: "ksyms \<Rightarrow> u64 \<Rightarrow> string" where
  "ResolveKsym syms addr =
     (let before = takeWhile (\<lambda>e. fst e \<le> addr) syms
      in if before = [] then ''[unknown]'' else snd (last before))"

section \<open>User mappings\<close>

record user_sym =
  us_start :: u64
  us_end :: u64
  us_offset :: u64
  us_path :: string

text \<open>
  \<^verbatim>\<open>sscanf(line, "%lx-%lx %4s %lx \<dots>")\<close> into zeroed variables: conversion stops at the
  first mismatch and leaves the rest as they are.  \<^verbatim>\<open>strtoul\<close> saturates.
\<close>

definition ulong_of_scan :: "bool \<times> nat \<Rightarrow> u64" where
  "ulong_of_scan p = (if snd p \<ge> 2 ^ 64 then - 1 else u64_of_scan p)"

definition sscanf_maps :: "string \<Rightarrow> u64 \<times> u64 \<times> string \<times> u64" where
  "sscanf_maps line =
     (case scan_hex line of
        None \<Rightarrow> (0, 0, [], 0)
      | Some (st, r1) \<Rightarrow>
          (case r1 of
             CHR ''-'' # r2 \<Rightarrow>
               (case scan_hex r2 of
                  None \<Rightarrow> (ulong_of_scan st, 0, [], 0)
                | Some (en, r3) \<Rightarrow>
                    (let r4 = dropWhile is_space r3;
                         perms = take 4 (takeWhile (\<lambda>c. \<not> is_space c) r4)
                     in if perms = [] then (ulong_of_scan st, ulong_of_scan en, [], 0)
                        else (case scan_hex (drop (length perms) r4) of
                                None \<Rightarrow> (ulong_of_scan st, ulong_of_scan en, perms, 0)
                              | Some (off, _) \<Rightarrow>
                                  (ulong_of_scan st, ulong_of_scan en, perms, ulong_of_scan off))))
           | _ \<Rightarrow> (ulong_of_scan st, 0, [], 0)))"

text \<open>\<^verbatim>\<open>perms\<close> is a zeroed buffer, so a missing character is 0.\<close>

definition perm_at :: "string \<Rightarrow> nat \<Rightarrow> char" where
  "perm_at perms i = (if i < length perms then perms ! i else CHR 0x00)"

definition parse_maps_line :: "string \<Rightarrow> user_sym option" where
  "parse_maps_line line =
     (case find_char (CHR ''/'') line of
        None \<Rightarrow> None
      | Some idx \<Rightarrow>
          (let (st, en, perms, off) = sscanf_maps line;
               path = strip_back (\<lambda>c. c = CHR 0x0A \<or> c = CHR 0x0D) (drop idx line)
           in if perm_at perms 0 \<noteq> CHR ''r'' \<or> perm_at perms 2 \<noteq> CHR ''x'' then None
              else Some \<lparr>us_start = st, us_end = en, us_offset = off, us_path = path\<rparr>))"

definition maps_path :: "u32 \<Rightarrow> path" where
  "maps_path pid = ''/proc/'' @ show_nat (unat pid) @ ''/maps''"

definition parse_maps :: "string \<Rightarrow> user_sym list" where
  "parse_maps content = List.map_filter parse_maps_line (getlines (CHR 0x0A) content)"

definition kMaxUserMapsCache :: nat where
  "kMaxUserMapsCache = 256"

record maps_cache =
  user_maps_cache :: "(u32 \<times> user_sym list) list"
  user_maps_lru :: "u32 list"

definition empty_cache :: maps_cache where
  "empty_cache = \<lparr>user_maps_cache = [], user_maps_lru = []\<rparr>"

text \<open>The second critical section of \<^verbatim>\<open>ReadUserMaps\<close>.\<close>

definition cache_store :: "u32 \<Rightarrow> user_sym list \<Rightarrow> maps_cache \<Rightarrow> maps_cache" where
  "cache_store pid result c =
     (let c1 = (if length (user_maps_cache c) \<ge> kMaxUserMapsCache \<and> user_maps_lru c \<noteq> []
                then \<lparr>user_maps_cache = filter (\<lambda>e. fst e \<noteq> hd (user_maps_lru c)) (user_maps_cache c),
                      user_maps_lru = tl (user_maps_lru c)\<rparr>
                else c)
      in \<lparr>user_maps_cache = omap_upd pid (\<lambda>_. result) (user_maps_cache c1),
          user_maps_lru = user_maps_lru c1 @ [pid]\<rparr>)"

definition ReadUserMaps :: "os_state \<Rightarrow> u32 \<Rightarrow> maps_cache \<Rightarrow> user_sym list \<times> maps_cache" where
  "ReadUserMaps os pid c =
     (case map_of (user_maps_cache c) pid of
        Some ms \<Rightarrow> (ms, c)
      | None \<Rightarrow>
          (case os_fs os (maps_path pid) of
             None \<Rightarrow> ([], c)
           | Some content \<Rightarrow> (let result = parse_maps content in (result, cache_store pid result c))))"

section \<open>addr2line\<close>

text \<open>The pieces \<^verbatim>\<open>fgets\<close> delivers with a buffer of \<open>n + 1\<close> bytes.\<close>

function fgets_pieces :: "nat \<Rightarrow> string \<Rightarrow> string list" where
  "fgets_pieces n s =
     (if s = [] then []
      else (let l = length (takeWhile (\<lambda>c. c \<noteq> CHR 0x0A) s); k = min (Suc l) (Suc n)
            in take k s # fgets_pieces n (drop k s)))"
  by pat_completeness auto
termination
  by (relation "measure (\<lambda>(n, s). length s)") (auto simp: Let_def)

declare fgets_pieces.simps [simp del]

definition basename :: "path \<Rightarrow> string" where
  "basename p = after_last (CHR ''/'') p"

text \<open>\<^verbatim>\<open>snprintf(buf, 128, "%s+0x%lx", \<dots>)\<close>.\<close>

definition offset_name :: "path \<Rightarrow> u64 \<Rightarrow> string" where
  "offset_name p off = take 127 (basename p @ ''+0x'' @ show_hex (unat off))"

definition addr2line_cmd :: "path \<Rightarrow> u64 list \<Rightarrow> string" where
  "addr2line_cmd p offs =
     ''addr2line -e '' @ p @ '' -f'' @ concat (map (\<lambda>off. '' 0x'' @ show_hex (unat off)) offs) @ '' 2>/dev/null''"

type_synonym resolved = "string \<times> u64 \<Rightarrow> string option"

definition batch_name :: "path \<Rightarrow> u64 \<Rightarrow> string list \<Rightarrow> string" where
  "batch_name p off pieces =
     (let func = (case pieces of
                    [] \<Rightarrow> []
                  | l # _ \<Rightarrow> strip_back (\<lambda>c. c = CHR 0x0A \<or> c = CHR 0x0D) l)
      in if func \<noteq> [] \<and> func \<noteq> ''??'' \<and> func \<noteq> ''?'' then func else offset_name p off)"

text \<open>Two pieces are consumed per address: the function name and the source position.\<close>

fun name_batch :: "path \<Rightarrow> u64 list \<Rightarrow> string list \<Rightarrow> resolved \<Rightarrow> resolved" where
  "name_batch p [] pieces res = res"
| "name_batch p (off # offs) pieces res =
     name_batch p offs (drop 2 pieces) (res((p, off) \<mapsto> batch_name p off pieces))"

function resolve_path ::
  "os_env \<Rightarrow> path \<Rightarrow> u64 list \<Rightarrow> resolved \<Rightarrow> os_state \<Rightarrow> resolved \<times> os_state" where
  "resolve_path env p offs res os =
     (if offs = [] then (res, os)
      else
        (let batch = take 512 offs;
             (out, os1) = popen_read env (addr2line_cmd p batch) os;
             res1 = (case out of
                       None \<Rightarrow> fold (\<lambda>off r. r((p, off) \<mapsto> offset_name p off)) batch res
                     | Some (text, _) \<Rightarrow> name_batch p batch (fgets_pieces 511 text) res)
         in resolve_path env p (drop 512 offs) res1 os1))"
  by pat_completeness auto
termination
  by (relation "measure (\<lambda>(env, p, offs, res, os). length offs)") auto

declare resolve_path.simps [simp del]

definition group_by_path :: "(string \<times> u64) list \<Rightarrow> (string \<times> u64 list) list" where
  "group_by_path to_resolve =
     fold (\<lambda>(p, off) m. omap_upd p (\<lambda>old. (case old of None \<Rightarrow> [] | Some v \<Rightarrow> v) @ [off]) m) to_resolve []"

definition BatchResolveUserSymbols ::
  "os_env \<Rightarrow> (string \<times> u64) list \<Rightarrow> os_state \<Rightarrow> resolved \<times> os_state" where
  "BatchResolveUserSymbols env to_resolve os =
     fold (\<lambda>(p, offs) (res, os). resolve_path env p offs res os) (group_by_path to_resolve) (Map.empty, os)"

text \<open>The mapping an address falls into.\<close>

definition find_mapping :: "user_sym list \<Rightarrow> u64 \<Rightarrow> user_sym option" where
  "find_mapping maps addr = List.find (\<lambda>m. us_start m \<le> addr \<and> addr < us_end m) maps"

definition file_offset :: "user_sym \<Rightarrow> u64 \<Rightarrow> u64" where
  "file_offset m addr = addr - us_start m + us_offset m"

definition ResolveUserFrame ::
  "os_state \<Rightarrow> u32 \<Rightarrow> u64 \<Rightarrow> resolved \<Rightarrow> maps_cache \<Rightarrow> string \<times> maps_cache" where
  "ResolveUserFrame os pid addr res c =
     (let (maps, c1) = ReadUserMaps os pid c
      in (case find_mapping maps addr of
            Some m \<Rightarrow>
              (case res (us_path m, file_offset m addr) of
                 Some s \<Rightarrow> s
               | None \<Rightarrow> offset_name (us_path m) (file_offset m addr))
          | None \<Rightarrow> take 63 (''[unknown]:0x'' @ show_hex (unat addr)), c1))"

end
