(* ===== verification/SymbolsProofs.thy ===== *)
theory SymbolsProofs
  imports Symbols
begin

text \<open>
  What symbol resolution guarantees: kernel addresses get the nearest symbol below them, every
  user address that was collected gets a name whatever \<^verbatim>\<open>addr2line\<close> does, and the cache
  of mappings stays within its bound.
\<close>

section \<open>Ordered maps\<close>

definition omap_wf :: "('k :: linorder \<times> 'v) list \<Rightarrow> bool" where
  "omap_wf m \<longleftrightarrow> sorted_wrt (<) (map fst m)"

lemma omap_wf_Nil [simp]: "omap_wf []"
  by (simp add: omap_wf_def)

lemma omap_wf_Cons: "omap_wf ((k, v) # m) \<longleftrightarrow> (\<forall>k' \<in> fst ` set m. k < k') \<and> omap_wf m"
  by (auto simp: omap_wf_def)

lemma keys_omap_upd: "fst ` set (omap_upd k f m) = insert k (fst ` set m)"
  by (induction k f m rule: omap_upd.induct) (simp_all add: insert_commute)

lemma omap_wf_upd: "omap_wf m \<Longrightarrow> omap_wf (omap_upd k f m)"
proof (induction k f m rule: omap_upd.induct)
  case (2 k f k' v m)
  consider "k < k'" | "k = k'" | "k' < k" by (rule linorder_cases)
  then show ?case
  proof cases
    case 1
    then show ?thesis using "2.prems" by (auto simp: omap_wf_Cons intro: less_trans)
  next
    case 3
    then have "omap_upd k f ((k', v) # m) = (k', v) # omap_upd k f m" by (auto dest: less_asym)
    moreover have "omap_wf (omap_upd k f m)" using 3 "2.IH" "2.prems" by (auto simp: omap_wf_Cons dest: less_asym)
    ultimately show ?thesis using 3 "2.prems" by (simp add: omap_wf_Cons keys_omap_upd)
  qed (use "2.prems" in \<open>simp add: omap_wf_Cons\<close>)
qed (simp add: omap_wf_Cons)

lemma map_of_omap_upd: "omap_wf m \<Longrightarrow> map_of (omap_upd k f m) = (map_of m)(k \<mapsto> f (map_of m k))"
proof (induction k f m rule: omap_upd.induct)
  case (2 k f k' v m)
  consider "k < k'" | "k = k'" | "k' < k" by (rule linorder_cases)
  then show ?case
  proof cases
    case 1
    then have "k \<notin> fst ` set m" using "2.prems" by (auto simp: omap_wf_Cons dest: less_trans)
    then have "map_of m k = None" by (simp add: map_of_eq_None_iff)
    then show ?thesis using 1 by auto
  next
    case 3
    then have eq: "omap_upd k f ((k', v) # m) = (k', v) # omap_upd k f m" and ne: "k \<noteq> k'"
      by (auto dest: less_asym)
    have "map_of (omap_upd k f m) = (map_of m)(k \<mapsto> f (map_of m k))"
      using 3 "2.IH" "2.prems" by (auto simp: omap_wf_Cons dest: less_asym)
    then show ?thesis using ne unfolding eq by (auto simp: fun_eq_iff)
  qed auto
qed simp

lemma omap_wf_distinct: "omap_wf m \<Longrightarrow> distinct (map fst m)"
  by (simp add: omap_wf_def strict_sorted_iff)

lemma length_omap_upd:
  "omap_wf m \<Longrightarrow> length (omap_upd k f m) = (if k \<in> fst ` set m then length m else Suc (length m))"
  using keys_omap_upd [of k f m] omap_wf_distinct [of m] omap_wf_distinct [OF omap_wf_upd, of m k f]
  by (metis card_insert_if distinct_card finite_set length_map set_map)

section \<open>Kernel symbols\<close>

lemma kallsyms_loop_wf: "omap_wf syms \<Longrightarrow> omap_wf (kallsyms_loop ls syms)"
  by (induction ls arbitrary: syms) (auto simp: omap_wf_upd split: option.splits)

lemma ReadKallsyms_wf: "omap_wf (ReadKallsyms os)"
  by (simp add: ReadKallsyms_def kallsyms_loop_wf split: option.split)

lemma sorted_takeWhile:
  assumes "omap_wf m"
  shows "takeWhile (\<lambda>e. fst e \<le> a) m = filter (\<lambda>e. fst e \<le> a) m"
  using assms
proof (induction m)
  case (Cons e m)
  obtain k v where e: "e = (k, v)" by (cases e)
  have "filter (\<lambda>e. fst e \<le> a) m = []" if "\<not> k \<le> a"
    using Cons.prems that by (force simp: e omap_wf_Cons filter_empty_conv)
  then show ?case using Cons by (auto simp: e omap_wf_Cons)
qed simp

lemma last_is_greatest:
  assumes "omap_wf m" and "m \<noteq> []"
  shows "\<forall>k \<in> fst ` set m. k \<le> fst (last m)"
  using assms
proof (induction m)
  case (Cons e m)
  obtain k v where e: "e = (k, v)" by (cases e)
  show ?case
  proof (cases "m = []")
    case False
    then have "k < fst (last m)" using Cons.prems last_in_set [OF False] by (auto simp: e omap_wf_Cons)
    moreover have "\<forall>k \<in> fst ` set m. k \<le> fst (last m)" using False Cons by (auto simp: e omap_wf_Cons)
    ultimately show ?thesis using False by (simp add: e less_imp_le)
  qed simp
qed simp

lemma omap_wf_filter: "omap_wf m \<Longrightarrow> omap_wf (filter P m)"
proof (induction m)
  case (Cons e m)
  then show ?case by (cases e) (auto simp: omap_wf_Cons)
qed simp

text \<open>
  C40. Kernel addresses resolve to the nearest symbol.  With the table read from
  \<^verbatim>\<open>/proc/kallsyms\<close>, an address gets the name of the greatest symbol address not above
  it, and the unknown marker exactly when every symbol lies above it.
\<close>

theorem ksym_nearest:
  "(\<exists>a n. map_of (ReadKallsyms os) a = Some n \<and> a \<le> addr
       \<and> (\<forall>b \<in> dom (map_of (ReadKallsyms os)). b \<le> addr \<longrightarrow> b \<le> a)
       \<and> ResolveKsym (ReadKallsyms os) addr = n)
   \<or> ((\<forall>b \<in> dom (map_of (ReadKallsyms os)). addr < b) \<and> ResolveKsym (ReadKallsyms os) addr = ''[unknown]'')"
proof -
  let ?m = "ReadKallsyms os"
  let ?f = "filter (\<lambda>e. fst e \<le> addr) ?m"
  have wf: "omap_wf ?m" by (rule ReadKallsyms_wf)
  have tw: "takeWhile (\<lambda>e. fst e \<le> addr) ?m = ?f" by (rule sorted_takeWhile [OF wf])
  show ?thesis
  proof (cases "?f = []")
    case True
    then have "\<forall>b \<in> dom (map_of ?m). addr < b"
      by (auto simp: dom_map_of_conv_image_fst filter_empty_conv not_le)
    then show ?thesis using True by (simp add: ResolveKsym_def tw)
  next
    case False
    obtain a n where l: "last ?f = (a, n)" by (cases "last ?f")
    have mem: "(a, n) \<in> set ?f" using last_in_set [OF False] l by simp
    then have "map_of ?m a = Some n" "a \<le> addr"
      using omap_wf_distinct [OF wf] by (auto intro: map_of_is_SomeI)
    moreover have "b \<le> a" if b: "b \<in> dom (map_of ?m)" "b \<le> addr" for b
    proof -
      obtain v where "(b, v) \<in> set ?f" using b by (auto dest: map_of_SomeD)
      then have "b \<in> fst ` set ?f" by force
      then show ?thesis using last_is_greatest [OF omap_wf_filter [OF wf] False] l by auto
    qed
    ultimately show ?thesis using False l by (auto simp: ResolveKsym_def tw)
  qed
qed

theorem ksym_nearest_witness:
  "ResolveKsym (ReadKallsyms (sample_os\<lparr>os_fs := [''/proc/kallsyms'' \<mapsto>
      ''1000 T alpha'' @ [CHR 0x0A] @ ''2000 T beta'' @ [CHR 0x0A]]\<rparr>)) 8193 = ''beta''"
proof -
  let ?os = "sample_os\<lparr>os_fs := [''/proc/kallsyms'' \<mapsto>
      ''1000 T alpha'' @ [CHR 0x0A] @ ''2000 T beta'' @ [CHR 0x0A]]\<rparr>"
  have "getlines (CHR 0x0A) (''1000 T alpha'' @ [CHR 0x0A] @ ''2000 T beta'' @ [CHR 0x0A])
      = [''1000 T alpha'', ''2000 T beta'']"
    by code_simp
  moreover have "parse_kallsyms_line ''1000 T alpha'' = Some (4096, ''alpha'')"
    "parse_kallsyms_line ''2000 T beta'' = Some (8192, ''beta'')"
    by (simp_all add: parse_kallsyms_line_def scan_hex_def split_sign_def is_space_def is_hex_def
        is_digit_def hex_number_def hex_val_def u64_of_scan_def Let_def)
  ultimately have syms: "ReadKallsyms ?os = [(4096, ''alpha''), (8192, ''beta'')]"
    by (simp add: ReadKallsyms_def)
  show ?thesis using ksym_nearest [of ?os 8193] unfolding syms by (auto split: if_splits)
qed

text \<open>
  Without the privilege to see addresses the kernel prints zeros: the table then has one entry
  and every address gets that name.
\<close>

lemma kallsyms_loop_zero:
  assumes "\<forall>l \<in> set ls. \<forall>p. parse_kallsyms_line l = Some p \<longrightarrow> fst p = 0"
    and "fst ` set syms \<subseteq> {0}" and "omap_wf syms"
  shows "fst ` set (kallsyms_loop ls syms) \<subseteq> {0}"
  using assms
proof (induction ls arbitrary: syms)
  case (Cons l ls)
  show ?case
  proof (cases "parse_kallsyms_line l")
    case None
    then show ?thesis using Cons by simp
  next
    case (Some p)
    then have "fst p = 0" using Cons.prems(1) by (cases p) auto
    then have "fst ` set (omap_upd (fst p) (\<lambda>_. snd p) syms) \<subseteq> {0}"
      using Cons.prems(2) by (simp add: keys_omap_upd)
    moreover have "omap_wf (omap_upd (fst p) (\<lambda>_. snd p) syms)" using Cons.prems(3) by (rule omap_wf_upd)
    ultimately have "fst ` set (kallsyms_loop ls (omap_upd (fst p) (\<lambda>_. snd p) syms)) \<subseteq> {0}"
      using Cons.prems(1) by (intro Cons.IH) simp_all
    then show ?thesis using Some by (simp add: split_beta)
  qed
qed simp

lemma zeroed_kallsyms_collapse:
  assumes "os_fs os ''/proc/kallsyms'' = Some content"
    and "\<forall>l \<in> set (getlines (CHR 0x0A) content). \<forall>p. parse_kallsyms_line l = Some p \<longrightarrow> fst p = 0"
  shows "ResolveKsym (ReadKallsyms os) addr = ResolveKsym (ReadKallsyms os) addr'"
proof -
  have "\<forall>e \<in> set (ReadKallsyms os). fst e = 0"
    using kallsyms_loop_zero [OF assms(2), of "[]"] by (auto simp: ReadKallsyms_def assms(1))
  then have all: "takeWhile (\<lambda>e. fst e \<le> a) (ReadKallsyms os) = ReadKallsyms os" for a
    by (simp add: takeWhile_eq_all_conv)
  show ?thesis unfolding ResolveKsym_def all ..
qed

section \<open>addr2line\<close>

lemma show_hex_not_Nil [simp]: "show_hex n \<noteq> []"
  by (subst show_hex.simps) simp

lemma offset_name_not_Nil [simp]: "offset_name p off \<noteq> []"
  by (simp add: offset_name_def)

definition named :: "resolved \<Rightarrow> (string \<times> u64) set \<Rightarrow> bool" where
  "named res ps \<longleftrightarrow> (\<forall>p \<in> ps. \<exists>s. res p = Some s \<and> s \<noteq> [])"

lemma named_empty [simp]: "named res {}"
  by (simp add: named_def)

lemma named_upd: "named res ps \<Longrightarrow> s \<noteq> [] \<Longrightarrow> named (res(q \<mapsto> s)) (insert q ps)"
  by (auto simp: named_def)

lemma named_subset: "named res ps \<Longrightarrow> qs \<subseteq> ps \<Longrightarrow> named res qs"
  by (auto simp: named_def)

lemma named_name_batch: "named res ps \<Longrightarrow> named (name_batch p offs pieces res) (ps \<union> Pair p ` set offs)"
proof (induction p offs pieces res arbitrary: ps rule: name_batch.induct)
  case (2 p off offs pieces res)
  have "named (res((p, off) \<mapsto> batch_name p off pieces)) (insert (p, off) ps)"
    by (rule named_upd [OF "2.prems"]) (simp add: batch_name_def Let_def)
  from "2.IH" [OF this] show ?case unfolding name_batch.simps by (rule named_subset) auto
qed simp

lemma named_fallback:
  "named res ps \<Longrightarrow> named (fold (\<lambda>off r. r((p, off) \<mapsto> offset_name p off)) offs res) (ps \<union> Pair p ` set offs)"
proof (induction offs arbitrary: res ps)
  case (Cons off offs)
  from Cons.IH [OF named_upd [OF Cons.prems offset_name_not_Nil]] show ?case by simp
qed simp

lemma named_resolve_path:
  "named res ps \<Longrightarrow> named (fst (resolve_path env p offs res os)) (ps \<union> Pair p ` set offs)"
proof (induction env p offs res os arbitrary: ps rule: resolve_path.induct)
  case (1 env p offs res os)
  show ?case
  proof (cases "offs = []")
    case True
    then show ?thesis using "1.prems" by (simp add: resolve_path.simps)
  next
    case False
    let ?batch = "take 512 offs"
    obtain out os1 where po: "popen_read env (addr2line_cmd p ?batch) os = (out, os1)" by force
    let ?res = "case out of None \<Rightarrow> fold (\<lambda>off r. r((p, off) \<mapsto> offset_name p off)) ?batch res
                | Some (text, _) \<Rightarrow> name_batch p ?batch (fgets_pieces 511 text) res"
    have n: "named ?res (ps \<union> Pair p ` set ?batch)"
      using named_fallback [OF "1.prems"] named_name_batch [OF "1.prems"] by (auto split: option.split)
    have "named (fst (resolve_path env p (drop 512 offs) ?res os1))
        ((ps \<union> Pair p ` set ?batch) \<union> Pair p ` set (drop 512 offs))"
      using "1.IH" [OF False refl po [symmetric] refl refl n] .
    moreover have "set offs = set ?batch \<union> set (drop 512 offs)"
      by (metis append_take_drop_id set_append)
    ultimately show ?thesis
      using False po by (subst resolve_path.simps) (simp add: Let_def image_Un Un_assoc)
  qed
qed

definition grouped :: "(string \<times> u64 list) list \<Rightarrow> (string \<times> u64) set" where
  "grouped m = (\<Union>(p, offs) \<in> set m. Pair p ` set offs)"

lemma in_grouped:
  assumes "omap_wf m"
  shows "(q, x) \<in> grouped m \<longleftrightarrow> (\<exists>v. map_of m q = Some v \<and> x \<in> set v)"
proof -
  have "(q, x) \<in> grouped m \<longleftrightarrow> (\<exists>v. (q, v) \<in> set m \<and> x \<in> set v)" by (auto simp: grouped_def)
  then show ?thesis using omap_wf_distinct [OF assms] by simp
qed

lemma grouped_upd:
  assumes "omap_wf m"
  shows "grouped (omap_upd p (\<lambda>old. (case old of None \<Rightarrow> [] | Some v \<Rightarrow> v) @ [off]) m) = insert (p, off) (grouped m)"
proof (rule set_eqI)
  fix e :: "string \<times> u64"
  obtain q x where e: "e = (q, x)" by (cases e)
  show "e \<in> grouped (omap_upd p (\<lambda>old. (case old of None \<Rightarrow> [] | Some v \<Rightarrow> v) @ [off]) m)
      \<longleftrightarrow> e \<in> insert (p, off) (grouped m)"
    unfolding e in_grouped [OF omap_wf_upd [OF assms]] insert_iff in_grouped [OF assms] map_of_omap_upd [OF assms]
    by (cases "map_of m p") auto
qed

lemma grouped_group_by_path: "grouped (group_by_path xs) = set xs"
proof -
  have "omap_wf m \<Longrightarrow> grouped (fold (\<lambda>(p, off) m. omap_upd p (\<lambda>old. (case old of None \<Rightarrow> [] | Some v \<Rightarrow> v) @ [off]) m) xs m)
      = grouped m \<union> set xs" for m
  proof (induction xs arbitrary: m)
    case (Cons x xs)
    then show ?case by (cases x) (simp add: grouped_upd omap_wf_upd)
  qed simp
  from this [of "[]"] show ?thesis by (simp add: group_by_path_def grouped_def)
qed

lemma named_groups:
  "named res ps \<Longrightarrow>
   named (fst (fold (\<lambda>(p, offs) (res, os). resolve_path env p offs res os) gs (res, os))) (ps \<union> grouped gs)"
proof (induction gs arbitrary: res os ps)
  case (Cons g gs)
  obtain p offs where g: "g = (p, offs)" by (cases g)
  obtain res1 os1 where r: "resolve_path env p offs res os = (res1, os1)" by force
  have "named res1 (ps \<union> Pair p ` set offs)"
    using named_resolve_path [OF Cons.prems, of env p offs os] r by simp
  from Cons.IH [OF this, of os1] show ?case
    by (simp add: g r grouped_def Un_assoc)
qed (simp add: grouped_def)

text \<open>
  No user frame is dropped.  BatchResolveUserSymbols gives every pair of binary and file
  offset it was asked about a non-empty name, whether or not the shell can be started and
  whatever \<^verbatim>\<open>addr2line\<close> prints, including too little.
\<close>

theorem batch_resolve_total:
  assumes "(p, off) \<in> set to_resolve"
  shows "\<exists>s. fst (BatchResolveUserSymbols env to_resolve os) (p, off) = Some s \<and> s \<noteq> []"
proof -
  have "named (fst (BatchResolveUserSymbols env to_resolve os)) ({} \<union> grouped (group_by_path to_resolve))"
    unfolding BatchResolveUserSymbols_def by (rule named_groups) simp
  then show ?thesis using assms by (auto simp: named_def grouped_group_by_path)
qed

theorem batch_resolve_total_witness:
  "\<exists>s. fst (BatchResolveUserSymbols (sample_os_env\<lparr>child_output := (\<lambda>_. ''main'' @ [CHR 0x0A])\<rparr>)
       [(''/bin/a'', 16), (''/bin/a'', 32)] sample_os) (''/bin/a'', 32) = Some s \<and> s \<noteq> []"
  by (rule batch_resolve_total) simp

section \<open>The cache of mappings\<close>

definition cache_inv :: "maps_cache \<Rightarrow> bool" where
  "cache_inv c \<longleftrightarrow> omap_wf (user_maps_cache c) \<and> distinct (user_maps_lru c)
     \<and> set (user_maps_lru c) = fst ` set (user_maps_cache c)
     \<and> length (user_maps_cache c) \<le> kMaxUserMapsCache"

lemma cache_inv_empty: "cache_inv empty_cache"
  by (simp add: cache_inv_def empty_cache_def)

lemma length_filter_key:
  assumes "omap_wf m" and "k \<in> fst ` set m"
  shows "Suc (length (filter (\<lambda>e. fst e \<noteq> k) m)) = length m"
  using assms
proof (induction m)
  case (Cons e m)
  obtain k0 v where e: "e = (k0, v)" by (cases e)
  show ?case
  proof (cases "k0 = k")
    case True
    then have "k \<notin> fst ` set m" using Cons.prems by (auto simp: e omap_wf_Cons)
    then have "filter (\<lambda>e. fst e \<noteq> k) m = m" by (force simp: filter_id_conv)
    then show ?thesis using True by (simp add: e)
  next
    case False
    then show ?thesis using Cons by (auto simp: e omap_wf_Cons)
  qed
qed simp

lemma cache_inv_store:
  assumes inv: "cache_inv c" and new: "pid \<notin> fst ` set (user_maps_cache c)"
  shows "cache_inv (cache_store pid result c)"
proof (cases "length (user_maps_cache c) \<ge> kMaxUserMapsCache \<and> user_maps_lru c \<noteq> []")
  case True
  let ?old = "hd (user_maps_lru c)"
  let ?m = "filter (\<lambda>e. fst e \<noteq> ?old) (user_maps_cache c)"
  have lru: "user_maps_lru c = ?old # tl (user_maps_lru c)" using True by simp
  have mem: "?old \<in> fst ` set (user_maps_cache c)" using inv True by (auto simp: cache_inv_def dest!: list.set_sel(1))
  have wf: "omap_wf ?m" using inv by (simp add: cache_inv_def omap_wf_filter)
  have keys: "fst ` set ?m = fst ` set (user_maps_cache c) - {?old}" by force
  have tl: "set (tl (user_maps_lru c)) = set (user_maps_lru c) - {?old}" "distinct (tl (user_maps_lru c))"
    using inv lru by (metis cache_inv_def Diff_insert_absorb distinct.simps(2) list.simps(15))+
  have len: "Suc (length ?m) = length (user_maps_cache c)"
    using length_filter_key [OF _ mem] inv by (simp add: cache_inv_def)
  have nm: "pid \<notin> fst ` set ?m" using new by auto
  show ?thesis
    using True inv wf keys tl len nm new
    by (auto simp: cache_store_def cache_inv_def Let_def omap_wf_upd keys_omap_upd length_omap_upd [OF wf])
next
  case False
  have wf: "omap_wf (user_maps_cache c)" using inv by (simp add: cache_inv_def)
  have "length (user_maps_cache c) < kMaxUserMapsCache"
  proof (cases "user_maps_lru c = []")
    case True
    then have "user_maps_cache c = []" using inv by (simp add: cache_inv_def)
    then show ?thesis by (simp add: kMaxUserMapsCache_def)
  qed (use False in simp)
  then show ?thesis
    using False inv new
    by (auto simp: cache_store_def cache_inv_def Let_def omap_wf_upd keys_omap_upd length_omap_upd [OF wf])
qed

lemma cache_inv_read: "cache_inv c \<Longrightarrow> cache_inv (snd (ReadUserMaps os pid c))"
  by (auto simp: ReadUserMaps_def Let_def map_of_eq_None_iff intro: cache_inv_store split: option.splits)

text \<open>A cached process keeps the mappings of its first reading until it is evicted.\<close>

lemma cached_maps_stale:
  assumes "cache_inv c" and "ReadUserMaps os pid c = (ms, c1)" and "os_fs os (maps_path pid) \<noteq> None"
  shows "ReadUserMaps os' pid c1 = (ms, c1)"
proof (cases "map_of (user_maps_cache c) pid")
  case None
  then have c1: "c1 = cache_store pid ms c" using assms(2,3) by (auto simp: ReadUserMaps_def Let_def)
  have "omap_wf (user_maps_cache c)" using assms(1) by (simp add: cache_inv_def)
  then have "map_of (user_maps_cache c1) pid = Some ms"
    by (simp add: c1 cache_store_def Let_def map_of_omap_upd omap_wf_filter)
  then show ?thesis by (simp add: ReadUserMaps_def)
next
  case (Some ms')
  then show ?thesis using assms(2) by (simp add: ReadUserMaps_def)
qed

text \<open>
  The mappings cache is bounded.  Over any sequence of ReadUserMaps calls, one at a time and
  against any contents of \<^verbatim>\<open>/proc\<close>, the cache never holds more than
  \<open>kMaxUserMapsCache\<close> processes, the eviction queue lists exactly the cached processes
  without repetition, and what a call returns is what the cache holds or what the process's
  maps file says.
\<close>

theorem maps_cache_bounded:
  "let c = fold (\<lambda>(os, pid) c. snd (ReadUserMaps os pid c)) calls empty_cache
   in length (user_maps_cache c) \<le> kMaxUserMapsCache
      \<and> distinct (user_maps_lru c) \<and> set (user_maps_lru c) = fst ` set (user_maps_cache c)
      \<and> fst (ReadUserMaps os pid c) =
          (case map_of (user_maps_cache c) pid of
             Some ms \<Rightarrow> ms
           | None \<Rightarrow> (case os_fs os (maps_path pid) of None \<Rightarrow> [] | Some s \<Rightarrow> parse_maps s))"
proof -
  have "cache_inv c \<Longrightarrow> cache_inv (fold (\<lambda>(os, pid) c. snd (ReadUserMaps os pid c)) calls c)" for c
    by (induction calls arbitrary: c) (auto simp: cache_inv_read)
  from this [OF cache_inv_empty] show ?thesis
    by (simp add: Let_def cache_inv_def ReadUserMaps_def split: option.splits)
qed

end
