(* ===== verification/OffcpuBpf.thy ===== *)
theory OffcpuBpf
  imports Prelude "HOL-Library.AList"
begin

text \<open>
  The kernel probe of \<^verbatim>\<open>src/drop/common/bpf/offcpu.bpf.c\<close> and its maps.  The hash map
  \<^verbatim>\<open>counts\<close> is the sequence of its entries in the order in which
  \<^verbatim>\<open>bpf_map_get_next_key\<close> delivers them.  \<^verbatim>\<open>bpf_get_stackid\<close> is a kernel
  helper: the ids it returns for an event are part of the event.
\<close>

record stack_key =
  sk_pid :: u32
  sk_tgid :: u32
  user_stack_id :: int
  kern_stack_id :: int

definition MAX_ENTRIES :: nat where
  "MAX_ENTRIES = 10240"

text \<open>
  \<^verbatim>\<open>stack_traces\<close> is declared with a \<^verbatim>\<open>u64\<close> value, so an entry holds one
  address.
\<close>

definition STACK_VALUE_WORDS :: nat where
  "STACK_VALUE_WORDS = 1"

record bpf_maps =
  target_pid :: "u32 option"
  counts :: "(stack_key \<times> u64) list"
  stack_traces :: "int \<Rightarrow> u64 list option"

record sched_switch_event =
  ev_prev_pid :: u32
  ev_user_stackid :: int
  ev_kern_stackid :: int

text \<open>\<^verbatim>\<open>bpf_map_update_elem(\<dots>, BPF_ANY)\<close> on a hash map of at most \<open>MAX_ENTRIES\<close>.\<close>

definition hash_update :: "stack_key \<Rightarrow> u64 \<Rightarrow> (stack_key \<times> u64) list \<Rightarrow> (stack_key \<times> u64) list" where
  "hash_update k v m =
     (if k \<in> fst ` set m \<or> length m < MAX_ENTRIES then AList.update k v m else m)"

definition filter_tgid :: "bpf_maps \<Rightarrow> u32" where
  "filter_tgid maps = (case target_pid maps of None \<Rightarrow> 0 | Some p \<Rightarrow> p)"

definition event_key :: "bpf_maps \<Rightarrow> sched_switch_event \<Rightarrow> stack_key" where
  "event_key maps ctx =
     \<lparr>sk_pid = ev_prev_pid ctx,
      sk_tgid = (if filter_tgid maps \<noteq> 0 then filter_tgid maps else ev_prev_pid ctx),
      user_stack_id = ev_user_stackid ctx, kern_stack_id = ev_kern_stackid ctx\<rparr>"

definition trace_sched_switch :: "sched_switch_event \<Rightarrow> bpf_maps \<Rightarrow> bpf_maps" where
  "trace_sched_switch ctx maps =
     (let filt = filter_tgid maps; prev_pid = ev_prev_pid ctx
      in if filt \<noteq> 0 \<and> prev_pid \<noteq> filt then maps
         else
           (let sk = event_key maps ctx
            in case map_of (counts maps) sk of
                 Some val \<Rightarrow> maps\<lparr>counts := AList.update sk (val + 1) (counts maps)\<rparr>
               | None \<Rightarrow> maps\<lparr>counts := hash_update sk 1 (counts maps)\<rparr>))"

section \<open>Counting\<close>

text \<open>An event the filter lets through.\<close>

definition traced :: "bpf_maps \<Rightarrow> sched_switch_event \<Rightarrow> bool" where
  "traced maps ctx \<longleftrightarrow> filter_tgid maps = 0 \<or> ev_prev_pid ctx = filter_tgid maps"


lemma trace_keeps [simp]:
  "target_pid (trace_sched_switch ctx maps) = target_pid maps"
  "stack_traces (trace_sched_switch ctx maps) = stack_traces maps"
  by (simp_all add: trace_sched_switch_def Let_def split: option.splits)

lemma filter_trace [simp]:
  "filter_tgid (trace_sched_switch ctx maps) = filter_tgid maps"
  "traced (trace_sched_switch ctx maps) = traced maps"
  "event_key (trace_sched_switch ctx maps) = event_key maps"
  by (simp_all add: filter_tgid_def traced_def event_key_def fun_eq_iff)

lemma counts_trace:
  "counts (trace_sched_switch ctx maps) =
     (if traced maps ctx
      then (case map_of (counts maps) (event_key maps ctx) of
              Some val \<Rightarrow> AList.update (event_key maps ctx) (val + 1) (counts maps)
            | None \<Rightarrow> hash_update (event_key maps ctx) 1 (counts maps))
      else counts maps)"
  by (auto simp: trace_sched_switch_def traced_def Let_def split: option.splits)

lemma length_update: "length (AList.update k v m) = (if k \<in> fst ` set m then length m else Suc (length m))"
  by (induction m) auto

lemma counts_bound: "length (counts maps) \<le> MAX_ENTRIES \<Longrightarrow> length (counts (trace_sched_switch ctx maps)) \<le> MAX_ENTRIES"
  using map_of_eq_None_iff [of "counts maps" "event_key maps ctx"]
  by (auto simp: counts_trace hash_update_def length_update split: option.splits)

lemma counts_distinct:
  "distinct (map fst (counts maps)) \<Longrightarrow> distinct (map fst (counts (trace_sched_switch ctx maps)))"
  by (auto simp: counts_trace hash_update_def distinct_update split: option.splits)








section \<open>Two processors\<close>

text \<open>
  The probe runs on every processor at once.  The addition to an existing entry is atomic, but the
  lookup that finds no entry and the insertion of 1 are two steps.
\<close>

datatype probe_pc = P_lookup | P_add | P_insert | P_done

fun probe_step :: "stack_key \<Rightarrow> probe_pc \<Rightarrow> (stack_key \<times> u64) list \<Rightarrow> probe_pc \<times> (stack_key \<times> u64) list" where
  "probe_step k P_lookup m = (if map_of m k = None then (P_insert, m) else (P_add, m))"
| "probe_step k P_add m =
     (P_done, case map_of m k of None \<Rightarrow> m | Some v \<Rightarrow> AList.update k (v + 1) m)"
| "probe_step k P_insert m = (P_done, hash_update k 1 m)"
| "probe_step k P_done m = (P_done, m)"

definition probe_alone :: "stack_key \<Rightarrow> (stack_key \<times> u64) list \<Rightarrow> (stack_key \<times> u64) list" where
  "probe_alone k m = (let (pc, m1) = probe_step k P_lookup m in snd (probe_step k pc m1))"

lemma probe_alone_eq:
  "probe_alone k m = (case map_of m k of Some v \<Rightarrow> AList.update k (v + 1) m | None \<Rightarrow> hash_update k 1 m)"
  by (auto simp: probe_alone_def split: option.splits)

lemma trace_probe: "traced maps ctx \<Longrightarrow>
    counts (trace_sched_switch ctx maps) = probe_alone (event_key maps ctx) (counts maps)"
  by (simp add: counts_trace probe_alone_eq)

text \<open>Two first events for one key on two processors: one of them is not counted.\<close>

lemma first_count_race:
  "let (pc1, m1) = probe_step k P_lookup []; (pc2, m2) = probe_step k P_lookup m1;
       (_, m3) = probe_step k pc1 m2; (_, m4) = probe_step k pc2 m3
   in map_of m4 k = Some 1"
  by (simp add: hash_update_def MAX_ENTRIES_def)

end
