(* ===== verification/StackMap.thy ===== *)
theory StackMap
  imports Prelude "HOL-Library.List_Lexorder" "HOL-Library.Char_ord"
begin

text \<open>
  Folded stacks: the \<^verbatim>\<open>std::map<std::string, uint64_t>\<close> that
  \<^verbatim>\<open>ebpf_loader.cpp\<close> and \<^verbatim>\<open>continuous_profiler.cpp\<close> accumulate into, and
  the collapsed text format (one line per stack: the stack, a space, the count) that the first
  writes and the second reads back and writes again.  The map is its sequence of entries in key
  order, which is the order in which the code iterates over it; strings compare byte by byte.
  Counts are 64-bit and wrap.
\<close>

type_synonym stack_map = "(string \<times> u64) list"

text \<open>\<^verbatim>\<open>m[k] += c\<close>, where \<^verbatim>\<open>operator[]\<close> inserts 0 for a missing key.\<close>

fun smap_add :: "string \<Rightarrow> u64 \<Rightarrow> stack_map \<Rightarrow> stack_map" where
  "smap_add k c [] = [(k, c)]"
| "smap_add k c ((k', c') # m) =
     (if k < k' then (k, c) # (k', c') # m
      else if k = k' then (k', c' + c) # m
      else (k', c') # smap_add k c m)"

definition smap_wf :: "stack_map \<Rightarrow> bool" where
  "smap_wf m \<longleftrightarrow> sorted_wrt (<) (map fst m)"

definition smap_count :: "stack_map \<Rightarrow> string \<Rightarrow> u64" where
  "smap_count m k = (case map_of m k of None \<Rightarrow> 0 | Some c \<Rightarrow> c)"

definition smap_total :: "stack_map \<Rightarrow> u64" where
  "smap_total m = sum_list (map snd m)"

text \<open>\<^verbatim>\<open>for (auto& [stack, count] : m) out << stack << " " << count << "\n";\<close>\<close>

definition collapsed_line :: "string \<times> u64 \<Rightarrow> string" where
  "collapsed_line e = fst e @ CHR '' '' # show_nat (unat (snd e))"

definition write_collapsed :: "stack_map \<Rightarrow> string" where
  "write_collapsed m = concat (map (\<lambda>e. collapsed_line e @ [CHR 0x0A]) m)"

text \<open>One line as \<^verbatim>\<open>merge_collapsed\<close> reads it; \<open>None\<close> where the loop continues.\<close>

definition parse_collapsed :: "string \<Rightarrow> (string \<times> u64) option" where
  "parse_collapsed line =
     (if line = [] then None
      else case rfind_char (CHR '' '') line of
             None \<Rightarrow> None
           | Some last_space \<Rightarrow>
               (case stoull (drop (last_space + 1) line) of
                  Inl _ \<Rightarrow> None
                | Inr count \<Rightarrow> Some (take last_space line, count)))"

fun merge_lines :: "string list \<Rightarrow> stack_map \<Rightarrow> stack_map" where
  "merge_lines [] m = m"
| "merge_lines (l # ls) m =
     (case parse_collapsed l of
        None \<Rightarrow> merge_lines ls m
      | Some (stack, count) \<Rightarrow> merge_lines ls (smap_add stack count m))"

definition merge_content :: "string \<Rightarrow> stack_map \<Rightarrow> stack_map" where
  "merge_content content m = merge_lines (getlines (CHR 0x0A) content) m"

section \<open>The map\<close>

lemma smap_wf_Nil [simp]: "smap_wf []"
  by (simp add: smap_wf_def)

lemma smap_wf_Cons: "smap_wf ((k, c) # m) \<longleftrightarrow> (\<forall>k' \<in> fst ` set m. k < k') \<and> smap_wf m"
  by (auto simp: smap_wf_def)

lemma keys_smap_add: "fst ` set (smap_add k c m) = insert k (fst ` set m)"
  by (induction k c m rule: smap_add.induct) (simp_all add: insert_commute)

lemma smap_wf_add: "smap_wf m \<Longrightarrow> smap_wf (smap_add k c m)"
proof (induction k c m rule: smap_add.induct)
  case (2 k c k' c' m)
  consider "k < k'" | "k = k'" | "k' < k" by (rule linorder_cases)
  then show ?case
  proof cases
    case 1
    then show ?thesis using "2.prems" by (auto simp: smap_wf_Cons intro: less_trans)
  next
    case 3
    then have "smap_add k c ((k', c') # m) = (k', c') # smap_add k c m" by (auto dest: less_asym)
    moreover have "smap_wf (smap_add k c m)" using 3 "2.IH" "2.prems" by (auto simp: smap_wf_Cons dest: less_asym)
    ultimately show ?thesis using 3 "2.prems" by (simp add: smap_wf_Cons keys_smap_add)
  qed (use "2.prems" in \<open>simp add: smap_wf_Cons\<close>)
qed (simp add: smap_wf_Cons)

lemma smap_count_add:
  "smap_wf m \<Longrightarrow> smap_count (smap_add k c m) k' = (if k' = k then smap_count m k + c else smap_count m k')"
proof (induction m)
  case Nil
  then show ?case by (simp add: smap_count_def)
next
  case (Cons e m)
  obtain k0 c0 where e: "e = (k0, c0)" by (cases e)
  have "map_of m k = None" if "k < k0" using Cons.prems that
    by (auto simp: e smap_wf_Cons map_of_eq_None_iff)
  moreover have "map_of m k0 = None" using Cons.prems by (auto simp: e smap_wf_Cons map_of_eq_None_iff)
  ultimately show ?case using Cons by (auto simp: e smap_wf_Cons smap_count_def split: option.splits)
qed

lemma smap_total_add: "smap_total (smap_add k c m) = smap_total m + c"
  by (induction m) (auto simp: smap_total_def algebra_simps)

lemma smap_add_last: "(\<And>k'. k' \<in> fst ` set m \<Longrightarrow> k' < k) \<Longrightarrow> smap_add k c m = m @ [(k, c)]"
proof (induction m)
  case (Cons e m)
  obtain k0 c0 where e: "e = (k0, c0)" by (cases e)
  have "k0 < k" using Cons.prems [of k0] by (simp add: e)
  moreover have "smap_add k c m = m @ [(k, c)]" using Cons by simp
  ultimately show ?case by (auto simp: e dest: less_asym)
qed simp

section \<open>Writing and reading back\<close>

lemma parse_collapsed_line: "CHR 0x0A \<notin> set (fst e) \<Longrightarrow> parse_collapsed (collapsed_line e) = Some e"
  by (cases e)
    (simp add: parse_collapsed_def collapsed_line_def rfind_char_append_sep show_nat_no_sep stoull_show_word)

lemma merge_lines_append: "merge_lines (xs @ ys) m = merge_lines ys (merge_lines xs m)"
  by (induction xs arbitrary: m) (auto split: option.splits)

lemma merge_lines_wf: "smap_wf m \<Longrightarrow> smap_wf (merge_lines ls m)"
  by (induction ls arbitrary: m) (auto simp: smap_wf_add split: option.splits)

lemma getlines_write_collapsed:
  assumes "\<And>k. k \<in> fst ` set m \<Longrightarrow> CHR 0x0A \<notin> set k"
  shows "getlines (CHR 0x0A) (write_collapsed m) = map collapsed_line m"
proof -
  have "write_collapsed m = concat (map (\<lambda>l. l @ [CHR 0x0A]) (map collapsed_line m))"
    by (simp add: write_collapsed_def comp_def)
  moreover have "CHR 0x0A \<notin> set l" if "l \<in> set (map collapsed_line m)" for l
    using that assms show_nat_no_sep(2) by (fastforce simp: collapsed_line_def)
  ultimately show ?thesis using getlines_unlines [of "map collapsed_line m" "CHR 0x0A"] by simp
qed

text \<open>What merging adds, line by line.\<close>

lemma merge_lines_count:
  "smap_wf m \<Longrightarrow> smap_count (merge_lines ls m) k =
     smap_count m k + sum_list (map snd (filter (\<lambda>e. fst e = k) (List.map_filter parse_collapsed ls)))"
proof (induction ls arbitrary: m)
  case (Cons l ls)
  then show ?case
    by (auto simp: List.map_filter_def smap_count_add smap_wf_add algebra_simps split: option.splits)
qed (simp add: List.map_filter_def)

lemma map_filter_collapsed:
  assumes "\<And>k. k \<in> fst ` set m \<Longrightarrow> CHR 0x0A \<notin> set k"
  shows "List.map_filter parse_collapsed (map collapsed_line m) = m"
  using assms by (induction m) (auto simp: List.map_filter_def parse_collapsed_line)

lemma count_filter:
  "distinct (map fst m) \<Longrightarrow> sum_list (map snd (filter (\<lambda>e. fst e = k) m)) = smap_count m k"
proof (induction m)
  case (Cons e m)
  obtain k0 c0 where e: "e = (k0, c0)" by (cases e)
  have "k0 \<notin> fst ` set m" using Cons.prems by (simp add: e)
  then have "filter (\<lambda>e. fst e = k0) m = []" by (force simp: filter_empty_conv)
  then show ?case using Cons by (auto simp: e smap_count_def)
qed (simp add: smap_count_def)

lemma smap_wf_distinct: "smap_wf m \<Longrightarrow> distinct (map fst m)"
  by (simp add: smap_wf_def strict_sorted_iff)

lemma merge_written_count:
  assumes "smap_wf m0" and "\<And>k. k \<in> fst ` set m \<Longrightarrow> CHR 0x0A \<notin> set k" and "distinct (map fst m)"
  shows "smap_count (merge_content (write_collapsed m) m0) k = smap_count m0 k + smap_count m k"
  using merge_lines_count [OF assms(1)] assms(2) count_filter [OF assms(3)]
  by (simp add: merge_content_def getlines_write_collapsed map_filter_collapsed)

lemma merge_lines_total:
  "smap_total (merge_lines ls m) = smap_total m + sum_list (map snd (List.map_filter parse_collapsed ls))"
proof (induction ls arbitrary: m)
  case (Cons l ls)
  then show ?case by (auto simp: List.map_filter_def smap_total_add algebra_simps split: option.splits)
qed (simp add: List.map_filter_def)

lemma merge_written_total:
  assumes "\<And>k. k \<in> fst ` set m \<Longrightarrow> CHR 0x0A \<notin> set k"
  shows "smap_total (merge_content (write_collapsed m) m0) = smap_total m0 + smap_total m"
  using assms
  by (simp add: merge_content_def getlines_write_collapsed merge_lines_total map_filter_collapsed)
    (simp add: smap_total_def)

lemma merge_written_empty:
  assumes "\<And>k. k \<in> fst ` set m \<Longrightarrow> CHR 0x0A \<notin> set k" and "smap_wf m"
  shows "merge_content (write_collapsed m) [] = m"
proof -
  have "merge_lines (map collapsed_line ys) xs = xs @ ys"
    if "smap_wf (xs @ ys)" and "\<And>k. k \<in> fst ` set ys \<Longrightarrow> CHR 0x0A \<notin> set k" for xs ys
    using that
  proof (induction ys arbitrary: xs)
    case (Cons y ys)
    obtain k c where y: "y = (k, c)" by (cases y)
    have "smap_add k c xs = xs @ [(k, c)]"
      using Cons.prems(1) by (intro smap_add_last) (auto simp: y smap_wf_def sorted_wrt_append)
    moreover have "parse_collapsed (collapsed_line y) = Some (k, c)"
      using Cons.prems(2) y by (simp add: parse_collapsed_line)
    ultimately show ?case using Cons.IH [of "xs @ [(k, c)]"] Cons.prems by (simp add: y)
  qed simp
  from this [of "[]" m] assms show ?thesis
    by (simp add: merge_content_def getlines_write_collapsed)
qed

end
