(* ===== verification/EbpfLoader.thy ===== *)
theory EbpfLoader
  imports SymbolsProofs OffcpuBpf StackMap
begin

text \<open>
  \<^verbatim>\<open>EbpfLoader\<close> of \<^verbatim>\<open>src/drop/common/src/ebpf_loader.cpp\<close>: loading and attaching
  the probe, and \<^verbatim>\<open>poll\<close>, which reads the probe's maps, resolves and folds the stacks,
  writes the collapsed file and empties the maps.  \<^verbatim>\<open>libbpf\<close> and the kernel are the
  environment \<open>bpf_env\<close>: what each call answers, and the maps as \<^verbatim>\<open>poll\<close> finds
  them (switches that happen while it reads are not considered).
\<close>

section \<open>Keys and messages\<close>

text \<open>
  The order of \<^verbatim>\<open>std::map<stack_key, uint64_t>\<close>.  It is a strict linear order, so the map
  keeps one entry for each key and looks keys up by equality, as the lists of the model do.
\<close>

definition stack_key_less :: "OffcpuBpf.stack_key \<Rightarrow> OffcpuBpf.stack_key \<Rightarrow> bool" where
  "stack_key_less a b =
     (if sk_pid a \<noteq> sk_pid b then sk_pid a < sk_pid b
      else if sk_tgid a \<noteq> sk_tgid b then sk_tgid a < sk_tgid b
      else if user_stack_id a \<noteq> user_stack_id b then user_stack_id a < user_stack_id b
      else kern_stack_id a < kern_stack_id b)"

lemma stack_key_less_linear:
  "\<not> stack_key_less a a"
  "stack_key_less a b \<Longrightarrow> stack_key_less b c \<Longrightarrow> stack_key_less a c"
  "\<not> stack_key_less a b \<Longrightarrow> \<not> stack_key_less b a \<Longrightarrow> a = b"
  by (auto simp: stack_key_less_def split: if_splits intro: stack_key.equality)

text \<open>
  \<^verbatim>\<open>libbpf_print_fn\<close>: the severity and text of the log line for a formatted message, which
  \<^verbatim>\<open>vsnprintf\<close> cuts to the buffer.  The levels are those of libbpf.
\<close>

datatype libbpf_print_level = LIBBPF_WARN | LIBBPF_INFO | LIBBPF_DEBUG

datatype severity = Log_INFO | Log_WARNING

definition libbpf_print_fn :: "libbpf_print_level \<Rightarrow> string \<Rightarrow> (severity \<times> string) option" where
  "libbpf_print_fn level message =
     (if level = LIBBPF_DEBUG then None
      else (let buf = strip_back (\<lambda>c. c = CHR 0x0A \<or> c = CHR 0x0D) (take 511 message)
            in if level = LIBBPF_WARN \<or> level = LIBBPF_INFO then Some (Log_INFO, ''libbpf: '' @ buf)
               else Some (Log_WARNING, ''libbpf: '' @ buf)))"

text \<open>No message of libbpf is logged as a warning, not even its warnings.\<close>

lemma libbpf_never_warns: "libbpf_print_fn level message \<noteq> Some (Log_WARNING, text)"
  by (cases level) (simp_all add: libbpf_print_fn_def Let_def)

section \<open>Loading and attaching\<close>

record bpf_env =
  be_open_error :: "path \<Rightarrow> string option"
  be_load_error :: "string option"
  be_has_program :: bool
  be_has_map :: "string \<Rightarrow> bool"
  be_map_fd :: "string \<Rightarrow> int"
  be_update_error :: "string option"
  be_attach_error :: "string option"

text \<open>
  \<^verbatim>\<open>EbpfLoader::Impl\<close>; a pointer is whether it is non-null.  The last four fields are not
  in the code: they count the objects opened and closed and the links attached and destroyed.
\<close>

record ebpf_impl =
  im_obj :: bool
  im_prog :: bool
  im_link :: bool
  im_counts_map :: bool
  im_stack_map :: bool
  im_target_pid_map :: bool
  im_counts_fd :: int
  im_stack_fd :: int
  im_target_pid_fd :: int
  im_loaded :: bool
  im_attached :: bool
  im_filter :: "u32 option"
  gh_opened :: nat
  gh_closed :: nat
  gh_attached :: nat
  gh_destroyed :: nat

definition new_impl :: ebpf_impl where
  "new_impl =
     \<lparr>im_obj = False, im_prog = False, im_link = False, im_counts_map = False, im_stack_map = False,
      im_target_pid_map = False, im_counts_fd = -1, im_stack_fd = -1, im_target_pid_fd = -1,
      im_loaded = False, im_attached = False, im_filter = None,
      gh_opened = 0, gh_closed = 0, gh_attached = 0, gh_destroyed = 0\<rparr>"

definition close_obj :: "ebpf_impl \<Rightarrow> ebpf_impl" where
  "close_obj im = im\<lparr>im_obj := False, gh_closed := Suc (gh_closed im)\<rparr>"

definition EbpfLoader_load :: "bpf_env \<Rightarrow> path \<Rightarrow> string \<Rightarrow> ebpf_impl \<Rightarrow> bool \<times> string \<times> ebpf_impl" where
  "EbpfLoader_load env bpf_o_path error_msg im =
     (if im_loaded im then (False, ''BPF object already loaded'', im)
      else case be_open_error env bpf_o_path of
             Some e \<Rightarrow>
               (False, ''Failed to open BPF object: '' @ bpf_o_path @ '' ('' @ e @ '')'', im\<lparr>im_obj := False\<rparr>)
           | None \<Rightarrow>
               (let im1 = im\<lparr>im_obj := True, gh_opened := Suc (gh_opened im)\<rparr>
                in case be_load_error env of
                     Some e \<Rightarrow> (False, ''Failed to load BPF object: '' @ e, close_obj im1)
                   | None \<Rightarrow>
                       (let im2 = im1\<lparr>im_prog := be_has_program env\<rparr>
                        in if \<not> be_has_program env
                           then (False, ''Failed to find BPF program '' @ [CHR 0x27] @ ''trace_sched_switch'' @ [CHR 0x27], close_obj im2)
                           else
                             (let im3 = im2\<lparr>im_counts_map := be_has_map env ''counts'',
                                            im_stack_map := be_has_map env ''stack_traces'',
                                            im_target_pid_map := be_has_map env ''target_pid''\<rparr>
                              in if \<not> im_counts_map im3 \<or> \<not> im_stack_map im3
                                 then (False, ''Failed to find required BPF maps (counts, stack_traces)'', close_obj im3)
                                 else
                                   (True, error_msg,
                                    im3\<lparr>im_counts_fd := be_map_fd env ''counts'',
                                        im_stack_fd := be_map_fd env ''stack_traces'',
                                        im_target_pid_fd := (if im_target_pid_map im3 then be_map_fd env ''target_pid''
                                                             else im_target_pid_fd im3),
                                        im_loaded := True, im_filter := None\<rparr>)))))"

definition EbpfLoader_attach :: "bpf_env \<Rightarrow> int \<Rightarrow> string \<Rightarrow> ebpf_impl \<Rightarrow> bool \<times> string \<times> ebpf_impl" where
  "EbpfLoader_attach env pid error_msg im =
     (if \<not> im_loaded im then (False, ''BPF object not loaded'', im)
      else if im_attached im then (False, ''Already attached'', im)
      else if pid > 0 \<and> im_target_pid_fd im \<ge> 0 \<and> be_update_error env \<noteq> None
      then (False, ''Failed to set target PID filter: '' @ the (be_update_error env), im)
      else
        (let im1 = (if pid > 0 \<and> im_target_pid_fd im \<ge> 0
                    then im\<lparr>im_filter := Some (word_of_int pid)\<rparr> else im)
         in case be_attach_error env of
              Some e \<Rightarrow> (False, ''Failed to attach BPF program: '' @ e, im1\<lparr>im_link := False\<rparr>)
            | None \<Rightarrow>
                (True, error_msg,
                 im1\<lparr>im_link := True, gh_attached := Suc (gh_attached im1), im_attached := True\<rparr>)))"

definition EbpfLoader_detach :: "ebpf_impl \<Rightarrow> ebpf_impl" where
  "EbpfLoader_detach im =
     (let im1 = (if im_link im then im\<lparr>im_link := False, gh_destroyed := Suc (gh_destroyed im)\<rparr> else im)
      in im1\<lparr>im_attached := False\<rparr>)"

definition EbpfLoader_unload :: "ebpf_impl \<Rightarrow> ebpf_impl" where
  "EbpfLoader_unload im =
     (let im1 = (if im_obj im then close_obj im else im)
      in im1\<lparr>im_loaded := False, im_counts_fd := -1, im_stack_fd := -1, im_target_pid_fd := -1\<rparr>)"

definition EbpfLoader_dtor :: "ebpf_impl \<Rightarrow> ebpf_impl" where
  "EbpfLoader_dtor im = EbpfLoader_unload (EbpfLoader_detach im)"

section \<open>poll\<close>

text \<open>Phase 1: the entries with a count.\<close>

definition collect_counts :: "(stack_key \<times> u64) list \<Rightarrow> (stack_key \<times> u64) list" where
  "collect_counts m = filter (\<lambda>e. snd e \<noteq> 0) m"

definition used_stack_ids :: "(stack_key \<times> u64) list \<Rightarrow> int set" where
  "used_stack_ids keys =
     {i \<in> (kern_stack_id \<circ> fst) ` set keys \<union> (user_stack_id \<circ> fst) ` set keys. 0 \<le> i}"

text \<open>A stack read into a zeroed buffer of 64 addresses; the first 0 ends it.\<close>

definition read_stack :: "bpf_maps \<Rightarrow> int \<Rightarrow> u64 list option" where
  "read_stack maps stack_id =
     map_option (\<lambda>v. takeWhile (\<lambda>a. a \<noteq> 0) (take 64 v)) (stack_traces maps stack_id)"

text \<open>Phase 2: the user stacks, and what is to be resolved in them.\<close>

type_synonym user_stacks = "u32 \<times> int \<Rightarrow> u64 list option"

definition offsets_in :: "user_sym list \<Rightarrow> u64 list \<Rightarrow> (string \<times> u64) list" where
  "offsets_in ms addrs =
     List.map_filter (\<lambda>a. map_option (\<lambda>m. (us_path m, file_offset m a)) (find_mapping ms a)) addrs"

fun collect_user ::
  "os_state \<Rightarrow> bpf_maps \<Rightarrow> stack_key list \<Rightarrow> user_stacks \<Rightarrow> (string \<times> u64) list \<Rightarrow> maps_cache \<Rightarrow>
   user_stacks \<times> (string \<times> u64) list \<times> maps_cache" where
  "collect_user os maps [] us todo c = (us, todo, c)"
| "collect_user os maps (key # keys) us todo c =
     (if user_stack_id key \<ge> 0
      then (case read_stack maps (user_stack_id key) of
              None \<Rightarrow> collect_user os maps keys us todo c
            | Some addrs \<Rightarrow>
                (let (ms, c1) = ReadUserMaps os (sk_tgid key) c
                 in collect_user os maps keys (us((sk_tgid key, user_stack_id key) \<mapsto> addrs))
                      (todo @ offsets_in ms addrs) c1))
      else collect_user os maps keys us todo c)"

text \<open>Phase 3: one stack as text, outermost frame first.\<close>

fun append_frames :: "string \<Rightarrow> string list \<Rightarrow> string" where
  "append_frames s [] = s"
| "append_frames s (f # fs) = append_frames ((if s \<noteq> [] then s @ '';'' else s) @ f) fs"

definition kernel_frames :: "bpf_maps \<Rightarrow> ksyms \<Rightarrow> stack_key \<Rightarrow> string list" where
  "kernel_frames maps syms key =
     (if kern_stack_id key \<ge> 0
      then (case read_stack maps (kern_stack_id key) of
              None \<Rightarrow> []
            | Some addrs \<Rightarrow> rev (map (ResolveKsym syms) addrs))
      else [])"

fun resolve_user_frames ::
  "os_state \<Rightarrow> u32 \<Rightarrow> resolved \<Rightarrow> u64 list \<Rightarrow> maps_cache \<Rightarrow> string list \<times> maps_cache" where
  "resolve_user_frames os tgid res [] c = ([], c)"
| "resolve_user_frames os tgid res (a # as) c =
     (let (f, c1) = ResolveUserFrame os tgid a res c; (fs, c2) = resolve_user_frames os tgid res as c1
      in (f # fs, c2))"

definition user_frames ::
  "os_state \<Rightarrow> resolved \<Rightarrow> user_stacks \<Rightarrow> stack_key \<Rightarrow> maps_cache \<Rightarrow> string list \<times> maps_cache" where
  "user_frames os res us key c =
     (if user_stack_id key \<ge> 0
      then (case us (sk_tgid key, user_stack_id key) of
              None \<Rightarrow> ([], c)
            | Some addrs \<Rightarrow> (let (fs, c1) = resolve_user_frames os (sk_tgid key) res addrs c in (rev fs, c1)))
      else ([], c))"

definition fold_stack :: "string list \<Rightarrow> string list \<Rightarrow> string" where
  "fold_stack kfs ufs =
     (let s = append_frames (append_frames [] kfs) ufs in if s = [] then ''[unknown]'' else s)"

fun fold_keys ::
  "os_state \<Rightarrow> bpf_maps \<Rightarrow> ksyms \<Rightarrow> resolved \<Rightarrow> user_stacks \<Rightarrow> (stack_key \<times> u64) list \<Rightarrow> maps_cache \<Rightarrow>
   stack_map \<Rightarrow> stack_map \<times> maps_cache" where
  "fold_keys os maps syms res us [] c folded = (folded, c)"
| "fold_keys os maps syms res us ((key, n) # keys) c folded =
     (let (ufs, c1) = user_frames os res us key c
      in fold_keys os maps syms res us keys c1
           (smap_add (fold_stack (kernel_frames maps syms key) ufs) n folded))"

text \<open>Phase 5.\<close>

definition clean_maps :: "(stack_key \<times> u64) list \<Rightarrow> bpf_maps \<Rightarrow> bpf_maps" where
  "clean_maps keys maps =
     maps\<lparr>counts := filter (\<lambda>e. fst e \<notin> fst ` set keys) (counts maps),
          stack_traces := (\<lambda>i. if i \<in> used_stack_ids keys then None else stack_traces maps i)\<rparr>"

text \<open>Everything of \<^verbatim>\<open>poll\<close> before the output file is opened.\<close>

definition poll_fold ::
  "os_env \<Rightarrow> bpf_maps \<Rightarrow> maps_cache \<Rightarrow> os_state \<Rightarrow> stack_map \<times> maps_cache \<times> os_state" where
  "poll_fold env maps c os =
     (let syms = ReadKallsyms os;
          keys = collect_counts (counts maps);
          (us, todo, c1) = collect_user os maps (map fst keys) Map.empty [] c;
          (res, os1) = BatchResolveUserSymbols env todo os;
          (folded, c2) = fold_keys os1 maps syms res us keys c1 []
      in (folded, c2, os1))"

definition EbpfLoader_poll ::
  "os_env \<Rightarrow> ebpf_impl \<Rightarrow> bpf_maps \<Rightarrow> path \<Rightarrow> string \<Rightarrow> maps_cache \<Rightarrow> os_state \<Rightarrow>
   bool \<times> string \<times> bpf_maps \<times> maps_cache \<times> os_state" where
  "EbpfLoader_poll env im maps output_path error_msg c os =
     (if \<not> im_attached im then (False, ''Not attached'', maps, c, os)
      else
        (let (folded, c1, os1) = poll_fold env maps c os
         in case write_file env output_path (write_collapsed folded) os1 of
              None \<Rightarrow> (False, ''Failed to open output file: '' @ output_path, maps, c1, os1)
            | Some os2 \<Rightarrow> (True, error_msg, clean_maps (collect_counts (counts maps)) maps, c1, os2)))"

end
