(* ===== verification/EbpfProofs.thy ===== *)
theory EbpfProofs
  imports EbpfLoader
begin

text \<open>
  What \<^verbatim>\<open>poll\<close> guarantees: no sample is lost or counted twice between the probe's map and
  the collapsed file, the file can be read back, the maps are emptied, and objects and links are
  released.
\<close>

section \<open>Life cycle\<close>

datatype loader_call = C_load path | C_attach int | C_detach | C_unload

fun loader_step :: "bpf_env \<Rightarrow> loader_call \<Rightarrow> ebpf_impl \<Rightarrow> ebpf_impl" where
  "loader_step env (C_load p) im = snd (snd (EbpfLoader_load env p [] im))"
| "loader_step env (C_attach pid) im = snd (snd (EbpfLoader_attach env pid [] im))"
| "loader_step env C_detach im = EbpfLoader_detach im"
| "loader_step env C_unload im = EbpfLoader_unload im"

definition loader_inv :: "ebpf_impl \<Rightarrow> bool" where
  "loader_inv im \<longleftrightarrow>
     gh_opened im = gh_closed im + of_bool (im_obj im) \<and> gh_attached im = gh_destroyed im + of_bool (im_link im)
     \<and> im_obj im = im_loaded im \<and> im_link im = im_attached im"

lemma loader_inv_new: "loader_inv new_impl"
  by (simp add: loader_inv_def new_impl_def)

lemma loader_inv_step: "loader_inv im \<Longrightarrow> loader_inv (loader_step env call im)"
  by (cases call)
    (auto simp: loader_inv_def EbpfLoader_load_def EbpfLoader_attach_def EbpfLoader_detach_def
      EbpfLoader_unload_def close_obj_def Let_def split: option.splits)

lemma loader_inv_run: "loader_inv im \<Longrightarrow> loader_inv (fold (loader_step env) calls im)"
  by (induction calls arbitrary: im) (simp_all add: loader_inv_step)

text \<open>
  No BPF object or link is leaked.  After any sequence of load, attach, detach and unload
  calls, whatever libbpf answers, at most one object and one link are held; they are held exactly
  when the loader says loaded and attached; and the destructor releases both, so each object
  opened is closed once and each link attached is destroyed once.
\<close>

theorem loader_releases_all:
  "let im = fold (loader_step env) calls new_impl; d = EbpfLoader_dtor im
   in gh_opened im = gh_closed im + of_bool (im_loaded im) \<and> gh_attached im = gh_destroyed im + of_bool (im_attached im)
      \<and> gh_opened d = gh_closed d \<and> gh_attached d = gh_destroyed d
      \<and> gh_opened d = gh_opened im \<and> gh_attached d = gh_attached im"
  using loader_inv_run [OF loader_inv_new, of env calls]
  by (auto simp: Let_def loader_inv_def EbpfLoader_dtor_def EbpfLoader_detach_def EbpfLoader_unload_def close_obj_def)

section \<open>Folding\<close>

lemma fold_keys_total:
  "smap_total (fst (fold_keys os maps syms res us keys c folded)) = smap_total folded + sum_list (map snd keys)"
proof (induction keys arbitrary: c folded)
  case (Cons e keys)
  then show ?case by (cases e) (simp add: split_beta smap_total_add algebra_simps)
qed simp

lemma fold_keys_wf: "smap_wf folded \<Longrightarrow> smap_wf (fst (fold_keys os maps syms res us keys c folded))"
proof (induction keys arbitrary: c folded)
  case (Cons e keys)
  then show ?case by (cases e) (simp add: split_beta smap_wf_add)
qed simp

lemma sum_collect_counts: "sum_list (map snd (collect_counts m)) = sum_list (map snd m)"
  by (induction m) (auto simp: collect_counts_def)

lemma poll_fold_total: "smap_total (fst (poll_fold env maps c os)) = sum_list (map snd (counts maps))"
  by (simp add: poll_fold_def Let_def split_beta fold_keys_total sum_collect_counts) (simp add: smap_total_def)

lemma poll_fold_wf: "smap_wf (fst (poll_fold env maps c os))"
  by (simp add: poll_fold_def Let_def split_beta fold_keys_wf)

lemma poll_true:
  assumes "EbpfLoader_poll env im maps path msg c os = (True, msg', maps', c', os')"
  shows "im_attached im \<and> os_fs os' path = Some (write_collapsed (fst (poll_fold env maps c os)))
    \<and> maps' = clean_maps (collect_counts (counts maps)) maps"
  using assms by (auto simp: EbpfLoader_poll_def write_file_def Let_def split_beta split: if_splits option.splits)

section \<open>No newline gets into a stack\<close>

abbreviation no_nl :: "string \<Rightarrow> bool" where "no_nl s \<equiv> CHR 0x0A \<notin> set s"

definition clean_cache :: "maps_cache \<Rightarrow> bool" where
  "clean_cache c \<longleftrightarrow> (\<forall>(pid, ms) \<in> set (user_maps_cache c). \<forall>m \<in> set ms. no_nl (us_path m))"

lemma set_omap_upd: "set (omap_upd k (\<lambda>_. v) m) \<subseteq> insert (k, v) (set m)"
  by (induction m) (auto split: if_splits)

lemma parse_maps_no_nl: "m \<in> set (parse_maps content) \<Longrightarrow> no_nl (us_path m)"
proof -
  assume "m \<in> set (parse_maps content)"
  then obtain l where l: "l \<in> set (getlines (CHR 0x0A) content)" "parse_maps_line l = Some m"
    by (auto simp: parse_maps_def List.map_filter_def)
  then have "set (us_path m) \<subseteq> set l"
    using set_strip_back by (fastforce simp: parse_maps_line_def Let_def split_beta dest: in_set_dropD
        split: option.splits if_splits)
  then show ?thesis using getlines_no_sep [OF l(1)] by blast
qed

lemma clean_cache_read:
  assumes "clean_cache c"
  shows "clean_cache (snd (ReadUserMaps os pid c)) \<and> (\<forall>m \<in> set (fst (ReadUserMaps os pid c)). no_nl (us_path m))"
proof (cases "map_of (user_maps_cache c) pid")
  case (Some ms)
  then show ?thesis using assms by (fastforce simp: ReadUserMaps_def clean_cache_def dest: map_of_SomeD)
next
  case None
  have store: "clean_cache (cache_store pid (parse_maps s) c)" for s
  proof -
    have "set (user_maps_cache (cache_store pid ms c)) \<subseteq> insert (pid, ms) (set (user_maps_cache c))" for ms
      using set_omap_upd [of pid ms "user_maps_cache c"]
        set_omap_upd [of pid ms "filter (\<lambda>e. fst e \<noteq> hd (user_maps_lru c)) (user_maps_cache c)"]
      by (auto simp: cache_store_def Let_def)
    then show ?thesis using assms parse_maps_no_nl by (fastforce simp: clean_cache_def)
  qed
  show ?thesis
    using None store parse_maps_no_nl assms by (auto simp: ReadUserMaps_def Let_def split: option.splits)
qed

lemma hex_digit_no_nl: "d < 16 \<Longrightarrow> hex_digit d \<noteq> CHR 0x0A"
proof
  assume d: "d < 16" and "hex_digit d = CHR 0x0A"
  then have "(of_char (hex_digit d) :: nat) = 10" by simp
  then show False using d by (simp add: hex_digit_def split: if_splits)
qed

lemma show_hex_no_nl: "no_nl (show_hex n)"
proof (induction n rule: show_hex.induct)
  case (1 n)
  then show ?case
    using hex_digit_no_nl by (subst show_hex.simps) (auto dest: sym)
qed

lemma offset_name_no_nl:
  assumes "no_nl p"
  shows "no_nl (offset_name p off)"
proof -
  have "set (after_last (CHR ''/'') p) \<subseteq> set p"
    by (auto simp: after_last_def dest: in_set_dropD split: option.splits)
  then show ?thesis
    using assms show_hex_no_nl by (auto simp: offset_name_def basename_def dest!: in_set_takeD)
qed

lemma fgets_piece:
  "x \<in> set (fgets_pieces n s) \<Longrightarrow> \<exists>q. no_nl q \<and> (x = q \<or> x = q @ [CHR 0x0A])"
proof (induction n s rule: fgets_pieces.induct)
  case (1 n s)
  show ?case
  proof (cases "s = []")
    case True
    then show ?thesis using "1.prems" by (simp add: fgets_pieces.simps)
  next
    case False
    let ?tw = "takeWhile (\<lambda>c. c \<noteq> CHR 0x0A) s"
    let ?k = "min (Suc (length ?tw)) (Suc n)"
    have q: "no_nl (take j ?tw)" for j by (auto dest!: in_set_takeD set_takeWhileD)
    have "take ?k s = take ?k ?tw \<or> take ?k s = ?tw @ [CHR 0x0A]"
    proof (cases "Suc (length ?tw) \<le> Suc n \<and> length ?tw < length s")
      case True
      then have "s ! length ?tw = CHR 0x0A" using nth_length_takeWhile [of "\<lambda>c. c \<noteq> CHR 0x0A" s] by simp
      moreover have "take (length ?tw) s = ?tw" by (metis takeWhile_eq_take)
      ultimately show ?thesis using True by (simp add: min_def take_Suc_conv_app_nth)
    next
      case F: False
      then have "?k \<le> length ?tw \<or> length s \<le> length ?tw" by auto
      then have "take ?k s = take ?k ?tw"
      proof
        assume "?k \<le> length ?tw"
        then show ?thesis by (metis min.absorb1 take_take takeWhile_eq_take)
      next
        assume "length s \<le> length ?tw"
        then have tw: "?tw = s" by (metis take_all takeWhile_eq_take)
        show ?thesis by (rule arg_cong [OF tw, of "take ?k", symmetric])
      qed
      then show ?thesis ..
    qed
    moreover have "no_nl ?tw" by (auto dest: set_takeWhileD)
    ultimately have "\<exists>q. no_nl q \<and> (take ?k s = q \<or> take ?k s = q @ [CHR 0x0A])" using q by blast
    moreover have "x = take ?k s \<or> x \<in> set (fgets_pieces n (drop ?k s))"
      using "1.prems" False by (subst (asm) fgets_pieces.simps) (simp add: Let_def)
    ultimately show ?thesis using "1.IH" [OF False refl refl] by blast
  qed
qed

lemma batch_name_no_nl:
  assumes "no_nl p" and "\<forall>x \<in> set pieces. \<exists>q. no_nl q \<and> (x = q \<or> x = q @ [CHR 0x0A])"
  shows "no_nl (batch_name p off pieces)"
proof -
  have strip: "no_nl (strip_back (\<lambda>c. c = CHR 0x0A \<or> c = CHR 0x0D) x)"
    if "no_nl q \<and> (x = q \<or> x = q @ [CHR 0x0A])" for x q
    using that set_strip_back [of "\<lambda>c. c = CHR 0x0A \<or> c = CHR 0x0D" q] by (auto simp: strip_back_snoc)
  have "no_nl (case pieces of [] \<Rightarrow> [] | l # _ \<Rightarrow> strip_back (\<lambda>c. c = CHR 0x0A \<or> c = CHR 0x0D) l)"
    using assms(2) strip by (cases pieces) auto
  then show ?thesis using offset_name_no_nl [OF assms(1)] by (simp add: batch_name_def Let_def)
qed

definition clean_res :: "resolved \<Rightarrow> bool" where
  "clean_res res \<longleftrightarrow> (\<forall>k s. res k = Some s \<longrightarrow> no_nl s)"

lemma clean_res_upd: "clean_res res \<Longrightarrow> no_nl s \<Longrightarrow> clean_res (res(k \<mapsto> s))"
  by (auto simp: clean_res_def)

lemma clean_name_batch:
  assumes "clean_res res" and "no_nl p" and "\<forall>x \<in> set pieces. \<exists>q. no_nl q \<and> (x = q \<or> x = q @ [CHR 0x0A])"
  shows "clean_res (name_batch p offs pieces res)"
  using assms
proof (induction offs arbitrary: pieces res)
  case (Cons off offs)
  have "clean_res (res((p, off) \<mapsto> batch_name p off pieces))"
    using Cons.prems by (intro clean_res_upd batch_name_no_nl)
  moreover have "\<forall>x \<in> set (drop 2 pieces). \<exists>q. no_nl q \<and> (x = q \<or> x = q @ [CHR 0x0A])"
    using Cons.prems(3) by (auto dest: in_set_dropD)
  ultimately show ?case unfolding name_batch.simps using Cons.prems(2) by (intro Cons.IH)
qed simp

lemma clean_fallback:
  "clean_res res \<Longrightarrow> no_nl p \<Longrightarrow> clean_res (fold (\<lambda>off r. r((p, off) \<mapsto> offset_name p off)) offs res)"
proof (induction offs arbitrary: res)
  case (Cons off offs)
  have "clean_res (res((p, off) \<mapsto> offset_name p off))"
    using Cons.prems by (intro clean_res_upd offset_name_no_nl)
  from Cons.IH [OF this Cons.prems(2)] show ?case by simp
qed simp

lemma clean_resolve_path:
  "clean_res res \<Longrightarrow> no_nl p \<Longrightarrow> clean_res (fst (resolve_path env p offs res os))"
proof (induction env p offs res os rule: resolve_path.induct)
  case (1 env p offs res os)
  show ?case
  proof (cases "offs = []")
    case True
    then show ?thesis using "1.prems" by (simp add: resolve_path.simps)
  next
    case False
    let ?batch = "take 512 offs"
    obtain out os1 where po: "popen_read env (addr2line_cmd p ?batch) os = (out, os1)" by force
    let ?res = "case out of None \<Rightarrow> fold (\<lambda>off r. r((p, off) \<mapsto> offset_name p off)) ?batch res
                | Some (text, _) \<Rightarrow> name_batch p ?batch (fgets_pieces 511 text) res"
    have n: "clean_res ?res"
      using clean_fallback [OF "1.prems"] clean_name_batch [OF "1.prems"] fgets_piece
      by (auto split: option.split)
    have "clean_res (fst (resolve_path env p (drop 512 offs) ?res os1))"
      using "1.IH" [OF False refl po [symmetric] refl refl n "1.prems"(2)] .
    then show ?thesis using False po by (subst resolve_path.simps) (simp add: Let_def)
  qed
qed

lemma clean_groups:
  "clean_res res \<Longrightarrow> \<forall>g \<in> set gs. no_nl (fst g) \<Longrightarrow>
   clean_res (fst (fold (\<lambda>(p, offs) (res, os). resolve_path env p offs res os) gs (res, os)))"
proof (induction gs arbitrary: res os)
  case (Cons g gs)
  obtain p offs where g: "g = (p, offs)" by (cases g)
  obtain res1 os1 where r: "resolve_path env p offs res os = (res1, os1)" by force
  have "clean_res res1" using clean_resolve_path [OF Cons.prems(1), of p env offs os] Cons.prems(2) r g by simp
  from Cons.IH [OF this, of os1] Cons.prems(2) show ?case by (simp add: g r)
qed simp

lemma keys_group_fold:
  "fst ` set (fold (\<lambda>(p, off) m. omap_upd p (\<lambda>old. (case old of None \<Rightarrow> [] | Some v \<Rightarrow> v) @ [off]) m) xs m)
     = fst ` set m \<union> fst ` set xs"
proof (induction xs arbitrary: m)
  case (Cons x xs)
  then show ?case by (cases x) (simp add: keys_omap_upd)
qed simp

lemma clean_batch:
  assumes "\<forall>x \<in> set todo. no_nl (fst x)"
  shows "clean_res (fst (BatchResolveUserSymbols env todo os))"
proof -
  have "fst ` set (group_by_path todo) = fst ` set todo"
    unfolding group_by_path_def keys_group_fold by simp
  moreover have "\<forall>p \<in> fst ` set todo. no_nl p" using assms by simp
  ultimately have "\<forall>p \<in> fst ` set (group_by_path todo). no_nl p" by (simp only:)
  then have "\<forall>g \<in> set (group_by_path todo). no_nl (fst g)" by simp
  then show ?thesis unfolding BatchResolveUserSymbols_def by (intro clean_groups) (simp add: clean_res_def)
qed

lemma ResolveKsym_no_nl: "no_nl (ResolveKsym (ReadKallsyms os) addr)"
proof -
  have line: "parse_kallsyms_line l = Some (a, n) \<Longrightarrow> no_nl n" for l a n
  proof -
    have "is_space (CHR 0x0A)" by (simp add: is_space_def)
    then have "no_nl (takeWhile (\<lambda>c. \<not> is_space c) xs)" for xs by (auto dest: set_takeWhileD)
    moreover assume "parse_kallsyms_line l = Some (a, n)"
    ultimately show ?thesis
      by (auto simp: parse_kallsyms_line_def Let_def split: option.splits list.splits if_splits)
  qed
  have "(\<forall>e \<in> set syms. no_nl (snd e)) \<Longrightarrow> \<forall>e \<in> set (kallsyms_loop ls syms). no_nl (snd e)" for ls syms
  proof (induction ls arbitrary: syms)
    case (Cons l ls)
    show ?case
    proof (cases "parse_kallsyms_line l")
      case None
      then show ?thesis using Cons by simp
    next
      case (Some p)
      obtain a n where p: "p = (a, n)" by (cases p)
      have "\<forall>e \<in> set (omap_upd a (\<lambda>_. n) syms). no_nl (snd e)"
        using Cons.prems line [of l a n] Some p set_omap_upd [of a n syms] by auto
      then show ?thesis using Cons.IH Some p by simp
    qed
  qed simp
  from this [of "[]"] have "\<forall>e \<in> set (ReadKallsyms os). no_nl (snd e)"
    by (cases "os_fs os ''/proc/kallsyms''") (simp_all add: ReadKallsyms_def)
  moreover have "last xs \<in> set (ReadKallsyms os)"
    if "xs = takeWhile (\<lambda>e. fst e \<le> addr) (ReadKallsyms os)" and "xs \<noteq> []" for xs
    using last_in_set [OF that(2)] set_takeWhileD unfolding that(1) by fast
  ultimately show ?thesis by (simp add: ResolveKsym_def Let_def)
qed

lemma ResolveUserFrame_clean:
  assumes "clean_cache c" and "clean_res res"
  shows "no_nl (fst (ResolveUserFrame os pid addr res c)) \<and> clean_cache (snd (ResolveUserFrame os pid addr res c))"
proof -
  have "no_nl (us_path m)" if "find_mapping (fst (ReadUserMaps os pid c)) addr = Some m" for m
    using clean_cache_read [OF assms(1), of os pid] that nth_mem
    by (fastforce simp: find_mapping_def find_Some_iff)
  then show ?thesis
    using clean_cache_read [OF assms(1), of os pid] assms(2) offset_name_no_nl show_hex_no_nl
    by (auto simp: ResolveUserFrame_def split_beta Let_def clean_res_def split: option.splits dest!: in_set_takeD)
qed

lemma resolve_user_frames_clean:
  "clean_cache c \<Longrightarrow> clean_res res \<Longrightarrow>
   (\<forall>f \<in> set (fst (resolve_user_frames os tgid res as c)). no_nl f)
   \<and> clean_cache (snd (resolve_user_frames os tgid res as c))"
proof (induction as arbitrary: c)
  case (Cons a as)
  obtain f c1 where r: "ResolveUserFrame os tgid a res c = (f, c1)" by force
  have "no_nl f \<and> clean_cache c1" using ResolveUserFrame_clean [OF Cons.prems, of os tgid a] r by simp
  then show ?case using Cons.IH [of c1] Cons.prems(2) by (simp add: r split_beta)
qed simp

lemma user_frames_clean:
  assumes "clean_cache c" and "clean_res res"
  shows "(\<forall>f \<in> set (fst (user_frames os res us key c)). no_nl f) \<and> clean_cache (snd (user_frames os res us key c))"
  using assms resolve_user_frames_clean [OF assms]
  by (simp add: user_frames_def split_beta split: option.split)

lemma append_frames_no_nl: "no_nl s \<Longrightarrow> \<forall>f \<in> set fs. no_nl f \<Longrightarrow> no_nl (append_frames s fs)"
  by (induction s fs rule: append_frames.induct) auto

lemma fold_stack_no_nl:
  assumes "\<forall>f \<in> set kfs. no_nl f" and "\<forall>f \<in> set ufs. no_nl f"
  shows "no_nl (fold_stack kfs ufs)"
  using append_frames_no_nl [OF append_frames_no_nl [of "[]" kfs] assms(2)] assms(1)
  by (simp add: fold_stack_def Let_def)

lemma kernel_frames_resolved: "\<exists>addrs. kernel_frames maps syms key = map (ResolveKsym syms) addrs"
proof (cases "read_stack maps (kern_stack_id key)")
  case (Some addrs)
  then have "kernel_frames maps syms key = map (ResolveKsym syms) (if kern_stack_id key \<ge> 0 then rev addrs else [])"
    by (simp add: kernel_frames_def rev_map)
  then show ?thesis ..
qed (simp add: kernel_frames_def)

lemma kernel_frames_no_nl: "\<forall>f \<in> set (kernel_frames maps (ReadKallsyms os) key). no_nl f"
proof -
  obtain addrs where "kernel_frames maps (ReadKallsyms os) key = map (ResolveKsym (ReadKallsyms os)) addrs"
    using kernel_frames_resolved by blast
  then show ?thesis by (simp add: ResolveKsym_no_nl)
qed

lemma fold_keys_clean:
  assumes "\<forall>k. \<forall>f \<in> set (kernel_frames maps syms k). no_nl f" and "clean_res res" and "clean_cache c"
    and "\<forall>k \<in> fst ` set folded. no_nl k"
  shows "(\<forall>k \<in> fst ` set (fst (fold_keys os maps syms res us keys c folded)). no_nl k)
    \<and> clean_cache (snd (fold_keys os maps syms res us keys c folded))"
  using assms(3,4)
proof (induction keys arbitrary: c folded)
  case (Cons e keys)
  obtain key n where e: "e = (key, n)" by (cases e)
  obtain ufs c1 where u: "user_frames os res us key c = (ufs, c1)" by force
  have c1: "\<forall>f \<in> set ufs. no_nl f" "clean_cache c1"
    using user_frames_clean [OF Cons.prems(1) assms(2), of os us key] u by simp_all
  have "no_nl (fold_stack (kernel_frames maps syms key) ufs)"
    using assms(1) c1(1) by (intro fold_stack_no_nl) simp_all
  then have "\<forall>k \<in> fst ` set (smap_add (fold_stack (kernel_frames maps syms key) ufs) n folded). no_nl k"
    using Cons.prems(2) by (simp add: keys_smap_add)
  from Cons.IH [OF c1(2) this] show ?case by (simp add: e u)
qed simp

lemma collect_user_clean:
  "clean_cache c \<Longrightarrow> \<forall>x \<in> set todo. no_nl (fst x) \<Longrightarrow>
   (case collect_user os maps keys us todo c of (us', todo', c') \<Rightarrow> (\<forall>x \<in> set todo'. no_nl (fst x)) \<and> clean_cache c')"
proof (induction keys arbitrary: us todo c)
  case (Cons key keys)
  obtain ms c1 where r: "ReadUserMaps os (sk_tgid key) c = (ms, c1)" by force
  have c1: "clean_cache c1" and ms: "\<forall>m \<in> set ms. no_nl (us_path m)"
    using clean_cache_read [OF Cons.prems(1), of os "sk_tgid key"] r by simp_all
  have "us_path m \<in> us_path ` set ms" if "find_mapping ms a = Some m" for m a
    using that by (auto simp: find_mapping_def find_Some_iff)
  then have "\<forall>x \<in> set (todo @ offsets_in ms addrs). no_nl (fst x)" for addrs
    using Cons.prems(2) ms by (fastforce simp: offsets_in_def List.map_filter_def split: option.splits)
  then show ?case
    using Cons.IH [OF c1] Cons.IH [OF Cons.prems] by (simp add: r split: option.split)
qed simp

lemma poll_fold_clean:
  assumes "clean_cache c"
  shows "(\<forall>k \<in> fst ` set (fst (poll_fold env maps c os)). no_nl k) \<and> clean_cache (fst (snd (poll_fold env maps c os)))"
proof -
  let ?keys = "collect_counts (counts maps)"
  obtain us todo c1 where u: "collect_user os maps (map fst ?keys) Map.empty [] c = (us, todo, c1)"
    by (cases "collect_user os maps (map fst ?keys) Map.empty [] c")
  have c1: "clean_cache c1" and todo: "\<forall>x \<in> set todo. no_nl (fst x)"
    using collect_user_clean [OF assms, of "[]" os maps "map fst ?keys" Map.empty] u by simp_all
  obtain res os1 where b: "BatchResolveUserSymbols env todo os = (res, os1)" by force
  have "clean_res res" using clean_batch [OF todo, of env os] b by simp
  from fold_keys_clean [OF _ this c1, of maps "ReadKallsyms os" "[]" os1 us ?keys] kernel_frames_no_nl
  show ?thesis by (simp add: poll_fold_def u b split_beta Let_def)
qed

section \<open>Which line a sample goes to\<close>

text \<open>The addresses recorded for a key, as \<^verbatim>\<open>poll\<close> reads them.\<close>

definition stack_addrs :: "bpf_maps \<Rightarrow> int \<Rightarrow> u64 list" where
  "stack_addrs maps i = (if i \<ge> 0 then (case read_stack maps i of None \<Rightarrow> [] | Some addrs \<Rightarrow> addrs) else [])"

definition names_key :: "bpf_maps \<Rightarrow> ksyms \<Rightarrow> stack_key \<Rightarrow> string \<Rightarrow> bool" where
  "names_key maps syms key s \<longleftrightarrow>
     (\<exists>ufs. s = fold_stack (rev (map (ResolveKsym syms) (stack_addrs maps (kern_stack_id key)))) ufs
            \<and> length ufs = length (stack_addrs maps (user_stack_id key)))"

lemma kernel_frames_eq: "kernel_frames maps syms key = rev (map (ResolveKsym syms) (stack_addrs maps (kern_stack_id key)))"
  by (simp add: kernel_frames_def stack_addrs_def split: option.split)

lemma length_resolve_user_frames: "length (fst (resolve_user_frames os tgid res as c)) = length as"
  by (induction as arbitrary: c) (simp_all add: split_beta Let_def)

lemma collect_user_stacks:
  "fst (collect_user os maps keys us todo c) (t, i) =
     (if (\<exists>k \<in> set keys. sk_tgid k = t \<and> user_stack_id k = i) \<and> i \<ge> 0 \<and> read_stack maps i \<noteq> None
      then read_stack maps i else us (t, i))"
proof (induction keys arbitrary: us todo c)
  case (Cons key keys)
  show ?case by (auto simp: Cons.IH split_beta split: option.splits)
qed simp

lemma user_frames_length:
  assumes "\<And>t i. us (t, i) = (if (\<exists>k \<in> set keys. sk_tgid k = t \<and> user_stack_id k = i) \<and> i \<ge> 0 \<and> read_stack maps i \<noteq> None
      then read_stack maps i else None)" and "key \<in> set keys"
  shows "length (fst (user_frames os res us key c)) = length (stack_addrs maps (user_stack_id key))"
proof (cases "user_stack_id key \<ge> 0")
  case True
  have "us (sk_tgid key, user_stack_id key) = read_stack maps (user_stack_id key)"
    using assms(2) True unfolding assms(1) by auto
  then show ?thesis
    by (cases "read_stack maps (user_stack_id key)")
      (simp_all add: user_frames_def stack_addrs_def split_beta length_resolve_user_frames)
qed (simp add: user_frames_def stack_addrs_def)

lemma fold_keys_names:
  assumes "\<And>key c. key \<in> fst ` set keys \<Longrightarrow>
      length (fst (user_frames os res us key c)) = length (stack_addrs maps (user_stack_id key))"
    and "smap_wf folded"
  shows "\<exists>names. list_all2 (names_key maps syms) (map fst keys) names
     \<and> fst ` set (fst (fold_keys os maps syms res us keys c folded)) = fst ` set folded \<union> set names
     \<and> (\<forall>s. smap_count (fst (fold_keys os maps syms res us keys c folded)) s =
            smap_count folded s + (\<Sum>(s', n) \<leftarrow> zip names (map snd keys). if s' = s then n else 0))"
  using assms
proof (induction keys arbitrary: c folded)
  case (Cons e keys)
  obtain key n where e: "e = (key, n)" by (cases e)
  obtain ufs c1 where u: "user_frames os res us key c = (ufs, c1)" by force
  let ?s = "fold_stack (kernel_frames maps syms key) ufs"
  have "names_key maps syms key ?s"
    using Cons.prems(1) [of key c] by (auto simp: names_key_def kernel_frames_eq e u)
  moreover obtain names where names: "list_all2 (names_key maps syms) (map fst keys) names"
    "fst ` set (fst (fold_keys os maps syms res us keys c1 (smap_add ?s n folded)))
       = fst ` set (smap_add ?s n folded) \<union> set names"
    "\<And>s. smap_count (fst (fold_keys os maps syms res us keys c1 (smap_add ?s n folded))) s =
       smap_count (smap_add ?s n folded) s + (\<Sum>(s', n) \<leftarrow> zip names (map snd keys). if s' = s then n else 0)"
    using Cons.IH [OF Cons.prems(1) smap_wf_add [OF Cons.prems(2)], of c1 ?s n] by force
  ultimately have "list_all2 (names_key maps syms) (map fst (e # keys)) (?s # names)" by (simp add: e)
  moreover have "smap_count (fst (fold_keys os maps syms res us (e # keys) c folded)) s =
      smap_count folded s + (\<Sum>(s', n) \<leftarrow> zip (?s # names) (map snd (e # keys)). if s' = s then n else 0)" for s
    using names(3) Cons.prems(2) by (simp add: e u smap_count_add)
  moreover have "fst ` set (fst (fold_keys os maps syms res us (e # keys) c folded))
      = fst ` set folded \<union> set (?s # names)"
    using names(2) by (simp add: e u keys_smap_add)
  ultimately show ?case by blast
qed simp

lemma poll_fold_names:
  "\<exists>names. list_all2 (names_key maps (ReadKallsyms os)) (map fst (collect_counts (counts maps))) names
     \<and> fst ` set (fst (poll_fold env maps c os)) = set names
     \<and> (\<forall>s. smap_count (fst (poll_fold env maps c os)) s =
            (\<Sum>(s', n) \<leftarrow> zip names (map snd (collect_counts (counts maps))). if s' = s then n else 0))"
proof -
  let ?keys = "collect_counts (counts maps)"
  obtain us todo c1 where u: "collect_user os maps (map fst ?keys) Map.empty [] c = (us, todo, c1)"
    by (cases "collect_user os maps (map fst ?keys) Map.empty [] c")
  obtain res os1 where b: "BatchResolveUserSymbols env todo os = (res, os1)" by force
  have "us (t, i) = (if (\<exists>k \<in> set (map fst ?keys). sk_tgid k = t \<and> user_stack_id k = i) \<and> i \<ge> 0 \<and> read_stack maps i \<noteq> None
      then read_stack maps i else None)" for t i
    using collect_user_stacks [of os maps "map fst ?keys" Map.empty "[]" c t i] u by simp
  from user_frames_length [OF this] have
    "length (fst (user_frames os1 res us key c)) = length (stack_addrs maps (user_stack_id key))"
    if "key \<in> fst ` set ?keys" for key c
    using that by simp
  from fold_keys_names [OF this, of ?keys "[]" "ReadKallsyms os" c1] obtain names where names:
    "list_all2 (names_key maps (ReadKallsyms os)) (map fst ?keys) names"
    "fst ` set (fst (fold_keys os1 maps (ReadKallsyms os) res us ?keys c1 [])) = set names"
    "\<forall>s. smap_count (fst (fold_keys os1 maps (ReadKallsyms os) res us ?keys c1 [])) s =
       smap_count [] s + (\<Sum>(s', n) \<leftarrow> zip names (map snd ?keys). if s' = s then n else 0)"
    by auto
  moreover have "fst (poll_fold env maps c os) = fst (fold_keys os1 maps (ReadKallsyms os) res us ?keys c1 [])"
    by (simp add: poll_fold_def u b split_beta Let_def)
  moreover have "smap_count [] s = 0" for s by (simp add: smap_count_def)
  ultimately show ?thesis by (intro exI [of _ names]) (simp only: add_0 simp_thms)
qed

section \<open>What poll guarantees\<close>

definition sample_maps :: bpf_maps where
  "sample_maps =
     \<lparr>target_pid = None,
      counts = [(\<lparr>sk_pid = 7, sk_tgid = 7, user_stack_id = -1, kern_stack_id = 5\<rparr>, 3)],
      stack_traces = (\<lambda>i. if i = 5 then Some [0x10] else None)\<rparr>"

definition sample_poll :: "bool \<times> string \<times> bpf_maps \<times> maps_cache \<times> os_state" where
  "sample_poll =
     EbpfLoader_poll sample_os_env (new_impl\<lparr>im_attached := True\<rparr>) sample_maps ''/tmp/o'' [] empty_cache sample_os"

lemma sample_poll_run:
  "\<exists>msg' maps' c' os'. EbpfLoader_poll sample_os_env (new_impl\<lparr>im_attached := True\<rparr>) sample_maps ''/tmp/o'' []
     empty_cache sample_os = (True, msg', maps', c', os')"
  by (simp add: EbpfLoader_poll_def split_beta write_file_def sample_os_env_def)



text \<open>
  C19. The collapsed file reads back.  Merging the file a successful poll wrote, as the continuous
  profiler does, adds exactly the probe's counts to any accumulated map, and writing what was read
  gives the same file: no symbol that gets into a stack contains a line break.  The cache of
  mappings keeps the property this rests on, which holds of the empty cache.
\<close>

theorem poll_reads_back:
  assumes "EbpfLoader_poll env im maps path msg c os = (True, msg', maps', c', os')" and "clean_cache c"
  shows "\<exists>content. os_fs os' path = Some content
    \<and> (\<forall>m0. smap_total (merge_content content m0) = smap_total m0 + sum_list (map snd (counts maps)))
    \<and> write_collapsed (merge_content content []) = content \<and> clean_cache c'"
proof -
  let ?m = "fst (poll_fold env maps c os)"
  have "c' = fst (snd (poll_fold env maps c os))"
    using assms(1) by (auto simp: EbpfLoader_poll_def Let_def split_beta split: if_splits option.splits)
  moreover have keys: "\<And>k. k \<in> fst ` set ?m \<Longrightarrow> no_nl k" and "clean_cache (fst (snd (poll_fold env maps c os)))"
    using poll_fold_clean [OF assms(2)] by blast+
  moreover have "merge_content (write_collapsed ?m) [] = ?m"
    using keys poll_fold_wf by (rule merge_written_empty)
  moreover have "smap_total (merge_content (write_collapsed ?m) m0) = smap_total m0 + sum_list (map snd (counts maps))" for m0
    using merge_written_total [OF keys] poll_fold_total by metis
  ultimately show ?thesis using poll_true [OF assms(1)] by metis
qed

theorem poll_reads_back_witness:
  "clean_cache empty_cache \<and> (case sample_poll of (ok, _, _, _, os') \<Rightarrow>
     ok \<and> (\<exists>content. os_fs os' ''/tmp/o'' = Some content \<and> smap_total (merge_content content []) = 3))"
proof -
  have clean: "clean_cache empty_cache" by (simp add: clean_cache_def empty_cache_def)
  from sample_poll_run obtain msg' maps' c' os' where run:
    "EbpfLoader_poll sample_os_env (new_impl\<lparr>im_attached := True\<rparr>) sample_maps ''/tmp/o'' []
       empty_cache sample_os = (True, msg', maps', c', os')" by blast
  from poll_reads_back [OF run clean] obtain content where content: "os_fs os' ''/tmp/o'' = Some content"
    "smap_total (merge_content content []) = smap_total [] + sum_list (map snd (counts sample_maps))" by blast
  moreover have "smap_total [] + sum_list (map snd (counts sample_maps)) = 3"
    by (simp add: sample_maps_def smap_total_def)
  ultimately show ?thesis by (simp add: clean sample_poll_def run)
qed

text \<open>
  What poll leaves in the probe's maps.  A poll that fails says why and leaves the maps as they
  were.  One that succeeds removes exactly the counted keys and exactly the stacks they refer to, so
  that no count is reported twice: a poll right after it finds nothing.
\<close>

theorem poll_empties_maps:
  assumes "EbpfLoader_poll env im maps path msg c os = (ok, msg', maps', c', os')"
  shows "(\<not> ok \<longrightarrow> maps' = maps \<and> msg' \<noteq> [])
    \<and> (ok \<longrightarrow> collect_counts (counts maps') = [] \<and> msg' = msg
         \<and> (distinct (map fst (counts maps)) \<longrightarrow> set (counts maps') = {e \<in> set (counts maps). snd e = 0})
         \<and> (\<forall>i. stack_traces maps' i =
              (if i \<ge> 0 \<and> (\<exists>(k, n) \<in> set (counts maps). n \<noteq> 0 \<and> (kern_stack_id k = i \<or> user_stack_id k = i))
               then None else stack_traces maps i)))"
proof (cases ok)
  case False
  then show ?thesis
    using assms by (auto simp: EbpfLoader_poll_def Let_def split_beta split: if_splits option.splits)
next
  case True
  let ?keys = "collect_counts (counts maps)"
  have maps': "maps' = clean_maps ?keys maps" using poll_true [of env im maps path msg c os] assms True by simp
  have "msg' = msg"
    using assms True by (auto simp: EbpfLoader_poll_def Let_def split_beta split: if_splits option.splits)
  moreover have "collect_counts (counts maps') = []"
    by (auto simp: maps' clean_maps_def collect_counts_def filter_empty_conv image_iff)
  moreover have "set (counts maps') = {e \<in> set (counts maps). snd e = 0}" if "distinct (map fst (counts maps))"
  proof -
    have "snd e = 0 \<longleftrightarrow> fst e \<notin> fst ` set ?keys" if "e \<in> set (counts maps)" for e
      using that eq_key_imp_eq_value [OF \<open>distinct (map fst (counts maps))\<close>, of "fst e" "snd e"]
      by (auto simp: collect_counts_def image_iff)
    then show ?thesis by (auto simp: maps' clean_maps_def)
  qed
  moreover have "stack_traces maps' i =
      (if i \<ge> 0 \<and> (\<exists>(k, n) \<in> set (counts maps). n \<noteq> 0 \<and> (kern_stack_id k = i \<or> user_stack_id k = i))
       then None else stack_traces maps i)" for i
  proof -
    have "i \<in> used_stack_ids ?keys \<longleftrightarrow>
        i \<ge> 0 \<and> (\<exists>(k, n) \<in> set (counts maps). n \<noteq> 0 \<and> (kern_stack_id k = i \<or> user_stack_id k = i))"
      by (auto simp: used_stack_ids_def collect_counts_def image_iff)
    then show ?thesis by (simp add: maps' clean_maps_def)
  qed
  ultimately show ?thesis using True by simp
qed

theorem poll_empties_maps_witness:
  "case sample_poll of (ok, _, maps', _, _) \<Rightarrow> ok \<and> counts maps' = [] \<and> stack_traces maps' 5 = None"
proof -
  from sample_poll_run obtain msg' maps' c' os' where run:
    "EbpfLoader_poll sample_os_env (new_impl\<lparr>im_attached := True\<rparr>) sample_maps ''/tmp/o'' []
       empty_cache sample_os = (True, msg', maps', c', os')" by blast
  have "set (counts maps') = {}" "stack_traces maps' 5 = None"
    using poll_empties_maps [OF run] by (simp_all add: sample_maps_def)
  then show ?thesis by (simp add: sample_poll_def run)
qed

text \<open>
  Depth of the stacks.  The map \<^verbatim>\<open>stack_traces\<close> is declared with a value of one
  64-bit word, so the kernel stores one address per stack; however deep the stacks were, each line
  poll writes then has at most one kernel and one user frame, although poll reads into a buffer
  of 64 addresses.
\<close>

theorem poll_depth:
  assumes "\<And>i v. stack_traces maps i = Some v \<Longrightarrow> length v \<le> STACK_VALUE_WORDS"
    and "EbpfLoader_poll env im maps path msg c os = (True, msg', maps', c', os')"
  shows "\<exists>m. os_fs os' path = Some (write_collapsed m)
    \<and> (\<forall>s n. (s, n) \<in> set m \<longrightarrow> (\<exists>kfs ufs. s = fold_stack kfs ufs \<and> length kfs \<le> 1 \<and> length ufs \<le> 1))"
proof -
  let ?m = "fst (poll_fold env maps c os)"
  have "length v \<le> STACK_VALUE_WORDS" if rs: "read_stack maps i = Some v" for i v
  proof -
    obtain w where w: "stack_traces maps i = Some w" "v = takeWhile (\<lambda>a. a \<noteq> 0) (take 64 w)"
      using rs by (auto simp: read_stack_def)
    then have "length v \<le> length w" using length_takeWhile_le [of "\<lambda>a. a \<noteq> 0" "take 64 w"] by simp
    then show ?thesis using assms(1) [OF w(1)] by simp
  qed
  then have depth: "length (stack_addrs maps i) \<le> 1" for i
    by (auto simp: stack_addrs_def STACK_VALUE_WORDS_def split: option.split)
  obtain names where names: "list_all2 (names_key maps (ReadKallsyms os)) (map fst (collect_counts (counts maps))) names"
    "fst ` set ?m = set names"
    using poll_fold_names [of maps os env c] by (elim exE conjE)
  have "\<exists>kfs ufs. s = fold_stack kfs ufs \<and> length kfs \<le> 1 \<and> length ufs \<le> 1" if "(s, n) \<in> set ?m" for s n
  proof -
    have "s \<in> set names" using that names(2) by force
    then obtain key where "names_key maps (ReadKallsyms os) key s"
      using names(1) by (auto simp: list_all2_conv_all_nth in_set_conv_nth)
    then obtain ufs where "s = fold_stack (rev (map (ResolveKsym (ReadKallsyms os)) (stack_addrs maps (kern_stack_id key)))) ufs"
      "length ufs \<le> 1"
      using depth unfolding names_key_def by auto
    then show ?thesis
      using depth [of "kern_stack_id key"]
      by (intro exI [of _ "rev (map (ResolveKsym (ReadKallsyms os)) (stack_addrs maps (kern_stack_id key)))"]
          exI [of _ ufs]) simp
  qed
  then show ?thesis using poll_true [OF assms(2)] by blast
qed

theorem poll_depth_witness:
  "case sample_poll of (ok, _, _, _, os') \<Rightarrow> ok \<and> (\<exists>m. os_fs os' ''/tmp/o'' = Some (write_collapsed m)
     \<and> (\<forall>s n. (s, n) \<in> set m \<longrightarrow> (\<exists>kfs ufs. s = fold_stack kfs ufs \<and> length kfs \<le> 1 \<and> length ufs \<le> 1)))"
proof -
  from sample_poll_run obtain msg' maps' c' os' where run:
    "EbpfLoader_poll sample_os_env (new_impl\<lparr>im_attached := True\<rparr>) sample_maps ''/tmp/o'' []
       empty_cache sample_os = (True, msg', maps', c', os')" by blast
  have "stack_traces sample_maps i = Some v \<Longrightarrow> length v \<le> STACK_VALUE_WORDS" for i v
    by (auto simp: sample_maps_def STACK_VALUE_WORDS_def split: if_splits)
  from poll_depth [OF this run] show ?thesis by (simp add: sample_poll_def run)
qed

end
