(* ===== verification/IProfiler.thy ===== *)
theory IProfiler
  imports OSModel Messages
begin

text \<open>
  The contract of the abstract class \<^verbatim>\<open>IProfiler\<close> of
  \<^verbatim>\<open>src/drop/common/src/profiler.h\<close>, as its callers rely on it: a failed
  \<^verbatim>\<open>record\<close> sets a message and leaves \<^verbatim>\<open>collected_files_\<close> alone, a
  successful one leaves the files to upload there.  The server takes an empty message for
  success, so a failure without a message would be reported as a finished task.
\<close>

type_synonym 's record_result = "bool \<times> string \<times> string list \<times> 's"

locale iprofiler =
  fixes rec :: "'e \<Rightarrow> task_desc \<Rightarrow> path \<Rightarrow> string \<Rightarrow> string list \<Rightarrow> 's \<Rightarrow> 's record_result outc"
  assumes rec_failed: "rec env task dir msg files s = Returns (False, msg', files', s') \<Longrightarrow>
      msg' \<noteq> [] \<and> files' = files"
    and rec_ok: "rec env task dir msg files s = Returns (True, msg', files', s') \<Longrightarrow> files' \<noteq> []"
begin

text \<open>What the worker puts into \<^verbatim>\<open>TaskResult.error_message\<close> tells success from failure.\<close>

lemma reported_error:
  assumes "rec env task dir msg files s = Returns (ok, msg', files', s')"
  shows "(if ok then [] else msg') = [] \<longleftrightarrow> ok"
  using assms rec_failed by (cases ok) auto

lemma files_of_fresh:
  assumes "rec env task dir msg [] s = Returns (ok, msg', files', s')"
  shows "files' \<noteq> [] \<longleftrightarrow> ok"
  using assms rec_failed rec_ok by (cases ok) auto

end

end
