(* ===== verification/PerfProfiler.thy ===== *)
theory PerfProfiler
  imports IProfiler
begin

text \<open>
  \<^verbatim>\<open>PerfProfiler\<close> of \<^verbatim>\<open>src/drop/common/src/perf_profiler.cpp\<close>: the command line of
  the \<^verbatim>\<open>perf record\<close> child, the wait under the watchdog, and every way the run is turned
  into a result and an error message.
\<close>

text \<open>
  The tail of standard error that goes into the message.  \<^verbatim>\<open>size() - 2\<close> wraps for a
  one-byte string, so the search then covers all of it.
\<close>

definition stderr_tail :: "string \<Rightarrow> string" where
  "stderr_tail s =
     (if s = [] then []
      else
        (let last_nl = (if length s = 1 then rfind_char (CHR 0x0A) s
                        else rfind_char_upto (CHR 0x0A) s (length s - 2));
             t = (case last_nl of None \<Rightarrow> s | Some i \<Rightarrow> drop (Suc i) s)
         in strip_back (\<lambda>c. c = CHR 0x0A) t))"

definition read_stderr :: "os_state \<Rightarrow> path \<Rightarrow> string" where
  "read_stderr os p = (case os_fs os p of None \<Rightarrow> [] | Some s \<Rightarrow> s)"

definition exit_message :: "string \<Rightarrow> nat \<Rightarrow> string \<Rightarrow> string" where
  "exit_message what code tail =
     what @ show_nat code @ (if tail \<noteq> [] then '': '' @ tail else [])"

definition perf_argv ::
  "int \<Rightarrow> string \<Rightarrow> string \<Rightarrow> int \<Rightarrow> int \<Rightarrow> path \<Rightarrow> string list" where
  "perf_argv hz callgraph event pid duration perf_data_path =
     [''perf'', ''record'', ''-F'', show_int hz, ''--call-graph'', callgraph, ''-e'', event]
     @ (if pid > 0 then [''-p'', show_int pid] else [])
     @ [''-o'', perf_data_path, ''--'', ''sleep'', show_int duration]"

definition perf_child ::
  "int \<Rightarrow> string \<Rightarrow> string \<Rightarrow> int \<Rightarrow> int \<Rightarrow> path \<Rightarrow> path \<Rightarrow> child_spec" where
  "perf_child hz callgraph event pid duration perf_data_path output_dir =
     \<lparr>cs_program = ''perf'',
      cs_argv = perf_argv hz callgraph event pid duration perf_data_path,
      cs_setpgid = True, cs_stdout = None, cs_stderr = Some (output_dir @ ''/perf.stderr.log''),
      cs_exec_error = ''execvp(perf) failed'' @ [CHR 0x0A]\<rparr>"

definition check_perf_data :: "path \<Rightarrow> string \<Rightarrow> os_state \<Rightarrow> (bool \<times> string \<times> os_state) outc" where
  "check_perf_data perf_data_path error_msg os =
     (if \<not> file_exists os perf_data_path
      then Returns (False, ''perf.data not found after collection'', os)
      else bind_outc (file_size os perf_data_path) (\<lambda>n.
             if n = 0 then Returns (False, ''perf.data is empty'', os) else Returns (True, error_msg, os)))"

definition runPerf ::
  "os_env \<Rightarrow> int \<Rightarrow> string \<Rightarrow> string \<Rightarrow> int \<Rightarrow> int \<Rightarrow> path \<Rightarrow> path \<Rightarrow> int \<Rightarrow>
   string \<Rightarrow> os_state \<Rightarrow> (bool \<times> string \<times> os_state) outc" where
  "runPerf env hz callgraph event pid duration perf_data_path output_dir timeout_sec error_msg os =
     (case fork_child env (perf_child hz callgraph event pid duration perf_data_path output_dir) os of
        (Inl e, os1) \<Rightarrow> Returns (False, ''fork() failed: '' @ e, os1)
      | (Inr child, os1) \<Rightarrow>
          (case wait_with_timeout env child timeout_sec of
             Hangs \<Rightarrow> Hangs
           | Throws x \<Rightarrow> Throws x
           | Returns (True, _) \<Rightarrow>
               Returns (False, ''collection timed out after '' @ show_int timeout_sec @ ''s'', os1)
           | Returns (False, Inl e) \<Rightarrow> Returns (False, ''waitpid failed: '' @ e, os1)
           | Returns (False, Inr (Exited c)) \<Rightarrow>
               if c \<noteq> 0
               then Returns (False, exit_message ''perf record exited with code '' c
                      (stderr_tail (read_stderr os1 (output_dir @ ''/perf.stderr.log''))), os1)
               else check_perf_data perf_data_path error_msg os1
           | Returns (False, Inr (Signaled sig)) \<Rightarrow>
               Returns (False, ''perf record killed by signal '' @ show_nat sig, os1)))"

definition perf_hz :: "record_argv \<Rightarrow> int" where
  "perf_hz argv = (let hz = int_of_u32 (argv_hz argv) in if hz \<le> 0 then 99 else hz)"

definition perf_duration :: "record_argv \<Rightarrow> int" where
  "perf_duration argv = (let d = int_of_u64 (argv_duration argv) in if d \<le> 0 then 10 else d)"

definition perf_callgraph :: "record_argv \<Rightarrow> string" where
  "perf_callgraph argv = (if argv_callgraph argv = [] then ''fp'' else argv_callgraph argv)"

definition perf_event :: "record_argv \<Rightarrow> string" where
  "perf_event argv = (if argv_event argv = [] then ''cpu-cycles'' else argv_event argv)"

text \<open>\<^verbatim>\<open>duration + 30\<close> is signed addition.\<close>

definition default_timeout :: "int \<Rightarrow> u32 \<Rightarrow> int res" where
  "default_timeout duration timeout_field =
     (let t = int_of_u32 timeout_field in if t \<le> 0 then int_add duration 30 else Inr t)"

definition PerfProfiler_record ::
  "os_env \<Rightarrow> task_desc \<Rightarrow> path \<Rightarrow> string \<Rightarrow> string list \<Rightarrow> os_state \<Rightarrow>
   (bool \<times> string \<times> string list \<times> os_state) outc" where
  "PerfProfiler_record env task output_dir error_msg collected os =
     (let argv = td_sample_argv task;
          hz = perf_hz argv; duration = perf_duration argv; pid = int_of_u32 (argv_pid argv);
          callgraph = perf_callgraph argv;
          event = perf_event argv;
          perf_data_path = output_dir @ ''/perf.data''
      in bind_outc (create_directories env output_dir) (\<lambda>_.
         bind_outc (of_res (default_timeout duration (td_timeout_sec task))) (\<lambda>timeout_sec.
         bind_outc
           (if pid > 0
            then bind_outc (runPerf env hz callgraph event pid duration perf_data_path output_dir
                              timeout_sec error_msg os) (\<lambda>(ok, msg, os1).
                   if \<not> ok \<and> contains ''No such process'' msg
                   then runPerf env hz callgraph event 0 duration perf_data_path output_dir
                          timeout_sec msg os1
                   else Returns (ok, msg, os1))
            else runPerf env hz callgraph event 0 duration perf_data_path output_dir
                   timeout_sec error_msg os) (\<lambda>(ok, msg, os2).
         Returns (ok, msg, if ok then [''perf.data''] else collected, os2)))))"

definition PerfProfiler_type :: u32 where
  "PerfProfiler_type = 0"

section \<open>The message tail\<close>

lemma stderr_tail_line:
  assumes "CHR 0x0A \<notin> set line" and "line \<noteq> []"
  shows "stderr_tail (pre @ CHR 0x0A # line @ [CHR 0x0A]) = line"
proof -
  let ?s = "pre @ CHR 0x0A # line @ [CHR 0x0A]"
  have len: "length ?s = length pre + length line + 2" by simp
  have "take (Suc (length ?s - 2)) ?s = pre @ CHR 0x0A # line"
    unfolding len by (simp add: Suc_diff_le)
  then have "rfind_char_upto (CHR 0x0A) ?s (length ?s - 2) = Some (length pre)"
    unfolding rfind_char_upto_def using rfind_char_append_sep [OF assms(1), of pre] by simp
  moreover have "length ?s \<noteq> 1" using assms(2) by simp
  ultimately have "stderr_tail ?s = strip_back (\<lambda>c. c = CHR 0x0A) (line @ [CHR 0x0A])"
    by (simp add: stderr_tail_def Let_def)
  also have "last line \<noteq> CHR 0x0A" using assms last_in_set by metis
  then have "strip_back (\<lambda>c. c = CHR 0x0A) (line @ [CHR 0x0A]) = line"
    by (simp add: strip_back_snoc strip_back_id)
  finally show ?thesis .
qed

lemma runPerf_false_message:
  assumes "runPerf env hz cg ev pid dur path dir to msg os = Returns (False, msg', os')"
  shows "msg' \<noteq> []"
  using assms
  by (auto simp: runPerf_def check_perf_data_def exit_message_def split: prod.splits sum.splits outc.splits bool.splits
      wstatus.splits if_splits)

lemma runPerf_true:
  assumes "runPerf env hz cg ev pid dur path dir to msg os = Returns (True, msg', os')"
  shows "\<exists>n content. fork_child env (perf_child hz cg ev pid dur path dir) os = (Inr n, os')
     \<and> wait_with_timeout env n to = Returns (False, Inr (Exited 0))
     \<and> os_fs os' path = Some content \<and> content \<noteq> [] \<and> exec_ok env n"
proof -
  from assms obtain n content where
    "fork_child env (perf_child hz cg ev pid dur path dir) os = (Inr n, os')"
    and w: "wait_with_timeout env n to = Returns (False, Inr (Exited 0))"
    and "os_fs os' path = Some content" "content \<noteq> []"
    by (auto simp: runPerf_def check_perf_data_def file_exists_def file_size_def split: prod.splits sum.splits outc.splits
        bool.splits wstatus.splits if_splits)
  moreover from wait_status_exec [OF w] have "exec_ok env n" by simp
  ultimately show ?thesis by blast
qed

lemma PerfProfiler_record_cases:
  assumes "PerfProfiler_record env task dir msg files os = Returns (ok, msg', files', os')"
  obtains pid dur to msg0 os0 where
    "runPerf env (perf_hz (td_sample_argv task))
       (perf_callgraph (td_sample_argv task))
       (perf_event (td_sample_argv task))
       pid dur (dir @ ''/perf.data'') dir to msg0 os0 = Returns (ok, msg', os')"
    "dur = perf_duration (td_sample_argv task)"
    "default_timeout dur (td_timeout_sec task) = Inr to"
    "pid = int_of_u32 (argv_pid (td_sample_argv task)) \<or> pid = 0"
    "files' = (if ok then [''perf.data''] else files)"
  using assms
  by (auto simp: PerfProfiler_record_def Let_def split: if_splits prod.splits)

interpretation perf: iprofiler PerfProfiler_record
proof unfold_locales
  fix env task dir msg files s msg' files' s'
  show "msg' \<noteq> [] \<and> files' = files"
    if "PerfProfiler_record env task dir msg files s = Returns (False, msg', files', s')"
    using that by (rule PerfProfiler_record_cases) (auto dest: runPerf_false_message)
  show "files' \<noteq> []"
    if "PerfProfiler_record env task dir msg files s = Returns (True, msg', files', s')"
    using that by (rule PerfProfiler_record_cases) auto
qed

section \<open>Properties\<close>

text \<open>
  C31. A successful perf task.  When PerfProfiler's record returns true, perf really ran: the last
  child forked is \<^verbatim>\<open>perf record\<close> in a process group of its own with the requested
  (or default) frequency, call graph, event and duration, its exec succeeded, it exited with
  status 0 before the watchdog fired, and a non-empty \<^verbatim>\<open>perf.data\<close> is in the output
  directory and is the only collected file.  When it returns false there is an error message and
  no file is collected.
\<close>

theorem perf_record_sound:
  assumes "PerfProfiler_record env task dir msg files os = Returns (ok, msg', files', os')"
  shows "(ok \<longrightarrow> files' = [''perf.data'']
          \<and> (\<exists>content. os_fs os' (dir @ ''/perf.data'') = Some content \<and> content \<noteq> [])
          \<and> (\<exists>n pid to. os_children os' \<noteq> [] \<and> os_forks os' = Suc n
               \<and> cs_argv (last (os_children os')) =
                   perf_argv (perf_hz (td_sample_argv task))
                     (perf_callgraph (td_sample_argv task))
                     (perf_event (td_sample_argv task))
                     pid (perf_duration (td_sample_argv task)) (dir @ ''/perf.data'')
               \<and> (pid = int_of_u32 (argv_pid (td_sample_argv task)) \<or> pid = 0)
               \<and> cs_setpgid (last (os_children os')) \<and> exec_ok env n
               \<and> default_timeout (perf_duration (td_sample_argv task)) (td_timeout_sec task) = Inr to
               \<and> wait_with_timeout env n to = Returns (False, Inr (Exited 0))))
    \<and> (\<not> ok \<longrightarrow> msg' \<noteq> [] \<and> files' = files)"
proof (cases ok)
  case False
  then show ?thesis using assms perf.rec_failed [of env task dir msg files os msg' files' os'] by simp
next
  case True
  from assms show ?thesis
  proof (rule PerfProfiler_record_cases, goal_cases)
    case (1 pid dur to msg0 os0)
    from "1"(1) True have run: "runPerf env (perf_hz (td_sample_argv task))
         (perf_callgraph (td_sample_argv task)) (perf_event (td_sample_argv task))
         pid dur (dir @ ''/perf.data'') dir to msg0 os0 = Returns (True, msg', os')" by simp
    from runPerf_true [OF run] obtain n content where
      f: "fork_child env (perf_child (perf_hz (td_sample_argv task))
         (perf_callgraph (td_sample_argv task))
         (perf_event (td_sample_argv task))
         pid dur (dir @ ''/perf.data'') dir) os0 = (Inr n, os')"
      and w: "wait_with_timeout env n to = Returns (False, Inr (Exited 0))"
      and c: "os_fs os' (dir @ ''/perf.data'') = Some content" "content \<noteq> []" "exec_ok env n"
      by blast
    from f have "os_forks os' = Suc n" "os_children os' \<noteq> []" "last (os_children os') = perf_child (perf_hz (td_sample_argv task))
         (perf_callgraph (td_sample_argv task))
         (perf_event (td_sample_argv task))
         pid dur (dir @ ''/perf.data'') dir"
      by (auto simp: fork_child_def Let_def split: option.splits)
    then show ?case
      using True w c "1"(2-5) by (auto simp: perf_child_def)
  qed
qed

theorem perf_record_sound_witness:
  "case PerfProfiler_record
      (sample_os_env\<lparr>child_effect := (\<lambda>_ _ fs. fs(''/tmp/d/perf.data'' \<mapsto> ''data''))\<rparr>)
      default_task_desc ''/tmp/d'' [] [] sample_os of
     Returns (ok, msg', files', os') \<Rightarrow>
       ok \<and> files' = [''perf.data'']
       \<and> (\<exists>content. os_fs os' (''/tmp/d'' @ ''/perf.data'') = Some content \<and> content \<noteq> [])
   | _ \<Rightarrow> False"
proof -
  let ?env = "sample_os_env\<lparr>child_effect := (\<lambda>_ _ fs. fs(''/tmp/d/perf.data'' \<mapsto> ''data''))\<rparr>"
  have "\<exists>msg' files' os'. PerfProfiler_record ?env default_task_desc ''/tmp/d'' [] [] sample_os
      = Returns (True, msg', files', os')"
    by (simp add: PerfProfiler_record_def runPerf_def check_perf_data_def fork_child_def child_fs_def wait_with_timeout_def
        watch_child_def watch_init_def exit_code_def create_directories_def default_timeout_def int_add_def
        sample_os_env_def sample_os_def default_task_desc_def default_record_argv_def int_of_u32_def
        int_of_u64_def perf_duration_def file_exists_def file_size_def of_res_def Let_def)
  then obtain msg' files' os' where run:
    "PerfProfiler_record ?env default_task_desc ''/tmp/d'' [] [] sample_os = Returns (True, msg', files', os')"
    by blast
  show ?thesis using perf_record_sound [OF run] by (simp add: run)
qed

text \<open>
  Narrowing of the requested duration and the default timeout.  The 64-bit duration field is
  cut to its low 32 bits and read as signed, so record works with that value when it is positive
  and with 10 seconds otherwise; the default timeout of duration plus 30 is computed without
  overflow except when the cut duration is within 29 of the largest int, where the addition is
  undefined.
\<close>

theorem perf_duration_bounds:
  "perf_duration argv =
      (let n = uint (argv_duration argv) mod 2 ^ 32 in if 0 < n \<and> n < 2 ^ 31 then n else 10)
   \<and> 1 \<le> perf_duration argv \<and> perf_duration argv < 2 ^ 31
   \<and> default_timeout (perf_duration argv) t =
       (if 0 < int_of_u32 t then Inr (int_of_u32 t)
        else if perf_duration argv < 2 ^ 31 - 30 then Inr (perf_duration argv + 30)
        else Inl Signed_overflow)"
proof -
  let ?n = "uint (argv_duration argv) mod 2 ^ 32"
  have n: "0 \<le> ?n" "?n < 2 ^ 32" by simp_all
  have d: "perf_duration argv = (if 0 < ?n \<and> ?n < 2 ^ 31 then ?n else 10)"
    using n unfolding perf_duration_def int_of_u64_cases Let_def by (auto split: if_splits)
  have b: "1 \<le> perf_duration argv" "perf_duration argv < 2 ^ 31"
    unfolding d using n by (auto split: if_splits)
  have t: "default_timeout (perf_duration argv) t =
       (if 0 < int_of_u32 t then Inr (int_of_u32 t)
        else if perf_duration argv < 2 ^ 31 - 30 then Inr (perf_duration argv + 30)
        else Inl Signed_overflow)"
    using b by (simp add: default_timeout_def int_add_def Let_def)
  show ?thesis using d b t by (simp add: Let_def)
qed

end
