(* ===== verification/EbpfProfiler.thy ===== *)
theory EbpfProfiler
  imports EbpfProofs IProfiler PerfProfiler
begin

text \<open>
  \<^verbatim>\<open>EbpfProfiler\<close> of \<^verbatim>\<open>src/drop/common/src/ebpf_profiler.cpp\<close>: the search for
  the compiled probe, and one life cycle of a loader.  The environment of the profilers adds to
  the operating system what libbpf answers to the \<open>n\<close>-th loader and what its maps hold when
  \<^verbatim>\<open>poll\<close> reads them; the state adds the process-wide cache of mappings.
\<close>

section \<open>State and environment of the profilers\<close>

record prof_env =
  pe_os :: os_env
  pe_bpf :: "nat \<Rightarrow> bpf_env"
  pe_maps :: "nat \<Rightarrow> bpf_maps"

text \<open>\<open>ps_loaders\<close> is not in the code: it keeps each loader as its destructor left it.\<close>

record prof_state =
  ps_os :: os_state
  ps_cache :: maps_cache
  ps_loaders :: "ebpf_impl list"

definition destroy_loader :: "ebpf_impl \<Rightarrow> prof_state \<Rightarrow> prof_state" where
  "destroy_loader im s = s\<lparr>ps_loaders := ps_loaders s @ [EbpfLoader_dtor im]\<rparr>"

section \<open>record\<close>

text \<open>\<^verbatim>\<open>operator/\<close> of \<^verbatim>\<open>std::filesystem::path\<close> with a relative right operand.\<close>

definition path_join :: "path \<Rightarrow> path \<Rightarrow> path" where
  "path_join a b = (if a = [] \<or> last a = CHR ''/'' then a @ b else a @ ''/'' @ b)"

definition bpf_candidates :: "os_env \<Rightarrow> path list" where
  "bpf_candidates env =
     (case exe_link env of
        Some exe \<Rightarrow> if exe \<noteq> [] then [parent_path exe @ ''/../common/bpf/offcpu.bpf.o''] else []
      | None \<Rightarrow> [])
     @ [''/opt/drop/bpf/offcpu.bpf.o'',
        path_join (path_join (path_join (cwd env) ''common'') ''bpf'') ''offcpu.bpf.o'',
        ''/root/Drop/drop/common/bpf/offcpu.bpf.o'']"

definition find_bpf_object :: "os_env \<Rightarrow> os_state \<Rightarrow> path" where
  "find_bpf_object env os =
     (case List.find (file_exists os) (bpf_candidates env) of None \<Rightarrow> [] | Some c \<Rightarrow> c)"

text \<open>
  Every return destroys the loader (the time \<^verbatim>\<open>poll\<close> sleeps is not modelled); an exception from \<^verbatim>\<open>create_directories\<close> does too, but
  ends the task.
\<close>

definition EbpfProfiler_record ::
  "prof_env \<Rightarrow> task_desc \<Rightarrow> path \<Rightarrow> string \<Rightarrow> string list \<Rightarrow> prof_state \<Rightarrow> prof_state record_result outc" where
  "EbpfProfiler_record env task output_dir error_msg collected s =
     (let argv = td_sample_argv task;
          pid = int_of_u32 (argv_pid argv);
          bpf_o_path = find_bpf_object (pe_os env) (ps_os s);
          n = length (ps_loaders s)
      in if bpf_o_path = []
         then Returns (False, ''Cannot find offcpu.bpf.o (searched standard paths)'', collected, s)
         else
           (case EbpfLoader_load (pe_bpf env n) bpf_o_path error_msg new_impl of
              (False, msg, im) \<Rightarrow> Returns (False, msg, collected, destroy_loader im s)
            | (True, msg, im) \<Rightarrow>
                (case EbpfLoader_attach (pe_bpf env n) pid msg im of
                   (False, msg1, im1) \<Rightarrow> Returns (False, msg1, collected, destroy_loader im1 s)
                 | (True, msg1, im1) \<Rightarrow>
                     bind_outc (create_directories (pe_os env) output_dir) (\<lambda>_.
                       (let output_path = output_dir @ ''/collapsed_ebpf.txt'';
                            (ok, msg2, _, c, os) =
                              EbpfLoader_poll (pe_os env) im1 (pe_maps env n) output_path msg1 (ps_cache s) (ps_os s);
                            im2 = EbpfLoader_unload (EbpfLoader_detach im1)
                        in Returns (ok, msg2, if ok then [''collapsed_ebpf.txt''] else collected,
                             destroy_loader im2 (s\<lparr>ps_os := os, ps_cache := c\<rparr>)))))))"

definition EbpfProfiler_type :: u32 where
  "EbpfProfiler_type = 3"

section \<open>Properties\<close>

lemma load_message: "EbpfLoader_load env p msg im = (False, msg', im') \<Longrightarrow> msg' \<noteq> []"
  by (auto simp: EbpfLoader_load_def Let_def split: if_splits option.splits)

lemma load_ok: "EbpfLoader_load env p msg im = (True, msg', im') \<Longrightarrow> msg' = msg \<and> im_loaded im'"
  by (auto simp: EbpfLoader_load_def Let_def split: if_splits option.splits)

lemma attach_message: "EbpfLoader_attach env pid msg im = (False, msg', im') \<Longrightarrow> msg' \<noteq> []"
  by (auto simp: EbpfLoader_attach_def Let_def split: if_splits option.splits)

lemma attach_ok: "EbpfLoader_attach env pid msg im = (True, msg', im') \<Longrightarrow> msg' = msg \<and> im_attached im'"
  by (auto simp: EbpfLoader_attach_def Let_def split: if_splits option.splits)

lemma poll_message: "EbpfLoader_poll env im maps path msg c os = (False, msg', maps', c', os') \<Longrightarrow> msg' \<noteq> []"
  by (auto simp: EbpfLoader_poll_def Let_def split_beta split: if_splits option.splits)

lemma loader_step_message:
  "snd (snd (EbpfLoader_load env p msg im)) = loader_step env (C_load p) im"
  "snd (snd (EbpfLoader_attach env pid msg im)) = loader_step env (C_attach pid) im"
  by (simp_all add: EbpfLoader_load_def EbpfLoader_attach_def Let_def split: option.split) (auto simp: not_None_eq)

lemma loader_inv_load: "loader_inv im \<Longrightarrow> EbpfLoader_load env p msg im = (ok, msg', im') \<Longrightarrow> loader_inv im'"
  using loader_inv_step [of im env "C_load p"] loader_step_message(1) [of env p msg im] by simp

lemma loader_inv_attach: "loader_inv im \<Longrightarrow> EbpfLoader_attach env pid msg im = (ok, msg', im') \<Longrightarrow> loader_inv im'"
  using loader_inv_step [of im env "C_attach pid"] loader_step_message(2) [of env pid msg im] by simp

lemma loader_inv_stop: "loader_inv im \<Longrightarrow> loader_inv (EbpfLoader_unload (EbpfLoader_detach im))"
  using loader_inv_step [of _ undefined C_unload] loader_inv_step [of _ undefined C_detach] by simp

definition released :: "ebpf_impl \<Rightarrow> bool" where
  "released im \<longleftrightarrow> gh_opened im = gh_closed im \<and> gh_attached im = gh_destroyed im"

lemma released_dtor: "loader_inv im \<Longrightarrow> released (EbpfLoader_dtor im)"
  by (auto simp: released_def loader_inv_def EbpfLoader_dtor_def EbpfLoader_detach_def EbpfLoader_unload_def
      close_obj_def Let_def)

lemma EbpfProfiler_record_cases:
  assumes "EbpfProfiler_record env task dir msg files s = Returns (ok, msg', files', s')"
  obtains (no_object) "\<not> ok" "find_bpf_object (pe_os env) (ps_os s) = []" "msg' \<noteq> []" "files' = files" "s' = s"
  | (not_started) im where "\<not> ok" "msg' \<noteq> []" "files' = files" "s' = destroy_loader im s" "loader_inv im"
      "find_bpf_object (pe_os env) (ps_os s) \<noteq> []"
  | (polled) im c os maps' where "loader_inv im" "im_attached im"
      "EbpfLoader_poll (pe_os env) im (pe_maps env (length (ps_loaders s))) (dir @ ''/collapsed_ebpf.txt'') msg
         (ps_cache s) (ps_os s) = (ok, msg', maps', c, os)"
      "files' = (if ok then [''collapsed_ebpf.txt''] else files)"
      "s' = destroy_loader (EbpfLoader_unload (EbpfLoader_detach im)) (s\<lparr>ps_os := os, ps_cache := c\<rparr>)"
      "find_bpf_object (pe_os env) (ps_os s) \<noteq> []"
proof -
  let ?n = "length (ps_loaders s)" and ?p = "find_bpf_object (pe_os env) (ps_os s)"
  let ?pid = "int_of_u32 (argv_pid (td_sample_argv task))"
  show thesis
  proof (cases "?p = []")
    case True
    with assms have "\<not> ok" "msg' = ''Cannot find offcpu.bpf.o (searched standard paths)''" "files' = files" "s' = s"
      by (simp_all add: EbpfProfiler_record_def Let_def)
    then show thesis using no_object True by simp
  next
    case p: False
    obtain lok lmsg im where load: "EbpfLoader_load (pe_bpf env ?n) ?p msg new_impl = (lok, lmsg, im)"
      by (metis prod_cases3)
    from loader_inv_load [OF loader_inv_new load] have inv: "loader_inv im" .
    show thesis
    proof (cases lok)
      case False
      with assms p load have "\<not> ok" "msg' = lmsg" "files' = files" "s' = destroy_loader im s"
        by (simp_all add: EbpfProfiler_record_def Let_def)
      moreover have "lmsg \<noteq> []" using load_message load False by simp
      ultimately show thesis using not_started inv p by blast
    next
      case l: True
      obtain aok amsg im1 where att: "EbpfLoader_attach (pe_bpf env ?n) ?pid lmsg im = (aok, amsg, im1)"
        by (metis prod_cases3)
      from loader_inv_attach [OF inv att] have inv1: "loader_inv im1" .
      show thesis
      proof (cases aok)
        case False
        with assms p load l att have "\<not> ok" "msg' = amsg" "files' = files" "s' = destroy_loader im1 s"
          by (simp_all add: EbpfProfiler_record_def Let_def)
        moreover have "amsg \<noteq> []" using attach_message att False by simp
        ultimately show thesis using not_started inv1 p by blast
      next
        case True
        then have aok: "aok = True" by simp
        obtain pok pmsg maps' c os where poll:
          "EbpfLoader_poll (pe_os env) im1 (pe_maps env ?n) (dir @ ''/collapsed_ebpf.txt'') amsg (ps_cache s) (ps_os s)
             = (pok, pmsg, maps', c, os)"
          by (metis prod_cases5)
        with assms p load l att True have "ok = pok" "msg' = pmsg" "files' = (if ok then [''collapsed_ebpf.txt''] else files)"
          "s' = destroy_loader (EbpfLoader_unload (EbpfLoader_detach im1)) (s\<lparr>ps_os := os, ps_cache := c\<rparr>)"
          by (auto simp: EbpfProfiler_record_def Let_def)
        moreover have "lmsg = msg" using load_ok load l by simp
        then have "amsg = msg" "im_attached im1" using attach_ok [OF att [unfolded aok]] by simp_all
        ultimately show thesis using polled [OF inv1] p poll by blast
      qed
    qed
  qed
qed

interpretation ebpf: iprofiler EbpfProfiler_record
proof unfold_locales
  fix env task dir msg files s msg' files' s'
  show "msg' \<noteq> [] \<and> files' = files"
    if "EbpfProfiler_record env task dir msg files s = Returns (False, msg', files', s')"
    using that by (cases rule: EbpfProfiler_record_cases) (auto dest: poll_message)
  show "files' \<noteq> []"
    if "EbpfProfiler_record env task dir msg files s = Returns (True, msg', files', s')"
    using that by (cases rule: EbpfProfiler_record_cases) auto
qed

definition sample_prof_env :: prof_env where
  "sample_prof_env =
     \<lparr>pe_os = sample_os_env,
      pe_bpf = (\<lambda>_. \<lparr>be_open_error = (\<lambda>_. None), be_load_error = None, be_has_program = True,
                     be_has_map = (\<lambda>_. True), be_map_fd = (\<lambda>_. 5), be_update_error = None, be_attach_error = None\<rparr>),
      pe_maps = (\<lambda>_. sample_maps)\<rparr>"

definition sample_prof :: prof_state where
  "sample_prof =
     \<lparr>ps_os = sample_os\<lparr>os_fs := [''/opt/drop/bpf/offcpu.bpf.o'' \<mapsto> ''ELF'']\<rparr>, ps_cache = empty_cache, ps_loaders = []\<rparr>"

lemma sample_ebpf_run:
  "\<exists>msg' files' s'. EbpfProfiler_record sample_prof_env task dir [] [] sample_prof
     = Returns (True, msg', files', s')"
proof -
  have p: "find_bpf_object sample_os_env (ps_os sample_prof) = ''/opt/drop/bpf/offcpu.bpf.o''"
    by (simp add: find_bpf_object_def bpf_candidates_def sample_os_env_def sample_prof_def file_exists_def)
  show ?thesis
    by (simp add: EbpfProfiler_record_def sample_prof_env_def p EbpfLoader_load_def EbpfLoader_attach_def
        EbpfLoader_poll_def new_impl_def Let_def split_beta write_file_def)
      (simp add: sample_os_env_def create_directories_def)
qed

text \<open>
  C29. An eBPF task.  Whatever libbpf answers, record leaves no BPF object open and no program
  attached.  When it returns true, the one collected file is the collapsed form of a map whose
  counts add up to all counts of the probe; when it returns false there is a message and nothing
  is collected; without a compiled probe no loader is created at all.
\<close>

theorem ebpf_record_sound:
  assumes "EbpfProfiler_record env task dir msg files s = Returns (ok, msg', files', s')"
  shows "(\<exists>ls. ps_loaders s' = ps_loaders s @ ls \<and> length ls \<le> 1 \<and> list_all released ls
         \<and> (find_bpf_object (pe_os env) (ps_os s) = [] \<longrightarrow> ls = [] \<and> \<not> ok))
    \<and> (ok \<longrightarrow> files' = [''collapsed_ebpf.txt''] \<and>
         (\<exists>m. os_fs (ps_os s') (dir @ ''/collapsed_ebpf.txt'') = Some (write_collapsed m)
            \<and> smap_total m = sum_list (map snd (counts (pe_maps env (length (ps_loaders s)))))))
    \<and> (\<not> ok \<longrightarrow> msg' \<noteq> [] \<and> files' = files)"
  using assms
proof (cases rule: EbpfProfiler_record_cases)
  case (not_started im)
  then show ?thesis by (auto simp: destroy_loader_def released_dtor)
next
  case (polled im c os maps')
  have "released (EbpfLoader_dtor (EbpfLoader_unload (EbpfLoader_detach im)))"
    by (intro released_dtor loader_inv_stop polled(1))
  moreover have "ok \<longrightarrow> os_fs (ps_os s') (dir @ ''/collapsed_ebpf.txt'') = Some (write_collapsed
      (fst (poll_fold (pe_os env) (pe_maps env (length (ps_loaders s))) (ps_cache s) (ps_os s))))"
    using poll_true polled(3,5) by (cases ok) (auto simp: destroy_loader_def)
  moreover have "\<not> ok \<longrightarrow> msg' \<noteq> []" using poll_message polled(3) by (cases ok) auto
  ultimately show ?thesis
    using polled(4-6) by (auto simp: destroy_loader_def poll_fold_total)
qed simp

theorem ebpf_record_sound_witness:
  "case EbpfProfiler_record sample_prof_env default_task_desc ''/tmp/d'' [] [] sample_prof of
     Returns (ok, _, files', s') \<Rightarrow> ok \<and> files' = [''collapsed_ebpf.txt''] \<and> list_all released (ps_loaders s')
   | _ \<Rightarrow> False"
proof -
  from sample_ebpf_run [of default_task_desc "''/tmp/d''"] obtain msg' files' s' where run:
    "EbpfProfiler_record sample_prof_env default_task_desc ''/tmp/d'' [] [] sample_prof = Returns (True, msg', files', s')"
    by blast
  have "ps_loaders sample_prof = []" by (simp add: sample_prof_def)
  then show ?thesis using ebpf_record_sound [OF run] by (auto simp: run)
qed

end
