(* ===== verification/AsyncProfiler.thy ===== *)
theory AsyncProfiler
  imports PerfProfiler
begin

text \<open>
  \<^verbatim>\<open>AsyncProfilerProfiler\<close> of
  \<^verbatim>\<open>src/drop/common/src/async_profiler_profiler.cpp\<close>: the search for the
  \<^verbatim>\<open>asprof\<close> binary and a run of it under the watchdog.
\<close>

definition asprof_candidates :: "path list" where
  "asprof_candidates =
     [''/opt/async-profiler/bin/asprof'', ''/opt/drop/tools/async-profiler/bin/asprof'',
      ''/usr/local/bin/asprof'']"

text \<open>\<^verbatim>\<open>readlink\<close> gives no string when it fails or the link is empty.\<close>

definition findAsprof :: "os_env \<Rightarrow> os_state \<Rightarrow> path" where
  "findAsprof env os =
     (case filter (file_exists os) asprof_candidates of
        p # _ \<Rightarrow> p
      | [] \<Rightarrow>
          (let rel = (case exe_link env of
                        Some exe \<Rightarrow> if exe \<noteq> [] then Some (parent_path exe @ ''/../tools/async-profiler/bin/asprof'')
                                    else None
                      | None \<Rightarrow> None)
           in case rel of
                Some r \<Rightarrow> if file_exists os r then canonical env r
                          else (case env_var env ''DROP_TOOLS_DIR'' of
                                  None \<Rightarrow> []
                                | Some d \<Rightarrow> let p = d @ ''/async-profiler/bin/asprof''
                                           in if file_exists os p then p else [])
              | None \<Rightarrow> (case env_var env ''DROP_TOOLS_DIR'' of
                           None \<Rightarrow> []
                         | Some d \<Rightarrow> let p = d @ ''/async-profiler/bin/asprof''
                                    in if file_exists os p then p else [])))"

definition asprof_argv :: "int \<Rightarrow> path \<Rightarrow> string \<Rightarrow> int \<Rightarrow> int \<Rightarrow> string list" where
  "asprof_argv duration output_path event interval_ns pid =
     [''asprof'', ''-d'', show_int duration, ''-f'', output_path, ''-e'', event,
      ''-i'', show_int interval_ns, show_int pid]"

definition asprof_child :: "path \<Rightarrow> string list \<Rightarrow> path \<Rightarrow> child_spec" where
  "asprof_child asprof args output_dir =
     \<lparr>cs_program = asprof, cs_argv = args, cs_setpgid = True,
      cs_stdout = Some (output_dir @ ''/asprof.stdout.log''),
      cs_stderr = Some (output_dir @ ''/asprof.stderr.log''),
      cs_exec_error = ''execvp(asprof) failed'' @ [CHR 0x0A]\<rparr>"

text \<open>From \<^verbatim>\<open>fork\<close> to the end of \<^verbatim>\<open>record\<close>.\<close>

definition run_asprof ::
  "os_env \<Rightarrow> path \<Rightarrow> string list \<Rightarrow> path \<Rightarrow> path \<Rightarrow> int \<Rightarrow> string \<Rightarrow> string list \<Rightarrow> os_state \<Rightarrow>
   os_state record_result outc" where
  "run_asprof env asprof args output_path output_dir timeout_sec error_msg collected os =
     (case fork_child env (asprof_child asprof args output_dir) os of
        (Inl e, os1) \<Rightarrow> Returns (False, ''fork() failed: '' @ e, collected, os1)
      | (Inr child, os1) \<Rightarrow>
          (case wait_with_timeout env child timeout_sec of
             Hangs \<Rightarrow> Hangs
           | Throws x \<Rightarrow> Throws x
           | Returns (True, _) \<Rightarrow>
               Returns (False, ''async-profiler timed out after '' @ show_int timeout_sec @ ''s'', collected, os1)
           | Returns (False, Inl e) \<Rightarrow> Returns (False, ''waitpid failed: '' @ e, collected, os1)
           | Returns (False, Inr (Exited c)) \<Rightarrow>
               if c \<noteq> 0
               then Returns (False, exit_message ''asprof exited with code '' c
                      (stderr_tail (read_stderr os1 (output_dir @ ''/asprof.stderr.log''))), collected, os1)
               else if \<not> file_exists os1 output_path
               then Returns (False, ''async_profiler.collapsed not found after collection'', collected, os1)
               else bind_outc (file_size os1 output_path) (\<lambda>n.
                      if n = 0 then Returns (False, ''async_profiler.collapsed is empty'', collected, os1)
                      else Returns (True, error_msg, [''async_profiler.collapsed''], os1))
           | Returns (False, Inr (Signaled sig)) \<Rightarrow>
               Returns (False, ''asprof killed by signal '' @ show_nat sig, collected, os1)))"

definition AsyncProfiler_record ::
  "os_env \<Rightarrow> task_desc \<Rightarrow> path \<Rightarrow> string \<Rightarrow> string list \<Rightarrow> os_state \<Rightarrow> os_state record_result outc" where
  "AsyncProfiler_record env task output_dir error_msg collected os =
     (let argv = td_sample_argv task;
          pid = int_of_u32 (argv_pid argv); duration = perf_duration argv; hz = perf_hz argv;
          event = (if argv_event argv = [] then ''cpu'' else argv_event argv)
      in if pid \<le> 0
         then Returns (False, ''async-profiler requires a valid PID (pid > 0)'', collected, os)
         else
           (let asprof = findAsprof env os
            in if asprof = []
               then Returns (False, ''asprof binary not found. Install async-profiler to /opt/async-profiler/ or set DROP_TOOLS_DIR'', collected, os)
               else
                 (let output_path = output_dir @ ''/async_profiler.collapsed''
                  in bind_outc (create_directories env output_dir) (\<lambda>_.
                     bind_outc (of_res (default_timeout duration (td_timeout_sec task))) (\<lambda>timeout_sec.
                     run_asprof env asprof (asprof_argv duration output_path event (1000000000 div hz) pid)
                       output_path output_dir timeout_sec error_msg collected os)))))"

definition AsyncProfiler_type :: u32 where
  "AsyncProfiler_type = 1"

section \<open>Properties\<close>

lemma run_asprof_false:
  assumes "run_asprof env a args path dir to msg files os = Returns (False, msg', files', os')"
  shows "msg' \<noteq> [] \<and> files' = files"
  using assms
  by (auto simp: run_asprof_def exit_message_def split: prod.splits sum.splits outc.splits bool.splits
      wstatus.splits if_splits)

lemma run_asprof_true:
  assumes "run_asprof env a args path dir to msg files os = Returns (True, msg', files', os')"
  shows "files' = [''async_profiler.collapsed'']
     \<and> (\<exists>n content. fork_child env (asprof_child a args dir) os = (Inr n, os')
         \<and> wait_with_timeout env n to = Returns (False, Inr (Exited 0))
         \<and> os_fs os' path = Some content \<and> content \<noteq> [] \<and> exec_ok env n)"
proof -
  from assms obtain n content where f: "files' = [''async_profiler.collapsed'']"
    "fork_child env (asprof_child a args dir) os = (Inr n, os')"
    and w: "wait_with_timeout env n to = Returns (False, Inr (Exited 0))"
    and c: "os_fs os' path = Some content" "content \<noteq> []"
    by (auto simp: run_asprof_def file_exists_def file_size_def split: prod.splits sum.splits outc.splits
        bool.splits wstatus.splits if_splits)
  moreover from wait_status_exec [OF w] have "exec_ok env n" by simp
  ultimately show ?thesis by blast
qed

lemma AsyncProfiler_record_ok:
  assumes "AsyncProfiler_record env task dir msg files os = Returns (True, msg', files', os')"
  obtains to where "0 < int_of_u32 (argv_pid (td_sample_argv task))" "findAsprof env os \<noteq> []"
    "default_timeout (perf_duration (td_sample_argv task)) (td_timeout_sec task) = Inr to"
    "run_asprof env (findAsprof env os)
       (asprof_argv (perf_duration (td_sample_argv task)) (dir @ ''/async_profiler.collapsed'')
         (if argv_event (td_sample_argv task) = [] then ''cpu'' else argv_event (td_sample_argv task))
         (1000000000 div perf_hz (td_sample_argv task)) (int_of_u32 (argv_pid (td_sample_argv task))))
       (dir @ ''/async_profiler.collapsed'') dir to msg files os = Returns (True, msg', files', os')"
  using assms by (auto simp: AsyncProfiler_record_def Let_def split: if_splits)

interpretation async: iprofiler AsyncProfiler_record
proof unfold_locales
  fix env task dir msg files s msg' files' s'
  show "msg' \<noteq> [] \<and> files' = files"
    if "AsyncProfiler_record env task dir msg files s = Returns (False, msg', files', s')"
    using that by (auto simp: AsyncProfiler_record_def Let_def split: if_splits dest: run_asprof_false)
  show "files' \<noteq> []"
    if "AsyncProfiler_record env task dir msg files s = Returns (True, msg', files', s')"
    using that by (rule AsyncProfiler_record_ok) (auto dest: run_asprof_true)
qed

text \<open>The binary that is run exists, up to the canonical name of the one beside the agent.\<close>

lemma findAsprof_exists:
  assumes "findAsprof env os \<noteq> []"
  shows "file_exists os (findAsprof env os)
     \<or> (\<exists>exe. exe_link env = Some exe
          \<and> file_exists os (parent_path exe @ ''/../tools/async-profiler/bin/asprof'')
          \<and> findAsprof env os = canonical env (parent_path exe @ ''/../tools/async-profiler/bin/asprof''))"
proof (cases "filter (file_exists os) asprof_candidates")
  case (Cons p ps)
  then have "p \<in> set (filter (file_exists os) asprof_candidates)" by simp
  then have "file_exists os p" unfolding set_filter by simp
  with Cons show ?thesis by (simp add: findAsprof_def)
next
  case Nil
  with assms show ?thesis by (auto simp: findAsprof_def Let_def split: option.splits if_splits)
qed

text \<open>
  C32. A successful async-profiler task.  When AsyncProfilerProfiler's record returns true, the
  requested pid is positive, an existing \<^verbatim>\<open>asprof\<close> was found and executed in its own
  process group with the requested (or default) duration and event and the sampling interval
  10^9 divided by the frequency, it exited with status 0 before the watchdog fired, and a
  non-empty \<^verbatim>\<open>async_profiler.collapsed\<close> is the collected file.  When it returns
  false there is an error message and no file is collected.
\<close>

theorem async_record_sound:
  assumes "AsyncProfiler_record env task dir msg files os = Returns (ok, msg', files', os')"
  shows "(ok \<longrightarrow> files' = [''async_profiler.collapsed'']
          \<and> (\<exists>content. os_fs os' (dir @ ''/async_profiler.collapsed'') = Some content \<and> content \<noteq> [])
          \<and> 0 < int_of_u32 (argv_pid (td_sample_argv task)) \<and> findAsprof env os \<noteq> []
          \<and> (\<exists>n to. os_forks os' = Suc n
               \<and> os_children os' = os_children os @ [asprof_child (findAsprof env os)
                   (asprof_argv (perf_duration (td_sample_argv task)) (dir @ ''/async_profiler.collapsed'')
                     (if argv_event (td_sample_argv task) = [] then ''cpu'' else argv_event (td_sample_argv task))
                     (1000000000 div perf_hz (td_sample_argv task)) (int_of_u32 (argv_pid (td_sample_argv task)))) dir]
               \<and> exec_ok env n
               \<and> default_timeout (perf_duration (td_sample_argv task)) (td_timeout_sec task) = Inr to
               \<and> wait_with_timeout env n to = Returns (False, Inr (Exited 0))))
    \<and> (\<not> ok \<longrightarrow> msg' \<noteq> [] \<and> files' = files)"
proof (cases ok)
  case False
  then show ?thesis using assms async.rec_failed [of env task dir msg files os msg' files' os'] by simp
next
  case True
  with assms have "AsyncProfiler_record env task dir msg files os = Returns (True, msg', files', os')" by simp
  then show ?thesis
  proof (rule AsyncProfiler_record_ok, goal_cases)
    case (1 to)
    from run_asprof_true [OF "1"(4)] show ?case
      using True "1"(1-3) by (auto simp: fork_child_def Let_def split: option.splits)
  qed
qed

theorem async_record_sound_witness:
  "case AsyncProfiler_record
      (sample_os_env\<lparr>child_effect := (\<lambda>_ _ fs. fs(''/tmp/d/async_profiler.collapsed'' \<mapsto> ''a 1''))\<rparr>)
      (default_task_desc\<lparr>td_sample_argv := default_record_argv\<lparr>argv_pid := 7\<rparr>\<rparr>) ''/tmp/d'' [] []
      (sample_os\<lparr>os_fs := [''/usr/local/bin/asprof'' \<mapsto> ''elf'']\<rparr>) of
     Returns (ok, msg', files', os') \<Rightarrow> ok \<and> files' = [''async_profiler.collapsed'']
   | _ \<Rightarrow> False"
proof -
  let ?env = "sample_os_env\<lparr>child_effect := (\<lambda>_ _ fs. fs(''/tmp/d/async_profiler.collapsed'' \<mapsto> ''a 1''))\<rparr>"
  let ?task = "default_task_desc\<lparr>td_sample_argv := default_record_argv\<lparr>argv_pid := 7\<rparr>\<rparr>"
  let ?os = "sample_os\<lparr>os_fs := [''/usr/local/bin/asprof'' \<mapsto> ''elf'']\<rparr>"
  have "\<exists>msg' files' os'. AsyncProfiler_record ?env ?task ''/tmp/d'' [] [] ?os = Returns (True, msg', files', os')"
    by (simp add: AsyncProfiler_record_def run_asprof_def findAsprof_def asprof_candidates_def fork_child_def
        child_fs_def wait_with_timeout_def watch_child_def watch_init_def exit_code_def
        create_directories_def default_timeout_def int_add_def sample_os_env_def sample_os_def
        default_task_desc_def default_record_argv_def int_of_u32_def int_of_u64_def perf_duration_def
        file_exists_def file_size_def of_res_def Let_def)
  then obtain msg' files' os' where run:
    "AsyncProfiler_record ?env ?task ''/tmp/d'' [] [] ?os = Returns (True, msg', files', os')"
    by blast
  show ?thesis using async_record_sound [OF run] by (simp add: run)
qed

end
