(* ===== verification/ScriptRunner.thy ===== *)
theory ScriptRunner
  imports PerfProfiler
begin

text \<open>
  \<^verbatim>\<open>ScriptRunner\<close> of \<^verbatim>\<open>src/drop/common/src/script_runner.cpp\<close>: the script is
  written to the output directory and run by \<^verbatim>\<open>/bin/sh\<close> under the watchdog.
\<close>

text \<open>The last line of standard error, after all trailing newlines are dropped.\<close>

definition script_tail :: "string \<Rightarrow> string" where
  "script_tail s =
     (let t = strip_back (\<lambda>c. c = CHR 0x0A) s
      in case rfind_char (CHR 0x0A) t of None \<Rightarrow> t | Some i \<Rightarrow> drop (Suc i) t)"

definition script_timeout :: "task_desc \<Rightarrow> int res" where
  "script_timeout task =
     (let t = int_of_u32 (td_timeout_sec task)
      in if t \<le> 0
         then (let duration = int_of_u64 (argv_duration (td_sample_argv task))
               in int_add (if duration > 0 then duration else 30) 30)
         else Inr t)"

definition script_child :: "path \<Rightarrow> path \<Rightarrow> child_spec" where
  "script_child script_path output_dir =
     \<lparr>cs_program = ''/bin/sh'', cs_argv = [''sh'', script_path], cs_setpgid = True,
      cs_stdout = Some (output_dir @ ''/script_output.txt''),
      cs_stderr = Some (output_dir @ ''/script_stderr.log''),
      cs_exec_error = ''execlp(/bin/sh) failed'' @ [CHR 0x0A]\<rparr>"

text \<open>From \<^verbatim>\<open>fork\<close> to the end of \<^verbatim>\<open>record\<close>.\<close>

definition run_script ::
  "os_env \<Rightarrow> path \<Rightarrow> path \<Rightarrow> int \<Rightarrow> string \<Rightarrow> string list \<Rightarrow> os_state \<Rightarrow> os_state record_result outc" where
  "run_script env script_path output_dir timeout_sec error_msg collected os =
     (case fork_child env (script_child script_path output_dir) os of
        (Inl e, os1) \<Rightarrow> Returns (False, ''fork() failed: '' @ e, collected, os1)
      | (Inr child, os1) \<Rightarrow>
          (case wait_with_timeout env child timeout_sec of
             Hangs \<Rightarrow> Hangs
           | Throws x \<Rightarrow> Throws x
           | Returns (True, _) \<Rightarrow>
               Returns (False, ''script timed out after '' @ show_int timeout_sec @ ''s'', collected, os1)
           | Returns (False, Inl e) \<Rightarrow> Returns (False, ''waitpid failed: '' @ e, collected, os1)
           | Returns (False, Inr (Exited c)) \<Rightarrow>
               if c \<noteq> 0
               then Returns (False, exit_message ''script exited with code '' c
                      (script_tail (read_stderr os1 (output_dir @ ''/script_stderr.log''))), collected, os1)
               else Returns (True, error_msg, [''script_output.txt''], os1)
           | Returns (False, Inr (Signaled sig)) \<Rightarrow>
               Returns (False, ''script killed by signal '' @ show_nat sig, collected, os1)))"

definition ScriptRunner_record ::
  "os_env \<Rightarrow> task_desc \<Rightarrow> path \<Rightarrow> string \<Rightarrow> string list \<Rightarrow> os_state \<Rightarrow> os_state record_result outc" where
  "ScriptRunner_record env task output_dir error_msg collected os =
     (if td_script_content task = []
      then Returns (False, ''script_content is empty'', collected, os)
      else
        (let script_path = output_dir @ ''/script.sh''
         in bind_outc (create_directories env output_dir) (\<lambda>_.
            case write_file env script_path (td_script_content task) os of
              None \<Rightarrow> Returns (False, ''failed to create script file: '' @ script_path, collected, os)
            | Some os1 \<Rightarrow>
                (case chmod_error env script_path of
                   Some e \<Rightarrow> Returns (False, ''chmod failed: '' @ e, collected, os1)
                 | None \<Rightarrow>
                     bind_outc (of_res (script_timeout task)) (\<lambda>timeout_sec.
                       run_script env script_path output_dir timeout_sec error_msg collected os1)))))"

definition ScriptRunner_type :: u32 where
  "ScriptRunner_type = 5"

section \<open>Properties\<close>

lemma run_script_false:
  assumes "run_script env path dir to msg files os = Returns (False, msg', files', os')"
  shows "msg' \<noteq> [] \<and> files' = files"
  using assms
  by (auto simp: run_script_def exit_message_def split: prod.splits sum.splits outc.splits bool.splits
      wstatus.splits if_splits)

lemma run_script_true:
  assumes "run_script env path dir to msg files os = Returns (True, msg', files', os')"
  shows "files' = [''script_output.txt'']
     \<and> (\<exists>n. fork_child env (script_child path dir) os = (Inr n, os')
         \<and> wait_with_timeout env n to = Returns (False, Inr (Exited 0)) \<and> exec_ok env n)"
proof -
  from assms obtain n where f: "files' = [''script_output.txt'']"
    "fork_child env (script_child path dir) os = (Inr n, os')"
    and w: "wait_with_timeout env n to = Returns (False, Inr (Exited 0))"
    by (auto simp: run_script_def split: prod.splits sum.splits outc.splits
        bool.splits wstatus.splits if_splits)
  moreover from wait_status_exec [OF w] have "exec_ok env n" by simp
  ultimately show ?thesis by blast
qed

lemma ScriptRunner_record_ok:
  assumes "ScriptRunner_record env task dir msg files os = Returns (True, msg', files', os')"
  obtains to os1 where "td_script_content task \<noteq> []" "open_ok env (dir @ ''/script.sh'')"
    "os1 = os\<lparr>os_fs := (os_fs os)(dir @ ''/script.sh'' \<mapsto> td_script_content task)\<rparr>"
    "script_timeout task = Inr to"
    "run_script env (dir @ ''/script.sh'') dir to msg files os1 = Returns (True, msg', files', os')"
  using assms
  by (auto simp: ScriptRunner_record_def write_file_def Let_def split: if_splits option.splits)

interpretation script: iprofiler ScriptRunner_record
proof unfold_locales
  fix env task dir msg files s msg' files' s'
  show "msg' \<noteq> [] \<and> files' = files"
    if "ScriptRunner_record env task dir msg files s = Returns (False, msg', files', s')"
    using that
    by (auto simp: ScriptRunner_record_def Let_def split: if_splits option.splits dest: run_script_false)
  show "files' \<noteq> []"
    if "ScriptRunner_record env task dir msg files s = Returns (True, msg', files', s')"
    using that by (rule ScriptRunner_record_ok) (auto dest: run_script_true)
qed

text \<open>
  C33. A successful script task.  When ScriptRunner's record returns true, the shell was started
  in its own process group on a file that held exactly the task's script at that moment, with
  its standard output going to \<^verbatim>\<open>script_output.txt\<close> (the one collected file), and it
  exited with status 0 before the watchdog fired.  When it returns false there is an error
  message and no file is collected; an empty script is never run.
\<close>

theorem script_record_sound:
  assumes "ScriptRunner_record env task dir msg files os = Returns (ok, msg', files', os')"
  shows "(ok \<longrightarrow> files' = [''script_output.txt''] \<and> td_script_content task \<noteq> []
          \<and> (\<exists>n to fs. os_forks os' = Suc n
               \<and> os_children os' = os_children os @ [script_child (dir @ ''/script.sh'') dir]
               \<and> fs (dir @ ''/script.sh'') = Some (td_script_content task)
               \<and> os_fs os' = child_fs env n (script_child (dir @ ''/script.sh'') dir) fs
               \<and> exec_ok env n \<and> script_timeout task = Inr to
               \<and> wait_with_timeout env n to = Returns (False, Inr (Exited 0))))
    \<and> (\<not> ok \<longrightarrow> msg' \<noteq> [] \<and> files' = files
         \<and> (td_script_content task = [] \<longrightarrow> os' = os))"
proof (cases ok)
  case False
  then show ?thesis
    using assms script.rec_failed [of env task dir msg files os msg' files' os']
    by (auto simp: ScriptRunner_record_def)
next
  case True
  with assms have "ScriptRunner_record env task dir msg files os = Returns (True, msg', files', os')" by simp
  then show ?thesis
  proof (rule ScriptRunner_record_ok, goal_cases)
    case (1 to os1)
    from run_script_true [OF "1"(5)] obtain n where n: "files' = [''script_output.txt'']"
      "fork_child env (script_child (dir @ ''/script.sh'') dir) os1 = (Inr n, os')"
      "wait_with_timeout env n to = Returns (False, Inr (Exited 0))" "exec_ok env n" by blast
    have "os_forks os' = Suc n" "os_children os' = os_children os @ [script_child (dir @ ''/script.sh'') dir]"
      "os_fs os' = child_fs env n (script_child (dir @ ''/script.sh'') dir) (os_fs os1)"
      "os_fs os1 (dir @ ''/script.sh'') = Some (td_script_content task)"
      using n(2) "1"(3) by (auto simp: fork_child_def Let_def split: option.splits)
    then show ?case using True n "1"(1,4) by blast
  qed
qed

theorem script_record_sound_witness:
  "case ScriptRunner_record sample_os_env (default_task_desc\<lparr>td_script_content := ''echo hi''\<rparr>) ''/tmp/d'' [] []
      sample_os of
     Returns (ok, msg', files', os') \<Rightarrow> ok \<and> files' = [''script_output.txt'']
   | _ \<Rightarrow> False"
proof -
  let ?task = "default_task_desc\<lparr>td_script_content := ''echo hi''\<rparr>"
  have "\<exists>msg' files' os'. ScriptRunner_record sample_os_env ?task ''/tmp/d'' [] [] sample_os
      = Returns (True, msg', files', os')"
    by (simp add: ScriptRunner_record_def run_script_def fork_child_def write_file_def
        child_fs_def wait_with_timeout_def watch_child_def watch_init_def exit_code_def
        create_directories_def script_timeout_def int_add_def sample_os_env_def sample_os_def
        default_task_desc_def default_record_argv_def int_of_u32_def int_of_u64_def of_res_def Let_def)
  then obtain msg' files' os' where run:
    "ScriptRunner_record sample_os_env ?task ''/tmp/d'' [] [] sample_os = Returns (True, msg', files', os')"
    by blast
  show ?thesis using script_record_sound [OF run] by (simp add: run)
qed

section \<open>Error details\<close>

lemma strip_back_replicate:
  "(l = [] \<or> \<not> P (last l)) \<Longrightarrow> P c \<Longrightarrow> strip_back P (l @ replicate k c) = l"
proof (induction k)
  case 0
  then show ?case by (simp add: strip_back_id)
next
  case (Suc k)
  have "l @ replicate (Suc k) c = (l @ replicate k c) @ [c]" by (simp add: replicate_append_same)
  then show ?case using Suc by (simp add: strip_back_snoc del: append_assoc)
qed

lemma script_tail_line:
  assumes "CHR 0x0A \<notin> set line" and "line \<noteq> []"
  shows "script_tail (pre @ CHR 0x0A # line @ replicate k (CHR 0x0A)) = line"
proof -
  have "last line \<noteq> CHR 0x0A" using assms last_in_set by metis
  then have "strip_back (\<lambda>c. c = CHR 0x0A) ((pre @ CHR 0x0A # line) @ replicate k (CHR 0x0A)) = pre @ CHR 0x0A # line"
    by (intro strip_back_replicate) (simp_all add: assms(2))
  then show ?thesis
    using assms(1) by (simp add: script_tail_def Let_def rfind_char_append_sep)
qed

lemma stderr_tail_upto:
  assumes "s = a @ CHR 0x0A # b @ [c]" and "CHR 0x0A \<notin> set b"
  shows "stderr_tail s = strip_back (\<lambda>c. c = CHR 0x0A) (b @ [c])"
proof -
  have len: "length s = length a + length b + 2" by (simp add: assms(1))
  have "take (Suc (length s - 2)) s = a @ CHR 0x0A # b"
    unfolding len assms(1) by (simp add: Suc_diff_le)
  then have "rfind_char_upto (CHR 0x0A) s (length s - 2) = Some (length a)"
    unfolding rfind_char_upto_def using rfind_char_append_sep [OF assms(2), of a] by simp
  then show ?thesis using len assms(1) by (simp add: stderr_tail_def Let_def)
qed

text \<open>
  Error details from standard error.  For output whose last non-empty line is \<open>line\<close>,
  followed by \<open>k\<close> newlines, the script runner reports exactly that line for every
  \<open>k\<close>; the perf and async-profiler variant does so only for \<open>k\<close> at most 1 and reports
  nothing when the output ends with an empty line.
\<close>

theorem stderr_tails:
  assumes "CHR 0x0A \<notin> set line" and "line \<noteq> []"
  shows "script_tail (pre @ CHR 0x0A # line @ replicate k (CHR 0x0A)) = line
    \<and> stderr_tail (pre @ CHR 0x0A # line @ replicate k (CHR 0x0A)) = (if k \<le> 1 then line else [])"
proof -
  let ?s = "pre @ CHR 0x0A # line @ replicate k (CHR 0x0A)"
  have ln: "last line \<noteq> CHR 0x0A" using assms last_in_set by metis
  consider "k = 0" | "k = 1" | "2 \<le> k" by linarith
  then have "stderr_tail ?s = (if k \<le> 1 then line else [])"
  proof cases
    case 1
    have "line = butlast line @ [last line]" using assms(2) by simp
    then have "?s = pre @ CHR 0x0A # butlast line @ [last line]" using 1 by simp
    moreover have "CHR 0x0A \<notin> set (butlast line)" using assms(1) in_set_butlastD by metis
    ultimately have "stderr_tail ?s = strip_back (\<lambda>c. c = CHR 0x0A) (butlast line @ [last line])"
      by (rule stderr_tail_upto)
    then show ?thesis using 1 assms(2) ln by (simp add: strip_back_id)
  next
    case 2
    then show ?thesis using stderr_tail_line [OF assms, of pre] by simp
  next
    case 3
    then obtain j where k: "k = Suc (Suc j)" by (metis Suc_le_D numeral_2_eq_2 Suc_le_mono)
    have "replicate k (CHR 0x0A) = replicate j (CHR 0x0A) @ [CHR 0x0A, CHR 0x0A]"
      unfolding k by (simp add: replicate_append_same [symmetric])
    then have "?s = (pre @ CHR 0x0A # line @ replicate j (CHR 0x0A)) @ CHR 0x0A # [] @ [CHR 0x0A]" by simp
    from stderr_tail_upto [OF this] show ?thesis using 3 strip_back_snoc [of _ "[]"] by simp
  qed
  then show ?thesis using script_tail_line [OF assms] by simp
qed

theorem stderr_tails_witness:
  "script_tail (''x'' @ CHR 0x0A # ''perf: no access'' @ replicate 2 (CHR 0x0A)) = ''perf: no access''
   \<and> stderr_tail (''x'' @ CHR 0x0A # ''perf: no access'' @ replicate 1 (CHR 0x0A)) = ''perf: no access''"
  using stderr_tails [of "''perf: no access''" "''x''" 2] stderr_tails [of "''perf: no access''" "''x''" 1]
  by simp

end
