(* ===== verification/ProfilerFactory.thy ===== *)
theory ProfilerFactory
  imports EbpfProfiler AsyncProfiler ScriptRunner
begin

text \<open>
  \<^verbatim>\<open>CreateProfiler\<close> of \<^verbatim>\<open>src/drop/common/src/profiler_factory.cpp\<close> and the
  virtual functions of \<^verbatim>\<open>IProfiler\<close> on the object it returns.  The three profilers
  that run a child process leave the cache and the loaders alone.
\<close>

datatype profiler_kind = PerfProfiler | AsyncProfilerProfiler | EbpfProfiler | ScriptRunner

definition CreateProfiler :: "u32 \<Rightarrow> profiler_kind option" where
  "CreateProfiler profiler_type =
     (if profiler_type = 0 then Some PerfProfiler
      else if profiler_type = 1 then Some AsyncProfilerProfiler
      else if profiler_type = 3 then Some EbpfProfiler
      else if profiler_type = 5 then Some ScriptRunner
      else None)"

fun profiler_type :: "profiler_kind \<Rightarrow> u32" where
  "profiler_type PerfProfiler = PerfProfiler_type"
| "profiler_type AsyncProfilerProfiler = AsyncProfiler_type"
| "profiler_type EbpfProfiler = EbpfProfiler_type"
| "profiler_type ScriptRunner = ScriptRunner_type"

definition on_os ::
  "(os_state \<Rightarrow> os_state record_result outc) \<Rightarrow> prof_state \<Rightarrow> prof_state record_result outc" where
  "on_os r s = bind_outc (r (ps_os s)) (\<lambda>(ok, msg, files, os). Returns (ok, msg, files, s\<lparr>ps_os := os\<rparr>))"

fun profiler_record ::
  "profiler_kind \<Rightarrow> prof_env \<Rightarrow> task_desc \<Rightarrow> path \<Rightarrow> string \<Rightarrow> string list \<Rightarrow> prof_state \<Rightarrow>
   prof_state record_result outc" where
  "profiler_record PerfProfiler env task dir msg files s = on_os (PerfProfiler_record (pe_os env) task dir msg files) s"
| "profiler_record AsyncProfilerProfiler env task dir msg files s =
     on_os (AsyncProfiler_record (pe_os env) task dir msg files) s"
| "profiler_record EbpfProfiler env task dir msg files s = EbpfProfiler_record env task dir msg files s"
| "profiler_record ScriptRunner env task dir msg files s = on_os (ScriptRunner_record (pe_os env) task dir msg files) s"

lemma on_os_Returns:
  "on_os r s = Returns (ok, msg, files, s') \<longleftrightarrow> (\<exists>os. r (ps_os s) = Returns (ok, msg, files, os) \<and> s' = s\<lparr>ps_os := os\<rparr>)"
  by (auto simp: on_os_def)

text \<open>Each kind of profiler keeps the contract, so the callers' lemmas hold for any of them.\<close>

interpretation created: iprofiler "profiler_record k" for k
proof unfold_locales
  fix env task dir msg files s msg' files' s'
  show "msg' \<noteq> [] \<and> files' = files"
    if "profiler_record k env task dir msg files s = Returns (False, msg', files', s')"
    using that perf.rec_failed async.rec_failed script.rec_failed ebpf.rec_failed
    by (cases k) (fastforce simp: on_os_Returns)+
  show "files' \<noteq> []"
    if "profiler_record k env task dir msg files s = Returns (True, msg', files', s')"
    using that perf.rec_ok async.rec_ok script.rec_ok ebpf.rec_ok
    by (cases k) (fastforce simp: on_os_Returns)+
qed

lemma CreateProfiler_Some: "CreateProfiler t = Some k \<longleftrightarrow> profiler_type k = t"
  by (cases k)
    (auto simp: CreateProfiler_def PerfProfiler_type_def AsyncProfiler_type_def EbpfProfiler_type_def ScriptRunner_type_def
      split: if_splits)

text \<open>The file each profiler collects.\<close>

fun output_name :: "profiler_kind \<Rightarrow> string" where
  "output_name PerfProfiler = ''perf.data''"
| "output_name AsyncProfilerProfiler = ''async_profiler.collapsed''"
| "output_name EbpfProfiler = ''collapsed_ebpf.txt''"
| "output_name ScriptRunner = ''script_output.txt''"

lemma profiler_record_files:
  assumes "profiler_record k env task dir msg files s = Returns (True, msg', files', s')"
  shows "files' = [output_name k]"
proof (cases k)
  case PerfProfiler
  then obtain os where "PerfProfiler_record (pe_os env) task dir msg files (ps_os s) = Returns (True, msg', files', os)"
    using assms by (auto simp: on_os_Returns)
  then show ?thesis using PerfProfiler by (cases rule: PerfProfiler_record_cases) simp
next
  case AsyncProfilerProfiler
  then obtain os where "AsyncProfiler_record (pe_os env) task dir msg files (ps_os s) = Returns (True, msg', files', os)"
    using assms by (auto simp: on_os_Returns)
  then show ?thesis
    using AsyncProfilerProfiler run_asprof_true by (cases rule: AsyncProfiler_record_ok) (metis output_name.simps(2))
next
  case EbpfProfiler
  then show ?thesis using assms by (auto elim!: EbpfProfiler_record_cases)
next
  case ScriptRunner
  then obtain os where "ScriptRunner_record (pe_os env) task dir msg files (ps_os s) = Returns (True, msg', files', os)"
    using assms by (auto simp: on_os_Returns)
  then show ?thesis
    using ScriptRunner run_script_true by (cases rule: ScriptRunner_record_ok) (metis output_name.simps(4))
qed

text \<open>
  C30. The factory and the contract of a profiler.  \<^verbatim>\<open>CreateProfiler\<close> knows exactly the
  types 0, 1, 3 and 5; the object it returns reports the type it was asked for; and whichever it
  is, record on a fresh object collects its one file on success and on failure collects nothing
  and sets a message, so that the message reported to the server is empty exactly on success.
\<close>

theorem factory_contract:
  assumes "CreateProfiler t = Some k" and "profiler_record k env task dir [] [] s = Returns (ok, msg, files, s')"
  shows "t \<in> {0, 1, 3, 5} \<and> profiler_type k = t \<and> files = (if ok then [output_name k] else [])
    \<and> ((if ok then [] else msg) = [] \<longleftrightarrow> ok)"
proof -
  have "t \<in> {0, 1, 3, 5}" using assms(1) by (auto simp: CreateProfiler_def split: if_splits)
  moreover have "profiler_type k = t" using assms(1) CreateProfiler_Some by simp
  moreover have "files = (if ok then [output_name k] else [])"
    using assms(2) profiler_record_files [of k env task dir "[]" "[]" s msg files s'] created.files_of_fresh [OF assms(2)]
    by (cases ok) simp_all
  moreover have "(if ok then [] else msg) = [] \<longleftrightarrow> ok" using assms(2) by (rule created.reported_error)
  ultimately show ?thesis by blast
qed

theorem factory_contract_witness:
  "case CreateProfiler 3 of
     Some k \<Rightarrow> (case profiler_record k sample_prof_env default_task_desc ''/tmp/d'' [] [] sample_prof of
                 Returns (ok, _, files, _) \<Rightarrow> ok \<and> files = [''collapsed_ebpf.txt'']
               | _ \<Rightarrow> False)
   | None \<Rightarrow> False"
proof -
  have k: "CreateProfiler 3 = Some EbpfProfiler" by (simp add: CreateProfiler_def)
  from sample_ebpf_run [of default_task_desc "''/tmp/d''"] obtain msg files s' where run:
    "profiler_record EbpfProfiler sample_prof_env default_task_desc ''/tmp/d'' [] [] sample_prof = Returns (True, msg, files, s')"
    by auto
  have "files = [''collapsed_ebpf.txt'']" using factory_contract [OF k run] by simp
  then show ?thesis using run by (simp add: k)
qed

end
