(* ===== verification/ContinuousProfiler.thy ===== *)
theory ContinuousProfiler
  imports ProfilerFactory
begin

text \<open>
  \<^verbatim>\<open>ContinuousProfiler\<close> of \<^verbatim>\<open>src/drop/common/src/continuous_profiler.cpp\<close>:
  bursts of an inner profiler whose collapsed files are merged in memory, and segments written,
  uploaded and registered every five minutes.  The loop runs until another thread calls
  \<^verbatim>\<open>stop\<close>: \<open>stop i\<close> is what the \<open>i\<close>-th load of
  \<^verbatim>\<open>stop_requested_\<close> gives, and the loop takes a bound on its iterations as fuel.
\<close>

section \<open>State\<close>

definition kSegmentSeconds :: int where
  "kSegmentSeconds = 300"

definition kSampleBurstSeconds :: int where
  "kSampleBurstSeconds = 30"

text \<open>
  The members of the class.  The last two fields are not in the code: the contents of the collapsed
  files merged so far, and the segments written, each with its start and what was in it.
\<close>

record cont_state =
  cp_stacks :: stack_map
  cp_segment_start :: int
  cp_apiserver :: string
  cp_flushed :: "string list"
  cp_merged :: "string list"
  cp_segments :: "(int \<times> stack_map) list"

definition new_continuous :: cont_state where
  "new_continuous =
     \<lparr>cp_stacks = [], cp_segment_start = 0, cp_apiserver = [], cp_flushed = [], cp_merged = [], cp_segments = []\<rparr>"

definition set_apiserver_addr :: "string \<Rightarrow> cont_state \<Rightarrow> cont_state" where
  "set_apiserver_addr addr cp = cp\<lparr>cp_apiserver := addr\<rparr>"

section \<open>One burst\<close>

definition continuous_hz :: "record_argv \<Rightarrow> int" where
  "continuous_hz argv = (let hz = int_of_u32 (argv_hz argv) in if hz \<le> 0 then 1 else hz)"

definition burst_task :: "task_desc \<Rightarrow> task_desc" where
  "burst_task task =
     default_task_desc\<lparr>
       td_task_id := td_task_id task, td_task_type := 0, td_profiler_type := td_profiler_type task,
       td_sample_argv := (td_sample_argv task)\<lparr>argv_duration := word_of_int kSampleBurstSeconds,
                            argv_hz := word_of_int (continuous_hz (td_sample_argv task))\<rparr>,
       td_timeout_sec := (if td_timeout_sec task > 0 then word_of_int (kSampleBurstSeconds + 30) else 0)\<rparr>"

definition merge_collapsed :: "path \<Rightarrow> os_state \<Rightarrow> cont_state \<Rightarrow> cont_state" where
  "merge_collapsed filepath os cp =
     (case os_fs os filepath of
        None \<Rightarrow> cp
      | Some content \<Rightarrow> cp\<lparr>cp_stacks := merge_content content (cp_stacks cp), cp_merged := cp_merged cp @ [content]\<rparr>)"

fun merge_files :: "path \<Rightarrow> string list \<Rightarrow> cont_state \<Rightarrow> os_state \<Rightarrow> cont_state \<times> os_state" where
  "merge_files output_dir [] cp os = (cp, os)"
| "merge_files output_dir (fname # fnames) cp os =
     (let fpath = output_dir @ ''/'' @ fname;
          cp1 = (if contains ''collapsed'' fname \<and> file_exists os fpath then merge_collapsed fpath os cp else cp)
      in merge_files output_dir fnames cp1 (remove_file fpath os))"

definition run_burst ::
  "prof_env \<Rightarrow> profiler_kind \<Rightarrow> task_desc \<Rightarrow> path \<Rightarrow> cont_state \<Rightarrow> prof_state \<Rightarrow> (cont_state \<times> prof_state) outc" where
  "run_burst env inner task output_dir cp s =
     bind_outc (profiler_record inner env (burst_task task) output_dir [] [] s) (\<lambda>(ok, burst_error, files, s1).
       if \<not> ok then Returns (cp, s1)
       else (let (cp1, os1) = merge_files output_dir files cp (ps_os s1) in Returns (cp1, s1\<lparr>ps_os := os1\<rparr>)))"

section \<open>Segments\<close>

definition quoted :: "string \<Rightarrow> string" where
  "quoted s = [CHR 0x27] @ s @ [CHR 0x27]"

text \<open>\<^verbatim>\<open>std::stoi\<close> under \<^verbatim>\<open>catch (...)\<close>, after the trailing line ends are dropped.\<close>

definition http_code :: "string \<Rightarrow> int" where
  "http_code output =
     (case stoi (strip_back (\<lambda>c. c = CHR 0x0A \<or> c = CHR 0x0D) output) of Inl _ \<Rightarrow> 0 | Inr n \<Rightarrow> n)"

text \<open>
  The path below the task: from after the last slash but one.  \<^verbatim>\<open>last_slash - 1\<close> wraps for
  a slash at the front, and the search then covers the whole string.
\<close>

definition relative_path :: "path \<Rightarrow> path" where
  "relative_path filepath =
     (case rfind_char (CHR ''/'') filepath of
        None \<Rightarrow> filepath
      | Some last_slash \<Rightarrow>
          (case (if last_slash = 0 then rfind_char (CHR ''/'') filepath
                 else rfind_char_upto (CHR ''/'') filepath (last_slash - 1)) of
             Some second_slash \<Rightarrow> drop (second_slash + 1) filepath
           | None \<Rightarrow> drop (last_slash + 1) filepath))"

definition upload_cmd :: "string \<Rightarrow> string \<Rightarrow> path \<Rightarrow> string" where
  "upload_cmd addr tid filepath =
     ''curl -sf -o /dev/null -w '' @ quoted ''%{http_code}'' @ '' -F '' @ quoted (''file=@'' @ filepath) @ '' ''
       @ quoted (addr @ ''/api/v1/tasks/'' @ tid @ ''/upload/'' @ relative_path filepath) @ '' 2>/dev/null''"

definition upload_segment ::
  "os_env \<Rightarrow> string \<Rightarrow> string \<Rightarrow> path \<Rightarrow> os_state \<Rightarrow> bool \<times> string \<times> os_state" where
  "upload_segment env addr tid filepath os =
     (case popen_read env (upload_cmd addr tid filepath) os of
        (None, os1) \<Rightarrow> (False, ''popen failed'', os1)
      | (Some (output, rc_zero), os1) \<Rightarrow>
          if \<not> rc_zero \<or> http_code output \<noteq> 200
          then (False, ''HTTP '' @ strip_back (\<lambda>c. c = CHR 0x0A \<or> c = CHR 0x0D) output, os1)
          else (True, tid @ ''/'' @ relative_path filepath, os1))"

definition segment_body :: "int \<Rightarrow> int \<Rightarrow> string \<Rightarrow> string" where
  "segment_body start_ts end_ts s3_key =
     (let q = [CHR 0x22]
      in ''{'' @ q @ ''start_ts'' @ q @ '':'' @ show_int start_ts @ '','' @ q @ ''end_ts'' @ q @ '':''
           @ show_int end_ts @ '','' @ q @ ''s3_key'' @ q @ '':'' @ q @ s3_key @ q @ ''}'')"

definition register_cmd :: "string \<Rightarrow> string \<Rightarrow> int \<Rightarrow> int \<Rightarrow> string \<Rightarrow> string" where
  "register_cmd addr tid start_ts end_ts s3_key =
     ''curl -sf -o /dev/null -w '' @ quoted ''%{http_code}'' @ '' -H '' @ quoted ''Content-Type: application/json''
       @ '' -d '' @ quoted (segment_body start_ts end_ts s3_key) @ '' ''
       @ quoted (addr @ ''/api/v1/tasks/'' @ tid @ ''/segments'') @ '' 2>/dev/null''"

definition register_segment ::
  "os_env \<Rightarrow> string \<Rightarrow> string \<Rightarrow> int \<Rightarrow> int \<Rightarrow> string \<Rightarrow> os_state \<Rightarrow> bool \<times> os_state" where
  "register_segment env addr tid start_ts end_ts s3_key os =
     (case popen_read env (register_cmd addr tid start_ts end_ts s3_key) os of
        (None, os1) \<Rightarrow> (False, os1)
      | (Some (output, rc_zero), os1) \<Rightarrow> (rc_zero \<and> http_code output = 200, os1))"

definition flush_segment ::
  "os_env \<Rightarrow> string \<Rightarrow> path \<Rightarrow> cont_state \<Rightarrow> os_state \<Rightarrow> (bool \<times> string \<times> cont_state \<times> os_state) outc" where
  "flush_segment env tid output_dir cp os =
     (let (now_ts, os0) = read_clock env os;
          ts_str = show_int (cp_segment_start cp);
          seg_dir = output_dir @ ''/'' @ ts_str;
          seg_file = seg_dir @ ''/collapsed.txt''
      in bind_outc (create_directories env seg_dir) (\<lambda>_.
         case write_file env seg_file (write_collapsed (cp_stacks cp)) os0 of
           None \<Rightarrow> Returns (False, ''cannot create segment file: '' @ seg_file, cp, os0)
         | Some os1 \<Rightarrow>
             (let cp1 = cp\<lparr>cp_stacks := [], cp_segments := cp_segments cp @ [(cp_segment_start cp, cp_stacks cp)]\<rparr>
              in case upload_segment env (cp_apiserver cp) tid seg_file os1 of
                   (False, _, os2) \<Rightarrow> Returns (False, ''upload failed for segment '' @ ts_str, cp1, os2)
                 | (True, cos_key, os2) \<Rightarrow>
                     (case register_segment env (cp_apiserver cp) tid (cp_segment_start cp) now_ts cos_key os2 of
                        (False, os3) \<Rightarrow> Returns (False, ''register segment failed for '' @ ts_str, cp1, os3)
                      | (True, os3) \<Rightarrow>
                          Returns (True, [], cp1\<lparr>cp_flushed := cp_flushed cp1 @ [ts_str @ ''/collapsed.txt'']\<rparr>, os3)))))"

section \<open>record\<close>

text \<open>
  \<^verbatim>\<open>stop\<close>, called before the \<open>n\<close>-th load of the flag: it is never cleared again.
\<close>

definition ContinuousProfiler_stop :: "nat \<Rightarrow> nat \<Rightarrow> bool" where
  "ContinuousProfiler_stop n i \<longleftrightarrow> n \<le> i"

text \<open>The body of the loop after the inner profiler is created.\<close>

definition cont_iteration ::
  "prof_env \<Rightarrow> profiler_kind \<Rightarrow> task_desc \<Rightarrow> path \<Rightarrow> cont_state \<Rightarrow> prof_state \<Rightarrow> (cont_state \<times> prof_state) outc" where
  "cont_iteration env inner task output_dir cp s =
     bind_outc (run_burst env inner task output_dir cp s) (\<lambda>(cp1, s1).
       (let (now_ts, os1) = read_clock (pe_os env) (ps_os s1)
        in if now_ts - cp_segment_start cp1 \<ge> kSegmentSeconds
           then bind_outc (flush_segment (pe_os env) (td_task_id task) output_dir cp1 os1) (\<lambda>(_, _, cp2, os2).
                  Returns (cp2\<lparr>cp_segment_start := now_ts\<rparr>, s1\<lparr>ps_os := os2\<rparr>))
           else Returns (cp1, s1\<lparr>ps_os := os1\<rparr>)))"

text \<open>The loop: stopped (\<open>True\<close>), or the inner profiler could not be created.\<close>

fun cont_loop ::
  "nat \<Rightarrow> prof_env \<Rightarrow> (nat \<Rightarrow> bool) \<Rightarrow> nat \<Rightarrow> task_desc \<Rightarrow> path \<Rightarrow> cont_state \<Rightarrow> prof_state \<Rightarrow>
   (bool \<times> cont_state \<times> prof_state) outc" where
  "cont_loop 0 env stop i task output_dir cp s = Hangs"
| "cont_loop (Suc fuel) env stop i task output_dir cp s =
     (if stop i then Returns (True, cp, s)
      else case CreateProfiler (td_profiler_type task) of
             None \<Rightarrow> Returns (False, cp, s)
           | Some inner \<Rightarrow>
               bind_outc (cont_iteration env inner task output_dir cp s) (\<lambda>(cp1, s1).
                 cont_loop fuel env stop (Suc i) task output_dir cp1 s1))"

definition ContinuousProfiler_record ::
  "nat \<Rightarrow> prof_env \<Rightarrow> (nat \<Rightarrow> bool) \<Rightarrow> task_desc \<Rightarrow> path \<Rightarrow> string \<Rightarrow> cont_state \<Rightarrow> prof_state \<Rightarrow>
   (bool \<times> string \<times> cont_state \<times> prof_state) outc" where
  "ContinuousProfiler_record fuel env stop task output_dir error_msg cp s =
     bind_outc (create_directories (pe_os env) output_dir) (\<lambda>_.
       (let (start_ts, os0) = read_clock (pe_os env) (ps_os s)
        in bind_outc (cont_loop fuel env stop 0 task output_dir (cp\<lparr>cp_segment_start := start_ts\<rparr>) (s\<lparr>ps_os := os0\<rparr>))
             (\<lambda>(stopped, cp1, s1).
               if \<not> stopped
               then Returns (False, ''unsupported inner profiler_type='' @ show_nat (unat (td_profiler_type task)), cp1, s1)
               else if cp_stacks cp1 \<noteq> []
               then bind_outc (flush_segment (pe_os env) (td_task_id task) output_dir cp1 (ps_os s1)) (\<lambda>(_, _, cp2, os2).
                      Returns (True, error_msg, cp2, s1\<lparr>ps_os := os2\<rparr>))
               else Returns (True, error_msg, cp1, s1))))"

definition ContinuousProfiler_collect_result :: "cont_state \<Rightarrow> string list" where
  "ContinuousProfiler_collect_result cp = cp_flushed cp"

definition ContinuousProfiler_type :: u32 where
  "ContinuousProfiler_type = 0"

end
