(* ===== verification/ContinuousProofs.thy ===== *)
theory ContinuousProofs
  imports ContinuousProfiler
begin

text \<open>
  What continuous profiling keeps: every merged sample is in exactly one segment or still in memory,
  segments do not overlap, the loop ends when it is told to, and what each inner profiler can
  contribute.
\<close>

section \<open>Merging\<close>



section \<open>The invariant of a run\<close>







lemma merge_files_keeps:
  "cp_segment_start (fst (merge_files dir files cp os)) = cp_segment_start cp
   \<and> cp_segments (fst (merge_files dir files cp os)) = cp_segments cp"
  by (induction dir files cp os rule: merge_files.induct)
    (simp_all add: Let_def merge_collapsed_def split: option.split)


text \<open>A flush either does not get to write, or moves everything into one new segment.\<close>

lemma flush_segment_cases:
  assumes "flush_segment env tid dir cp os = Returns (ok, msg, cp', os')"
  obtains (unwritten) "cp' = cp" "\<not> ok" "\<not> open_ok env (dir @ ''/'' @ show_int (cp_segment_start cp) @ ''/collapsed.txt'')"
  | (written) fl where "cp' = cp\<lparr>cp_stacks := [], cp_segments := cp_segments cp @ [(cp_segment_start cp, cp_stacks cp)],
        cp_flushed := cp_flushed cp @ fl\<rparr>"
      "fl = (if ok then [show_int (cp_segment_start cp) @ ''/collapsed.txt''] else [])"
proof -
  let ?start = "cp_segment_start cp" and ?os0 = "snd (read_clock env os)"
  let ?file = "dir @ ''/'' @ show_int ?start @ ''/collapsed.txt''"
  let ?cp1 = "cp\<lparr>cp_stacks := [], cp_segments := cp_segments cp @ [(?start, cp_stacks cp)]\<rparr>"
  show thesis
  proof (cases "open_ok env ?file")
    case False
    then have "cp' = cp" "\<not> ok"
      using assms by (auto simp: flush_segment_def write_file_def split_beta Let_def)
    then show thesis using unwritten False by blast
  next
    case True
    obtain os1 where w: "write_file env ?file (write_collapsed (cp_stacks cp)) ?os0 = Some os1"
      using True by (simp add: write_file_def)
    obtain uok key os2 where u: "upload_segment env (cp_apiserver cp) tid ?file os1 = (uok, key, os2)"
      by (metis prod_cases3)
    obtain rok os3 where r: "register_segment env (cp_apiserver cp) tid ?start (fst (read_clock env os)) key os2 = (rok, os3)"
      by force
    have "ok = (uok \<and> rok)"
      "cp' = (if uok \<and> rok then ?cp1\<lparr>cp_flushed := cp_flushed cp @ [show_int ?start @ ''/collapsed.txt'']\<rparr> else ?cp1)"
      using assms w u r by (cases uok; cases rok; simp add: flush_segment_def split_beta Let_def)+
    then show thesis
      using written [of "if ok then [show_int ?start @ ''/collapsed.txt''] else []"] by (cases ok) auto
  qed
qed




lemma iteration_cases:
  assumes "cont_iteration env inner task dir cp s = Returns (cp', s')"
  obtains (no_flush) s1 where "run_burst env inner task dir cp s = Returns (cp', s1)"
  | (flush) cp1 s1 ok msg cp2 os os2 now_ts where "run_burst env inner task dir cp s = Returns (cp1, s1)"
      "flush_segment (pe_os env) (td_task_id task) dir cp1 os = Returns (ok, msg, cp2, os2)"
      "cp' = cp2\<lparr>cp_segment_start := now_ts\<rparr>" "cp_segment_start cp1 + kSegmentSeconds \<le> now_ts"
proof -
  obtain cp1 s1 where b: "run_burst env inner task dir cp s = Returns (cp1, s1)"
    using assms by (auto simp: cont_iteration_def)
  let ?c = "read_clock (pe_os env) (ps_os s1)"
  show thesis
  proof (cases "fst ?c - cp_segment_start cp1 \<ge> kSegmentSeconds")
    case True
    then obtain ok msg cp2 os2 where
      "flush_segment (pe_os env) (td_task_id task) dir cp1 (snd ?c) = Returns (ok, msg, cp2, os2)"
      "cp' = cp2\<lparr>cp_segment_start := fst ?c\<rparr>"
      using assms b by (auto simp: cont_iteration_def split_beta Let_def)
    then show thesis using flush b True by force
  next
    case False
    then show thesis using no_flush assms b by (simp add: cont_iteration_def split_beta Let_def)
  qed
qed


text \<open>What an iteration keeps, the loop keeps.\<close>

lemma cont_loop_rule:
  assumes "\<And>inner cp s cp' s'. CreateProfiler (td_profiler_type task) = Some inner \<Longrightarrow>
      cont_iteration env inner task dir cp s = Returns (cp', s') \<Longrightarrow> P cp \<Longrightarrow> P cp'"
  shows "cont_loop fuel env stop i task dir cp s = Returns (stopped, cp', s') \<Longrightarrow> P cp \<Longrightarrow> P cp'"
proof (induction fuel arbitrary: i cp s)
  case (Suc fuel)
  show ?case
  proof (cases "stop i \<or> CreateProfiler (td_profiler_type task) = None")
    case True
    then show ?thesis using Suc.prems by (auto split: if_splits)
  next
    case False
    then obtain inner where inner: "CreateProfiler (td_profiler_type task) = Some inner" by blast
    then obtain cp1 s1 where it: "cont_iteration env inner task dir cp s = Returns (cp1, s1)"
      and l: "cont_loop fuel env stop (Suc i) task dir cp1 s1 = Returns (stopped, cp', s')"
      using Suc.prems(1) False by auto
    then show ?thesis using Suc.IH assms [OF inner it] Suc.prems(2) by blast
  qed
qed simp

lemma record_cases:
  assumes "ContinuousProfiler_record fuel env stop task dir msg cp s = Returns (ok, msg', cp', s')"
  obtains cp1 s1 where
    "cont_loop fuel env stop 0 task dir (cp\<lparr>cp_segment_start := fst (read_clock (pe_os env) (ps_os s))\<rparr>)
       (s\<lparr>ps_os := snd (read_clock (pe_os env) (ps_os s))\<rparr>) = Returns (ok, cp1, s1)"
    "cp' = cp1 \<and> (ok \<longrightarrow> cp_stacks cp1 = []) \<or>
     (\<exists>fok fmsg os'. ok \<and> flush_segment (pe_os env) (td_task_id task) dir cp1 (ps_os s1) = Returns (fok, fmsg, cp', os'))"
  using assms
  by (fastforce simp: ContinuousProfiler_record_def split_beta Let_def split: if_splits)

definition fresh_continuous :: "string \<Rightarrow> cont_state" where
  "fresh_continuous addr = set_apiserver_addr addr new_continuous"


section \<open>Termination\<close>

lemma flush_returns:
  assumes "\<And>p. mkdir_ok env p"
  shows "\<exists>ok msg cp' os'. flush_segment env tid dir cp os = Returns (ok, msg, cp', os')"
proof -
  have "\<exists>r. flush_segment env tid dir cp os = Returns r"
    using assms
    by (auto simp: flush_segment_def create_directories_def split_beta Let_def split: option.split prod.split bool.split)
  then show ?thesis by (metis prod_cases4)
qed

lemma iteration_returns:
  assumes "\<And>s. \<exists>r. profiler_record inner env (burst_task task) dir [] [] s = Returns r"
    and "\<And>p. mkdir_ok (pe_os env) p"
  shows "\<exists>cp' s'. cont_iteration env inner task dir cp s = Returns (cp', s')"
proof -
  from assms(1) [of s] obtain ok err files s1 where
    "profiler_record inner env (burst_task task) dir [] [] s = Returns (ok, err, files, s1)"
    by (metis prod_cases4)
  then obtain cp1 s2 where b: "run_burst env inner task dir cp s = Returns (cp1, s2)"
    by (cases ok) (auto simp: run_burst_def split_beta Let_def)
  obtain ok msg cp2 os2 where
    "flush_segment (pe_os env) (td_task_id task) dir cp1 (snd (read_clock (pe_os env) (ps_os s2))) = Returns (ok, msg, cp2, os2)"
    using flush_returns [OF assms(2)] by blast
  with b show ?thesis by (simp add: cont_iteration_def split_beta Let_def)
qed

lemma loop_returns:
  assumes burst: "\<And>inner s. CreateProfiler (td_profiler_type task) = Some inner \<Longrightarrow>
      \<exists>r. profiler_record inner env (burst_task task) dir [] [] s = Returns r"
    and mkdir: "\<And>p. mkdir_ok (pe_os env) p" and "stop (i + d)"
  shows "\<exists>stopped cp' s'. \<forall>fuel > d. cont_loop fuel env stop i task dir cp s = Returns (stopped, cp', s')"
  using assms(3)
proof (induction d arbitrary: i cp s)
  case 0
  have "cont_loop fuel env stop i task dir cp s = Returns (True, cp, s)" if "fuel > 0" for fuel
    using that 0 by (cases fuel) simp_all
  then show ?case by blast
next
  case (Suc d)
  show ?case
  proof (cases "stop i \<or> CreateProfiler (td_profiler_type task) = None")
    case True
    have "cont_loop fuel env stop i task dir cp s = Returns (stop i, cp, s)" if "fuel > Suc d" for fuel
      using that True by (cases fuel) auto
    then show ?thesis by blast
  next
    case False
    then obtain inner where inner: "CreateProfiler (td_profiler_type task) = Some inner" by blast
    obtain cp1 s1 where it: "cont_iteration env inner task dir cp s = Returns (cp1, s1)"
      using iteration_returns [OF burst [OF inner] mkdir] by blast
    have "stop (Suc i + d)" using Suc.prems by simp
    from Suc.IH [OF this] obtain r where
      r: "\<And>fuel. fuel > d \<Longrightarrow> cont_loop fuel env stop (Suc i) task dir cp1 s1 = Returns r" by (metis prod_cases3)
    have "cont_loop fuel env stop i task dir cp s = Returns r" if "fuel > Suc d" for fuel
      using that r False inner it by (cases fuel) auto
    then show ?thesis by (metis prod_cases3)
  qed
qed

lemma record_returns:
  assumes "\<And>inner s. CreateProfiler (td_profiler_type task) = Some inner \<Longrightarrow>
      \<exists>r. profiler_record inner env (burst_task task) dir [] [] s = Returns r"
    and "\<And>p. mkdir_ok (pe_os env) p" and "stop n"
  shows "\<exists>ok msg' cp' s'. \<forall>fuel > n. ContinuousProfiler_record fuel env stop task dir msg cp s = Returns (ok, msg', cp', s')"
proof -
  let ?c = "read_clock (pe_os env) (ps_os s)"
  from loop_returns [OF assms(1,2), of stop 0 n] assms(3) obtain stopped cp1 s1 where
    l: "\<And>fuel. fuel > n \<Longrightarrow> cont_loop fuel env stop 0 task dir (cp\<lparr>cp_segment_start := fst ?c\<rparr>) (s\<lparr>ps_os := snd ?c\<rparr>)
          = Returns (stopped, cp1, s1)" by (metis add_0)
  obtain fok fmsg cp2 os2 where
    f: "flush_segment (pe_os env) (td_task_id task) dir cp1 (ps_os s1) = Returns (fok, fmsg, cp2, os2)"
    using flush_returns [OF assms(2)] by blast
  let ?r = "if \<not> stopped then (False, ''unsupported inner profiler_type='' @ show_nat (unat (td_profiler_type task)), cp1, s1)
    else if cp_stacks cp1 \<noteq> [] then (True, msg, cp2, s1\<lparr>ps_os := os2\<rparr>) else (True, msg, cp1, s1)"
  have "ContinuousProfiler_record fuel env stop task dir msg cp s = Returns ?r" if "fuel > n" for fuel
    using l [OF that] f assms(2) by (simp add: ContinuousProfiler_record_def create_directories_def split_beta Let_def)
  then show ?thesis by (metis prod_cases4)
qed

lemma ebpf_returns:
  assumes "\<And>p. mkdir_ok (pe_os env) p"
  shows "\<exists>r. EbpfProfiler_record env task dir msg files s = Returns r"
  using assms
  by (auto simp: EbpfProfiler_record_def create_directories_def split_beta Let_def split: prod.split bool.split)

section \<open>Properties\<close>


definition stop_after_one :: "nat \<Rightarrow> bool" where
  "stop_after_one i \<longleftrightarrow> i = 1"

definition ebpf_task :: task_desc where
  "ebpf_task = default_task_desc\<lparr>td_task_id := ''t1'', td_task_type := 1, td_profiler_type := 3\<rparr>"


lemma sample_mkdir: "mkdir_ok (pe_os sample_prof_env) p"
  by (simp add: sample_prof_env_def sample_os_env_def)




section \<open>What the inner profilers contribute\<close>

text \<open>Nothing has been merged and every segment is empty.\<close>

definition nothing :: "cont_state \<Rightarrow> bool" where
  "nothing cp \<longleftrightarrow> cp_merged cp = [] \<and> cp_stacks cp = [] \<and> (\<forall>seg \<in> set (cp_segments cp). snd seg = [])"

lemma merge_files_uncollapsed:
  "list_all (\<lambda>f. \<not> contains ''collapsed'' f) files \<Longrightarrow> fst (merge_files dir files cp os) = cp"
  by (induction dir files cp os rule: merge_files.induct) (simp_all add: Let_def)

lemma uncollapsed_names:
  "\<not> contains ''collapsed'' (output_name PerfProfiler)" "\<not> contains ''collapsed'' (output_name ScriptRunner)"
  by code_simp+

lemma flush_nothing:
  assumes "flush_segment env tid dir cp os = Returns (ok, msg, cp', os')" and "nothing cp"
  shows "nothing cp'"
  using assms(1)
proof (cases rule: flush_segment_cases)
  case (written fl)
  then show ?thesis using assms(2) by (auto simp: nothing_def)
qed (use assms(2) in simp)

lemma run_burst_uncollapsed:
  assumes "run_burst env inner task dir cp s = Returns (cp', s')" and "\<not> contains ''collapsed'' (output_name inner)"
  shows "cp' = cp"
proof -
  obtain ok err files s1 where r: "profiler_record inner env (burst_task task) dir [] [] s = Returns (ok, err, files, s1)"
    using assms(1) by (auto simp: run_burst_def)
  show ?thesis
  proof (cases ok)
    case True
    with r have "files = [output_name inner]" by (simp add: profiler_record_files)
    then have "fst (merge_files dir files cp (ps_os s1)) = cp"
      using merge_files_uncollapsed assms(2) by simp
    then show ?thesis using assms(1) r True by (simp add: run_burst_def split_beta Let_def)
  qed (use assms(1) r in \<open>simp add: run_burst_def\<close>)
qed

lemma iteration_nothing:
  assumes "cont_iteration env inner task dir cp s = Returns (cp', s')" and "nothing cp"
    and "inner \<in> {PerfProfiler, ScriptRunner}"
  shows "nothing cp'"
  using assms(1)
proof (cases rule: iteration_cases)
  case (no_flush s1)
  have "\<not> contains ''collapsed'' (output_name inner)" using assms(3) uncollapsed_names by blast
  from run_burst_uncollapsed [OF no_flush this] show ?thesis using assms(2) by simp
next
  case (flush cp1 s1 ok msg cp2 os os2 now_ts)
  have "\<not> contains ''collapsed'' (output_name inner)" using assms(3) uncollapsed_names by blast
  from run_burst_uncollapsed [OF flush(1) this] have "cp1 = cp" .
  then show ?thesis using flush_nothing [OF flush(2)] assms(2) by (simp add: flush(3) nothing_def)
qed

text \<open>
  Continuous profiling with perf or a script collects nothing.  The files these profilers collect,
  \<^verbatim>\<open>perf.data\<close> and \<^verbatim>\<open>script_output.txt\<close>, are not collapsed files: they
  are removed without being merged, so after any run nothing was merged and every segment that
  was written is empty.
\<close>

theorem continuous_collects_nothing:
  assumes "ContinuousProfiler_record fuel env stop task dir msg (fresh_continuous addr) s = Returns (ok, msg', cp, s')"
    and "CreateProfiler (td_profiler_type task) = Some inner" and "inner \<in> {PerfProfiler, ScriptRunner}"
  shows "cp_merged cp = [] \<and> cp_stacks cp = [] \<and> (\<forall>(t, m) \<in> set (cp_segments cp). write_collapsed m = [])"
proof -
  have iter: "nothing cp'" if "CreateProfiler (td_profiler_type task) = Some k"
    "cont_iteration env k task dir cp s = Returns (cp', s')" "nothing cp" for k cp s cp' s'
    using iteration_nothing [OF that(2,3)] that(1) assms(2,3) by auto
  have fresh: "nothing ((fresh_continuous addr)\<lparr>cp_segment_start := t\<rparr>)" for t
    by (simp add: nothing_def fresh_continuous_def set_apiserver_addr_def new_continuous_def)
  from assms(1) have "nothing cp"
  proof (cases rule: record_cases)
    case (1 cp1 s1)
    have "nothing cp1"
      by (rule cont_loop_rule [where P = nothing, OF _ "1"(1) fresh]) (rule iter)
    then show ?thesis using "1"(2) flush_nothing by blast
  qed
  then show ?thesis by (auto simp: nothing_def write_collapsed_def)
qed

lemma sample_wait: "wait_with_timeout sample_os_env n t = Returns (False, Inr (Exited 0))"
  by (simp add: wait_with_timeout_def watch_child_def watch_init_def exit_code_def sample_os_env_def)

lemma sample_runPerf: "\<exists>r. runPerf sample_os_env hz cg ev pid dur path dir t msg os = Returns r"
proof -
  obtain n os1 where f: "fork_child sample_os_env (perf_child hz cg ev pid dur path dir) os = (Inr n, os1)"
    by (simp add: fork_child_def sample_os_env_def Let_def)
  show ?thesis
    by (cases "os_fs os1 path") (auto simp: runPerf_def check_perf_data_def f sample_wait file_exists_def file_size_def)
qed

lemma sample_perf_bursts:
  assumes "CreateProfiler (td_profiler_type default_task_desc) = Some inner"
  shows "\<exists>r. profiler_record inner sample_prof_env (burst_task default_task_desc) dir [] [] s = Returns r"
proof -
  have inner: "inner = PerfProfiler" using assms by (simp add: CreateProfiler_def default_task_desc_def)
  let ?task = "burst_task default_task_desc"
  have "argv_pid (td_sample_argv ?task) = 0" "td_timeout_sec ?task = 0" "perf_duration (td_sample_argv ?task) = 30"
    by (simp_all add: burst_task_def default_task_desc_def default_record_argv_def perf_duration_def int_of_u64_def
        kSampleBurstSeconds_def)
  moreover obtain ok msg os1 where "runPerf sample_os_env (perf_hz (td_sample_argv ?task)) (perf_callgraph (td_sample_argv ?task))
      (perf_event (td_sample_argv ?task)) 0 30 (dir @ ''/perf.data'') dir 60 [] (ps_os s) = Returns (ok, msg, os1)"
    using sample_runPerf by (metis prod_cases3)
  ultimately have "\<exists>r. PerfProfiler_record sample_os_env ?task dir [] [] (ps_os s) = Returns r"
    by (simp add: PerfProfiler_record_def default_timeout_def int_add_def int_of_u32_def of_res_def Let_def
        create_directories_def) (simp add: sample_os_env_def)
  then show ?thesis by (auto simp: inner on_os_def sample_prof_env_def)
qed

theorem continuous_collects_nothing_witness:
  "\<exists>ok msg' cp s'. ContinuousProfiler_record 2 sample_prof_env stop_after_one default_task_desc ''/tmp/d'' []
       (fresh_continuous ''http://a'') sample_prof = Returns (ok, msg', cp, s') \<and> cp_merged cp = []"
proof -
  have "stop_after_one 1" by (simp add: stop_after_one_def)
  from record_returns [where stop = stop_after_one and n = 1 and msg = "[]" and dir = "''/tmp/d''",
      OF sample_perf_bursts sample_mkdir this] obtain ok msg' cp s' where
    "\<forall>fuel > 1. ContinuousProfiler_record fuel sample_prof_env stop_after_one default_task_desc ''/tmp/d'' []
       (fresh_continuous ''http://a'') sample_prof = Returns (ok, msg', cp, s')" by blast
  then have run: "ContinuousProfiler_record 2 sample_prof_env stop_after_one default_task_desc ''/tmp/d'' []
       (fresh_continuous ''http://a'') sample_prof = Returns (ok, msg', cp, s')" by simp
  have "CreateProfiler (td_profiler_type default_task_desc) = Some PerfProfiler"
    by (simp add: CreateProfiler_def default_task_desc_def)
  from continuous_collects_nothing [OF run this] run show ?thesis by blast
qed

lemma poll_clean:
  assumes "EbpfLoader_poll env im maps path msg c os = (ok, msg', maps', c', os')" and "clean_cache c"
  shows "clean_cache c'"
  using assms(1) poll_fold_clean [OF assms(2), of env maps os] assms(2)
  by (auto simp: EbpfLoader_poll_def Let_def split_beta split: if_splits option.splits)

lemma poll_merged_total:
  assumes "EbpfLoader_poll env im maps path msg c os = (True, msg', maps', c', os')" and "clean_cache c"
  shows "\<exists>content. os_fs os' path = Some content
    \<and> (\<forall>m0. smap_total (merge_content content m0) = smap_total m0 + sum_list (map snd (counts maps)))"
proof -
  have "\<And>k. k \<in> fst ` set (fst (poll_fold env maps c os)) \<Longrightarrow> no_nl k" using poll_fold_clean [OF assms(2)] by blast
  from merge_written_total [OF this] show ?thesis
    using poll_true [OF assms(1)] by (simp add: poll_fold_total)
qed

text \<open>
  Continuous profiling with eBPF.  A burst either fails and adds nothing, or adds to the
  accumulated map exactly the counts of the probe's maps, for any environment; its file is
  removed, and the cache keeps the property under which files read back.
\<close>

theorem ebpf_burst_adds:
  assumes "run_burst env EbpfProfiler task dir cp s = Returns (cp', s')" and "clean_cache (ps_cache s)"
  shows "clean_cache (ps_cache s') \<and>
    (cp' = cp \<or>
     smap_total (cp_stacks cp') = smap_total (cp_stacks cp) + sum_list (map snd (counts (pe_maps env (length (ps_loaders s)))))
     \<and> os_fs (ps_os s') (dir @ ''/collapsed_ebpf.txt'') = None)"
proof -
  obtain ok err files s1 where r: "EbpfProfiler_record env (burst_task task) dir [] [] s = Returns (ok, err, files, s1)"
    using assms(1) by (auto simp: run_burst_def)
  show ?thesis
    using r
  proof (cases rule: EbpfProfiler_record_cases)
    case (polled im c os maps')
    have clean: "clean_cache c" using poll_clean [OF polled(3) assms(2)] .
    show ?thesis
    proof (cases ok)
      case True
      let ?path = "dir @ ''/collapsed_ebpf.txt''"
      obtain content where content: "os_fs os ?path = Some content"
        "\<And>m0. smap_total (merge_content content m0) = smap_total m0 + sum_list (map snd (counts (pe_maps env (length (ps_loaders s)))))"
        using poll_merged_total [of "pe_os env" im "pe_maps env (length (ps_loaders s))" ?path "[]" "ps_cache s"
            "ps_os s" err maps' c os] polled(3) assms(2) True by auto
      have "contains ''collapsed'' ''collapsed_ebpf.txt''" by code_simp
      then have "cp' = merge_collapsed ?path os cp \<and> s' = s1\<lparr>ps_os := remove_file ?path os\<rparr>"
        using assms(1) r polled(4,5) True content(1)
        by (auto simp: run_burst_def destroy_loader_def file_exists_def Let_def)
      then show ?thesis
        using content clean polled(5) by (simp add: merge_collapsed_def remove_file_def destroy_loader_def)
    next
      case False
      then show ?thesis using assms(1) r clean polled(5) by (auto simp: run_burst_def destroy_loader_def)
    qed
  qed (use assms r in \<open>auto simp: run_burst_def destroy_loader_def\<close>)
qed

theorem ebpf_burst_adds_witness:
  "\<exists>cp' s'. run_burst sample_prof_env EbpfProfiler ebpf_task ''/tmp/d'' (fresh_continuous ''http://a'') sample_prof
     = Returns (cp', s') \<and> clean_cache (ps_cache s')"
proof -
  have clean: "clean_cache (ps_cache sample_prof)" by (simp add: sample_prof_def clean_cache_def empty_cache_def)
  obtain ok err files s1 where "EbpfProfiler_record sample_prof_env (burst_task ebpf_task) ''/tmp/d'' [] [] sample_prof
      = Returns (ok, err, files, s1)"
    using ebpf_returns [of sample_prof_env, OF sample_mkdir] by (metis prod_cases4)
  then obtain cp' s' where run: "run_burst sample_prof_env EbpfProfiler ebpf_task ''/tmp/d'' (fresh_continuous ''http://a'') sample_prof
      = Returns (cp', s')"
    by (cases ok) (auto simp: run_burst_def split_beta Let_def)
  from ebpf_burst_adds [OF run clean] run show ?thesis by blast
qed

end
