(* ===== verification/ServerPool.thy ===== *)
theory ServerPool
  imports Prelude
begin

text \<open>
  The failover pool of \<^verbatim>\<open>src/drop/common/src/server_pool.h\<close>.
  \<^verbatim>\<open>grpc::CreateChannel\<close> is outside the sources: it is the parameter
  \<open>create_channel\<close>, a function from an address to a channel.  The member functions used
  after start-up hold \<^verbatim>\<open>mu\<close> for their whole body, so each is one step.
\<close>

record 'ch server_pool =
  addrs :: "string list"
  current_idx :: nat
  pool_channel :: "'ch option"

definition empty_pool :: "'ch server_pool" where
  "empty_pool = \<lparr>addrs = [], current_idx = 0, pool_channel = None\<rparr>"

definition trim_addr :: "string \<Rightarrow> string" where
  "trim_addr addr = strip_back (\<lambda>c. c = CHR '' '') (strip_front (\<lambda>c. c = CHR '' '') addr)"

fun parse_addrs :: "string list \<Rightarrow> string list \<Rightarrow> string list" where
  "parse_addrs [] acc = acc"
| "parse_addrs (addr # rest) acc =
     (let a = trim_addr addr in parse_addrs rest (if a \<noteq> [] then acc @ [a] else acc))"

definition Connect :: "(string \<Rightarrow> 'ch) \<Rightarrow> nat \<Rightarrow> 'ch server_pool \<Rightarrow> 'ch server_pool" where
  "Connect create_channel idx p =
     (let i = idx mod length (addrs p)
      in p\<lparr>current_idx := i, pool_channel := Some (create_channel (addrs p ! i))\<rparr>)"

definition Init :: "(string \<Rightarrow> 'ch) \<Rightarrow> string \<Rightarrow> 'ch server_pool \<Rightarrow> 'ch server_pool" where
  "Init create_channel addr_list p =
     (let as = parse_addrs (getlines (CHR '','') addr_list) (addrs p);
          as' = (if as = [] then [''127.0.0.1:50051''] else as)
      in Connect create_channel 0 (p\<lparr>addrs := as'\<rparr>))"

definition Failover :: "(string \<Rightarrow> 'ch) \<Rightarrow> 'ch server_pool \<Rightarrow> 'ch server_pool" where
  "Failover create_channel p =
     (let next = (current_idx p + 1) mod length (addrs p) in Connect create_channel next p)"

definition GetChannel :: "'ch server_pool \<Rightarrow> 'ch option" where
  "GetChannel p = pool_channel p"

definition CurrentAddr :: "'ch server_pool \<Rightarrow> string" where
  "CurrentAddr p = addrs p ! current_idx p"

definition CurrentIdx :: "'ch server_pool \<Rightarrow> nat" where
  "CurrentIdx p = current_idx p"

section \<open>Invariant\<close>

definition pool_wf :: "(string \<Rightarrow> 'ch) \<Rightarrow> 'ch server_pool \<Rightarrow> bool" where
  "pool_wf create_channel p \<longleftrightarrow>
     addrs p \<noteq> [] \<and> current_idx p < length (addrs p)
     \<and> GetChannel p = Some (create_channel (CurrentAddr p))"

lemma trim_addr_props:
  assumes "trim_addr a \<noteq> []"
  shows "hd (trim_addr a) \<noteq> CHR '' ''" and "last (trim_addr a) \<noteq> CHR '' ''"
proof -
  let ?f = "strip_front (\<lambda>c. c = CHR '' '') a"
  have f: "?f = dropWhile (\<lambda>c. c = CHR '' '') a" by (rule strip_front_eq)
  have "rev ?f = takeWhile (\<lambda>c. c = CHR '' '') (rev ?f) @ dropWhile (\<lambda>c. c = CHR '' '') (rev ?f)" by simp
  then have "?f = trim_addr a @ rev (takeWhile (\<lambda>c. c = CHR '' '') (rev ?f))"
    unfolding trim_addr_def strip_back_eq by (metis rev_append rev_rev_ident)
  then obtain ys where ys: "?f = trim_addr a @ ys" by blast
  then have "?f \<noteq> []" and "hd ?f = hd (trim_addr a)" using assms by auto
  then show "hd (trim_addr a) \<noteq> CHR '' ''"
    using hd_dropWhile [of "\<lambda>c. c = CHR '' ''" a] f by auto
  show "last (trim_addr a) \<noteq> CHR '' ''"
    using last_strip_back [of "\<lambda>c. c = CHR '' ''" ?f] assms by (simp add: trim_addr_def)
qed

lemma set_trim_addr: "set (trim_addr a) \<subseteq> set a"
  unfolding trim_addr_def using set_strip_back set_strip_front by (meson order_trans)

lemma parse_addrs_eq: "parse_addrs as acc = acc @ filter (\<lambda>a. a \<noteq> []) (map trim_addr as)"
  by (induction as acc rule: parse_addrs.induct) (auto simp: Let_def)

definition good_addr :: "string \<Rightarrow> bool" where
  "good_addr a \<longleftrightarrow> a \<noteq> [] \<and> CHR '','' \<notin> set a \<and> hd a \<noteq> CHR '' '' \<and> last a \<noteq> CHR '' ''"

lemma parsed_good:
  assumes "a \<in> set (parse_addrs (getlines (CHR '','') s) [])"
  shows "good_addr a"
proof -
  obtain l where l: "l \<in> set (getlines (CHR '','') s)" "a = trim_addr l" "a \<noteq> []"
    using assms by (auto simp: parse_addrs_eq)
  have "CHR '','' \<notin> set a" using getlines_no_sep [OF l(1)] set_trim_addr [of l] l(2) by blast
  then show ?thesis using trim_addr_props [of l] l(2,3) by (simp add: good_addr_def)
qed

lemma pool_wf_Connect:
  "addrs p \<noteq> [] \<Longrightarrow> pool_wf mk (Connect mk idx p)"
  by (simp add: pool_wf_def Connect_def Let_def GetChannel_def CurrentAddr_def)

lemma addrs_Connect [simp]: "addrs (Connect mk idx p) = addrs p"
  by (simp add: Connect_def Let_def)

lemma pool_wf_Init: "pool_wf mk (Init mk s p)"
  by (simp add: Init_def Let_def pool_wf_Connect)

lemma addrs_Failover [simp]: "addrs (Failover mk p) = addrs p"
  by (simp add: Failover_def Let_def)

lemma idx_Failover: "current_idx (Failover mk p) = Suc (current_idx p) mod length (addrs p)"
  by (simp add: Failover_def Connect_def Let_def)

lemma pool_wf_Failover: "pool_wf mk p \<Longrightarrow> pool_wf mk (Failover mk p)"
  unfolding Failover_def Let_def by (rule pool_wf_Connect) (simp add: pool_wf_def)

lemma addrs_Failover_pow [simp]: "addrs ((Failover mk ^^ k) p) = addrs p"
  by (induction k) auto

lemma pool_wf_Failover_pow: "pool_wf mk p \<Longrightarrow> pool_wf mk ((Failover mk ^^ k) p)"
  by (induction k) (auto intro: pool_wf_Failover)

lemma Failover_pow_idx:
  assumes "pool_wf mk p"
  shows "current_idx ((Failover mk ^^ k) p) = (current_idx p + k) mod length (addrs p)"
proof (induction k)
  case 0
  then show ?case using assms by (simp add: pool_wf_def)
next
  case (Suc k)
  then show ?case by (simp add: idx_Failover mod_Suc_eq)
qed

text \<open>
  Failover visits every server.  Init always leaves at least one address, each non-empty,
  without a comma and without a space at either end, and connects to the first; \<open>k\<close>
  failovers later the pool is at address \<open>k\<close> modulo the number of addresses with a
  channel to that address, so every configured server is the active one after fewer than
  that number of failovers, and that many failovers return to the start.
\<close>

theorem pool_rotation:
  "(\<forall>a \<in> set (addrs (Init mk s empty_pool)). good_addr a)
   \<and> addrs (Init mk s empty_pool) \<noteq> [] \<and> CurrentIdx (Init mk s empty_pool) = 0
   \<and> CurrentIdx ((Failover mk ^^ k) (Init mk s empty_pool)) = k mod length (addrs (Init mk s empty_pool))
   \<and> GetChannel ((Failover mk ^^ k) (Init mk s empty_pool))
       = Some (mk (CurrentAddr ((Failover mk ^^ k) (Init mk s empty_pool))))
   \<and> (\<forall>a \<in> set (addrs (Init mk s empty_pool)). \<exists>j < length (addrs (Init mk s empty_pool)).
        CurrentAddr ((Failover mk ^^ j) (Init mk s empty_pool)) = a)"
proof -
  let ?p = "Init mk s empty_pool"
  have wf: "pool_wf mk ?p" by (rule pool_wf_Init)
  have as: "addrs ?p = (let as = parse_addrs (getlines (CHR '','') s) []
      in if as = [] then [''127.0.0.1:50051''] else as)"
    by (simp add: Init_def Let_def empty_pool_def)
  have good: "\<forall>a \<in> set (addrs ?p). good_addr a"
    using parsed_good by (auto simp: as Let_def good_addr_def split: if_splits)
  have zero: "current_idx ?p = 0" by (simp add: Init_def Connect_def Let_def)
  have idx: "current_idx ((Failover mk ^^ j) ?p) = j mod length (addrs ?p)" for j
    using Failover_pow_idx [OF wf, of j] zero by simp
  have reach: "\<exists>j < length (addrs ?p). CurrentAddr ((Failover mk ^^ j) ?p) = a"
    if "a \<in> set (addrs ?p)" for a
    using that idx by (auto simp: in_set_conv_nth CurrentAddr_def)
  show ?thesis
    using good wf zero idx [of k] reach pool_wf_Failover_pow [OF wf, of k]
    by (auto simp: pool_wf_def CurrentIdx_def)
qed

theorem pool_rotation_witness:
  "addrs (Init id ''a:1, b:2 ,'' empty_pool) = [''a:1'', ''b:2'']
   \<and> CurrentIdx ((Failover id ^^ 3) (Init id ''a:1, b:2 ,'' empty_pool)) = 1
   \<and> (\<exists>j < 2. CurrentAddr ((Failover id ^^ j) (Init id ''a:1, b:2 ,'' empty_pool)) = ''b:2'')"
proof -
  have as: "addrs (Init id ''a:1, b:2 ,'' empty_pool) = [''a:1'', ''b:2'']" by code_simp
  have len: "length [''a:1'', ''b:2''] = 2" by simp
  show ?thesis
    using pool_rotation [of id "''a:1, b:2 ,''" 3] unfolding as len by simp
qed

end
