(* ===== verification/Agent.thy ===== *)
theory Agent
  imports AgentStats ContinuousProofs ServerPool
begin

text \<open>
  The agent of \<^verbatim>\<open>src/drop/agent/main.cpp\<close>: the upload of a result file, daemonizing,
  the signal handler, the bodies of the heartbeat and worker threads and of the threads that run
  continuous tasks, and the start-up of \<^verbatim>\<open>main\<close>.  gRPC is outside the sources: what a
  call returns is a parameter, and the results reported with \<^verbatim>\<open>NotifyResult\<close> are
  recorded in the state.  A task runs as one step of the worker.
\<close>

section \<open>Flags, environment and state\<close>

record agent_flags =
  FLAGS_config :: string
  FLAGS_foreground :: bool
  FLAGS_server_addr :: string
  FLAGS_hostname :: string
  FLAGS_ip :: string
  FLAGS_uid :: string
  FLAGS_agent_version :: string
  FLAGS_apiserver_addr :: string

definition default_agent_flags :: agent_flags where
  "default_agent_flags =
     \<lparr>FLAGS_config = [], FLAGS_foreground = False, FLAGS_server_addr = ''127.0.0.1:50051'', FLAGS_hostname = [], FLAGS_ip = [],
      FLAGS_uid = [], FLAGS_agent_version = ''0.1.0'', FLAGS_apiserver_addr = ''http://127.0.0.1:8191''\<rparr>"

text \<open>
  \<open>wk_accepted\<close> and \<open>wk_taken\<close> are ghosts: all tasks pushed to and popped from the queue so far.
\<close>

record worker_state =
  wk_queue :: "task_desc list"
  wk_shutdown :: bool
  wk_accepted :: "task_desc list"
  wk_taken :: "task_desc list"

definition empty_worker :: worker_state where
  "empty_worker = \<lparr>wk_queue = [], wk_shutdown = False, wk_accepted = [], wk_taken = []\<rparr>"

record agent_env =
  ae_prof :: prof_env
  ae_mono :: "nat \<Rightarrow> real"
  ae_pid :: int
  ae_hostname :: "string option"
  ae_getaddrinfo :: "string \<Rightarrow> string option"
  ae_clk_tck :: int
  ae_pagesize :: int

text \<open>Where the heartbeat thread and the worker thread are, with their local variables.\<close>

datatype heartbeat_pc = Hb_check | Hb_beat | Hb_stopped

datatype worker_pc = Wk_wait | Wk_execute task_desc | Wk_report task_result | Wk_stopped

text \<open>
  The process.  \<open>ag_beats\<close> counts the heartbeats.  \<open>ag_notified\<close> lists the calls of \<^verbatim>\<open>NotifyResult\<close> with the channel
  they went to.  A \<^verbatim>\<open>ContinuousProfiler\<close> on the heap is its number: \<open>ag_registry\<close> is
  \<^verbatim>\<open>g_continuous_profilers\<close>, \<open>ag_live\<close> the objects not yet deleted,
  \<open>ag_runners\<close> the detached threads still to run, and \<open>ag_next\<close> the next new object.
\<close>

record 'ch agent_state =
  ag_worker :: worker_state
  ag_hb :: heartbeat_pc
  ag_wk :: worker_pc
  ag_beats :: nat
  ag_pool :: "'ch server_pool"
  ag_registered :: bool
  ag_failures :: nat
  ag_memory :: stats_memory
  ag_prof :: prof_state
  ag_notified :: "('ch option \<times> task_result) list"
  ag_registry :: "string \<Rightarrow> nat option"
  ag_live :: "nat list"
  ag_runners :: "(nat \<times> task_desc) list"
  ag_next :: nat

section \<open>UploadFileToAPI\<close>

definition api_upload_child :: "string \<Rightarrow> path \<Rightarrow> child_spec" where
  "api_upload_child url filepath =
     \<lparr>cs_program = ''curl'',
      cs_argv = [''curl'', ''-sf'', ''-o'', ''/dev/null'', ''-w'', ''%{http_code}'', ''-F'', ''file=@'' @ filepath, url],
      cs_setpgid = False, cs_stdout = None, cs_stderr = None, cs_exec_error = []\<rparr>"

text \<open>
  \<open>os_fds\<close> counts open descriptors: the pipe opens two.  A failed \<^verbatim>\<open>waitpid\<close> leaves
  \<^verbatim>\<open>status\<close> at 0, which reads as a normal exit.
\<close>

definition UploadFileToAPI ::
  "os_env \<Rightarrow> string \<Rightarrow> string \<Rightarrow> path \<Rightarrow> os_state \<Rightarrow> bool \<times> string \<times> os_state" where
  "UploadFileToAPI env apiserver tid filepath os =
     (let filename = after_last (CHR ''/'') filepath;
          url = apiserver @ ''/api/v1/tasks/'' @ tid @ ''/upload/'' @ filename
      in if \<not> pipe_ok env (os_forks os) then (False, ''pipe failed'', os)
         else
           (let os1 = os\<lparr>os_fds := os_fds os + 2\<rparr>
            in case fork_child env (api_upload_child url filepath) os1 of
                 (Inl _, os2) \<Rightarrow> (False, ''fork failed'', os2\<lparr>os_fds := os_fds os2 - 1 - 1\<rparr>)
               | (Inr n, os2) \<Rightarrow>
                   (let os3 = os2\<lparr>os_fds := os_fds os2 - 1 - 1\<rparr>;
                        output = (if exec_ok env n then child_output env n else []);
                        status = (case waitpid env n of Inl _ \<Rightarrow> Exited 0 | Inr st \<Rightarrow> st);
                        result = strip_back (\<lambda>c. c = CHR 0x0A \<or> c = CHR 0x0D) output
                    in if status \<noteq> Exited 0 \<or> http_code output \<noteq> 200
                       then (False, ''upload HTTP '' @ result, os3)
                       else (True, tid @ ''/'' @ filename, os3))))"

section \<open>Daemonize\<close>

text \<open>What \<^verbatim>\<open>fork\<close> returns to a process, and how \<^verbatim>\<open>Daemonize\<close> ends in it.\<close>

datatype fork_ret = Fork_failed | In_parent | In_child

datatype daemon_end = Exit int | Daemon

text \<open>
  Descriptors as the file each refers to; a new one is the lowest free one below the limit of the
  process.  The mask 0027 is octal, 23.
\<close>

type_synonym fd_table = "nat \<Rightarrow> path option"

definition close_fd :: "nat \<Rightarrow> fd_table \<Rightarrow> fd_table" where
  "close_fd i t = t(i := None)"

definition open_fd :: "os_env \<Rightarrow> nat \<Rightarrow> path \<Rightarrow> fd_table \<Rightarrow> nat option \<times> fd_table" where
  "open_fd env limit p t =
     (if \<not> open_ok env p then (None, t)
      else case List.find (\<lambda>i. t i = None) [0..<limit] of
             None \<Rightarrow> (None, t)
           | Some i \<Rightarrow> (Some i, t(i \<mapsto> p)))"

definition dup2 :: "nat \<Rightarrow> nat \<Rightarrow> fd_table \<Rightarrow> fd_table" where
  "dup2 old new t = t(new := t old)"

record daemon_state =
  dm_fds :: fd_table
  dm_umask :: nat
  dm_os :: os_state

definition redirect_std :: "os_env \<Rightarrow> nat \<Rightarrow> fd_table \<Rightarrow> fd_table" where
  "redirect_std env limit t =
     (case open_fd env limit ''/dev/null'' (close_fd 2 (close_fd 1 (close_fd 0 t))) of
        (None, t1) \<Rightarrow> t1
      | (Some d, t1) \<Rightarrow>
          (let t2 = dup2 d 2 (dup2 d 1 (dup2 d 0 t1)) in if d > 2 then close_fd d t2 else t2))"

definition Daemonize ::
  "os_env \<Rightarrow> nat \<Rightarrow> fork_ret \<Rightarrow> bool \<Rightarrow> fork_ret \<Rightarrow> int \<Rightarrow> daemon_state \<Rightarrow> daemon_end \<times> daemon_state" where
  "Daemonize env limit fork1 setsid_ok fork2 pid d =
     (case fork1 of
        Fork_failed \<Rightarrow> (Exit 1, d)
      | In_parent \<Rightarrow> (Exit 0, d)
      | In_child \<Rightarrow>
          if \<not> setsid_ok then (Exit 1, d)
          else (case fork2 of
                  Fork_failed \<Rightarrow> (Exit 1, d)
                | In_parent \<Rightarrow> (Exit 0, d)
                | In_child \<Rightarrow>
                    (Daemon,
                     d\<lparr>dm_fds := redirect_std env limit (dm_fds d),
                       dm_os := (case write_file env ''/tmp/drop_agent.pid'' (show_int pid) (dm_os d) of
                                   None \<Rightarrow> dm_os d | Some os \<Rightarrow> os),
                       dm_umask := 23\<rparr>)))"

section \<open>SignalHandler\<close>

definition SignalHandler :: "'ch agent_state \<Rightarrow> 'ch agent_state" where
  "SignalHandler a = a\<lparr>ag_worker := (ag_worker a)\<lparr>wk_shutdown := True\<rparr>\<rparr>"

section \<open>HeartbeatThread\<close>

definition kFailoverThreshold :: nat where
  "kFailoverThreshold = 3"

text \<open>
  What the server answers to the \<open>n\<close>-th heartbeat and registration on a channel:
  \<open>None\<close> and \<open>False\<close> are a status that is not ok.
\<close>

record 'ch rpc_env =
  rpc_do :: "nat \<Rightarrow> 'ch option \<Rightarrow> health_check_request \<Rightarrow> health_check_response option"
  rpc_register :: "nat \<Rightarrow> 'ch option \<Rightarrow> register_agent_request \<Rightarrow> bool"

definition heartbeat_request :: "agent_flags \<Rightarrow> pid_stats \<Rightarrow> health_check_request" where
  "heartbeat_request flags ps =
     \<lparr>hcq_host_name = FLAGS_hostname flags, hcq_ip_addr = FLAGS_ip flags, hcq_uid = FLAGS_uid flags,
      hcq_agent_version = FLAGS_agent_version flags, hcq_self_pstats = Some ps, hcq_children_pstats = None\<rparr>"

definition register_request :: "agent_flags \<Rightarrow> register_agent_request" where
  "register_request flags =
     \<lparr>raq_host_name = FLAGS_hostname flags, raq_ip_addr = FLAGS_ip flags, raq_uid = FLAGS_uid flags,
      raq_agent_version = FLAGS_agent_version flags\<rparr>"

text \<open>The critical section that queues a task unless one with its id is already queued.\<close>

definition push_task :: "task_desc \<Rightarrow> worker_state \<Rightarrow> worker_state" where
  "push_task task w =
     (if td_task_id task \<in> td_task_id ` set (wk_queue w) then w
      else w\<lparr>wk_queue := wk_queue w @ [task], wk_accepted := wk_accepted w @ [task]\<rparr>)"

definition heartbeat_failed :: "(string \<Rightarrow> 'ch) \<Rightarrow> 'ch agent_state \<Rightarrow> 'ch agent_state" where
  "heartbeat_failed create_channel a =
     (let n = Suc (ag_failures a)
      in if n \<ge> kFailoverThreshold \<and> length (addrs (ag_pool a)) > 1
         then a\<lparr>ag_pool := Failover create_channel (ag_pool a), ag_failures := 0, ag_registered := False\<rparr>
         else a\<lparr>ag_failures := n\<rparr>)"

definition heartbeat_ok ::
  "'ch rpc_env \<Rightarrow> nat \<Rightarrow> agent_flags \<Rightarrow> 'ch option \<Rightarrow> health_check_response \<Rightarrow> 'ch agent_state \<Rightarrow> 'ch agent_state" where
  "heartbeat_ok rpc i flags channel resp a =
     (let a1 = a\<lparr>ag_failures := 0\<rparr>;
          a2 = (if \<not> ag_registered a1 then a1\<lparr>ag_registered := rpc_register rpc i channel (register_request flags)\<rparr> else a1)
      in case hcr_task_desc resp of
           Some task \<Rightarrow> if hcr_pending resp then a2\<lparr>ag_worker := push_task task (ag_worker a2)\<rparr> else a2
         | None \<Rightarrow> a2)"

text \<open>The body of the loop after the check of \<^verbatim>\<open>shutdown\<close>.\<close>

definition heartbeat_beat ::
  "agent_env \<Rightarrow> (string \<Rightarrow> 'ch) \<Rightarrow> 'ch rpc_env \<Rightarrow> agent_flags \<Rightarrow> 'ch agent_state \<Rightarrow> 'ch agent_state outc" where
  "heartbeat_beat env create_channel rpc flags a =
     (let channel = GetChannel (ag_pool a); i = ag_beats a
      in bind_outc (of_res (ComputePidStats (ae_clk_tck env) (ae_pagesize env) (ae_pid env)
           (ae_mono env (2 * i)) (ae_mono env (2 * i + 1)) (ps_os (ag_prof a)) (ag_memory a))) (\<lambda>(ps, mem).
           (let a1 = a\<lparr>ag_memory := mem, ag_beats := Suc i\<rparr>
            in case rpc_do rpc i channel (heartbeat_request flags ps) of
                 None \<Rightarrow> Returns (heartbeat_failed create_channel a1)
               | Some resp \<Rightarrow> Returns (heartbeat_ok rpc i flags channel resp a1))))"

text \<open>
  \<^verbatim>\<open>shutdown\<close> is read without the mutex at the top of the loop; other threads run between
  that and the rest of the iteration.
\<close>

definition heartbeat_step ::
  "agent_env \<Rightarrow> (string \<Rightarrow> 'ch) \<Rightarrow> 'ch rpc_env \<Rightarrow> agent_flags \<Rightarrow> 'ch agent_state \<Rightarrow> 'ch agent_state outc" where
  "heartbeat_step env create_channel rpc flags a =
     (case ag_hb a of
        Hb_check \<Rightarrow> Returns (a\<lparr>ag_hb := (if wk_shutdown (ag_worker a) then Hb_stopped else Hb_beat)\<rparr>)
      | Hb_beat \<Rightarrow> bind_outc (heartbeat_beat env create_channel rpc flags a) (\<lambda>a1. Returns (a1\<lparr>ag_hb := Hb_check\<rparr>))
      | Hb_stopped \<Rightarrow> Returns a)"

fun heartbeat_run ::
  "nat \<Rightarrow> agent_env \<Rightarrow> (string \<Rightarrow> 'ch) \<Rightarrow> 'ch rpc_env \<Rightarrow> agent_flags \<Rightarrow> 'ch agent_state \<Rightarrow> 'ch agent_state outc" where
  "heartbeat_run 0 env create_channel rpc flags a = Returns a"
| "heartbeat_run (Suc n) env create_channel rpc flags a =
     bind_outc (heartbeat_step env create_channel rpc flags a) (heartbeat_run n env create_channel rpc flags)"

section \<open>WorkerThread\<close>

definition task_output_dir :: "task_desc \<Rightarrow> path" where
  "task_output_dir task = ''/tmp/drop_'' @ td_task_id task"

definition notify :: "task_result \<Rightarrow> 'ch agent_state \<Rightarrow> 'ch agent_state" where
  "notify result a = a\<lparr>ag_notified := ag_notified a @ [(GetChannel (ag_pool a), result)]\<rparr>"

text \<open>
  The upload loop: whether all files went up, and the key of the first one or else the key with
  which \<^verbatim>\<open>UploadFileToAPI\<close> reports what went wrong.
\<close>

fun upload_files ::
  "os_env \<Rightarrow> string \<Rightarrow> string \<Rightarrow> path \<Rightarrow> nat \<Rightarrow> string list \<Rightarrow> string \<Rightarrow> os_state \<Rightarrow> bool \<times> string \<times> os_state" where
  "upload_files env apiserver tid dir i [] uploaded os = (True, uploaded, os)"
| "upload_files env apiserver tid dir i (f # fs) uploaded os =
     (case UploadFileToAPI env apiserver tid (dir @ ''/'' @ f) os of
        (False, key, os1) \<Rightarrow> (False, key, os1)
      | (True, key, os1) \<Rightarrow> upload_files env apiserver tid dir (Suc i) fs (if i = 0 then key else uploaded) os1)"

text \<open>The single-shot path up to the call of \<^verbatim>\<open>NotifyResult\<close>.\<close>

definition run_single_shot ::
  "agent_env \<Rightarrow> agent_flags \<Rightarrow> task_desc \<Rightarrow> prof_state \<Rightarrow> (task_result \<times> prof_state) outc" where
  "run_single_shot env flags task s =
     (let tid = td_task_id task; dir = task_output_dir task; result = default_task_result\<lparr>tr_task_id := tid\<rparr>
      in case CreateProfiler (td_profiler_type task) of
           None \<Rightarrow>
             Returns (result\<lparr>tr_error_message :=
               ''unsupported profiler_type='' @ show_nat (unat (td_profiler_type task))\<rparr>, s)
         | Some k \<Rightarrow>
             bind_outc (profiler_record k (ae_prof env) task dir [] [] s) (\<lambda>(ok, error_msg, files, s1).
               if \<not> ok then Returns (result\<lparr>tr_error_message := error_msg\<rparr>, s1)
               else
                 (let (upload_ok, key, os1) =
                        upload_files (pe_os (ae_prof env)) (FLAGS_apiserver_addr flags) tid dir 0 files [] (ps_os s1)
                  in Returns (if upload_ok then result\<lparr>tr_cos_key := key\<rparr>
                              else result\<lparr>tr_error_message := ''upload failed: '' @ key\<rparr>, s1\<lparr>ps_os := os1\<rparr>))))"

definition start_continuous :: "task_desc \<Rightarrow> 'ch agent_state \<Rightarrow> 'ch agent_state" where
  "start_continuous task a =
     (let cp = ag_next a
      in a\<lparr>ag_next := Suc cp, ag_live := ag_live a @ [cp],
           ag_registry := (ag_registry a)(td_task_id task \<mapsto> cp),
           ag_runners := ag_runners a @ [(cp, task)]\<rparr>)"

definition worker_take :: "'ch agent_state \<Rightarrow> 'ch agent_state" where
  "worker_take a =
     (let w = ag_worker a
      in case wk_queue w of
           [] \<Rightarrow> if wk_shutdown w then a\<lparr>ag_wk := Wk_stopped\<rparr> else a
         | task # rest \<Rightarrow>
             a\<lparr>ag_worker := w\<lparr>wk_queue := rest, wk_taken := wk_taken w @ [task]\<rparr>, ag_wk := Wk_execute task\<rparr>)"

definition worker_execute ::
  "agent_env \<Rightarrow> agent_flags \<Rightarrow> task_desc \<Rightarrow> 'ch agent_state \<Rightarrow> 'ch agent_state outc" where
  "worker_execute env flags task a =
     (if td_task_type task = 1 then Returns (start_continuous task (a\<lparr>ag_wk := Wk_wait\<rparr>))
      else bind_outc (run_single_shot env flags task (ag_prof a)) (\<lambda>(result, s).
             Returns (a\<lparr>ag_prof := s, ag_wk := Wk_report result\<rparr>)))"

text \<open>With an empty queue and no shutdown the worker stays in \<^verbatim>\<open>cv.wait\<close>.\<close>

definition worker_step ::
  "agent_env \<Rightarrow> agent_flags \<Rightarrow> 'ch agent_state \<Rightarrow> 'ch agent_state outc" where
  "worker_step env flags a =
     (case ag_wk a of
        Wk_wait \<Rightarrow> Returns (worker_take a)
      | Wk_execute task \<Rightarrow> worker_execute env flags task a
      | Wk_report result \<Rightarrow> Returns ((notify result a)\<lparr>ag_wk := Wk_wait\<rparr>)
      | Wk_stopped \<Rightarrow> Returns a)"

fun worker_run :: "nat \<Rightarrow> agent_env \<Rightarrow> agent_flags \<Rightarrow> 'ch agent_state \<Rightarrow> 'ch agent_state outc" where
  "worker_run 0 env flags a = Returns a"
| "worker_run (Suc n) env flags a = bind_outc (worker_step env flags a) (worker_run n env flags)"

text \<open>The thread that runs a continuous task: it reports the result and deletes the profiler.\<close>

definition continuous_runner ::
  "nat \<Rightarrow> agent_env \<Rightarrow> agent_flags \<Rightarrow> (nat \<Rightarrow> bool) \<Rightarrow> nat \<times> task_desc \<Rightarrow> 'ch agent_state \<Rightarrow> 'ch agent_state outc" where
  "continuous_runner fuel env flags stop r a =
     (let (cp, task) = r
      in bind_outc (ContinuousProfiler_record fuel (ae_prof env) stop task (task_output_dir task) []
           (set_apiserver_addr (FLAGS_apiserver_addr flags) new_continuous) (ag_prof a)) (\<lambda>(ok, error_msg, _, s1).
           (let result = default_task_result\<lparr>tr_task_id := td_task_id task\<rparr>;
                a1 = notify (if \<not> ok then result\<lparr>tr_error_message := error_msg\<rparr> else result) (a\<lparr>ag_prof := s1\<rparr>)
            in Returns (a1\<lparr>ag_live := remove1 cp (ag_live a1), ag_runners := remove1 r (ag_runners a1)\<rparr>))))"

section \<open>main\<close>

definition DetectHostname :: "agent_env \<Rightarrow> string" where
  "DetectHostname env = (case ae_hostname env of Some h \<Rightarrow> h | None \<Rightarrow> ''unknown'')"

definition DetectIP :: "agent_env \<Rightarrow> string" where
  "DetectIP env =
     (case ae_hostname env of
        None \<Rightarrow> ''127.0.0.1''
      | Some h \<Rightarrow> (case ae_getaddrinfo env h of None \<Rightarrow> ''127.0.0.1'' | Some ip \<Rightarrow> ip))"

definition resolve_flags :: "agent_env \<Rightarrow> agent_flags \<Rightarrow> agent_flags" where
  "resolve_flags env flags =
     (let f1 = (if FLAGS_hostname flags = [] then flags\<lparr>FLAGS_hostname := DetectHostname env\<rparr> else flags);
          f2 = (if FLAGS_ip f1 = [] then f1\<lparr>FLAGS_ip := DetectIP env\<rparr> else f1)
      in if FLAGS_uid f2 = [] then f2\<lparr>FLAGS_uid := FLAGS_ip f2 @ ''-'' @ show_int (ae_pid env)\<rparr> else f2)"

text \<open>The system constants, with the defaults for a failing \<^verbatim>\<open>sysconf\<close>.\<close>

definition system_constants :: "agent_env \<Rightarrow> agent_env" where
  "system_constants env =
     env\<lparr>ae_clk_tck := (if ae_clk_tck env \<le> 0 then 100 else ae_clk_tck env),
         ae_pagesize := (if ae_pagesize env \<le> 0 then 4096 else ae_pagesize env)\<rparr>"

definition agent_init :: "agent_env \<Rightarrow> (string \<Rightarrow> 'ch) \<Rightarrow> agent_flags \<Rightarrow> prof_state \<Rightarrow> agent_env \<times> agent_flags \<times> 'ch agent_state" where
  "agent_init env create_channel flags s =
     (system_constants env, resolve_flags env flags,
      \<lparr>ag_worker = empty_worker, ag_hb = Hb_check, ag_wk = Wk_wait, ag_beats = 0, ag_pool = Init create_channel (FLAGS_server_addr flags) empty_pool,
       ag_registered = False, ag_failures = 0, ag_memory = fresh_memory, ag_prof = s, ag_notified = [],
       ag_registry = Map.empty, ag_live = [], ag_runners = [], ag_next = 0\<rparr>)"

text \<open>After the worker has been joined; threads still running a continuous task end with the process.\<close>

definition agent_exit :: "agent_flags \<Rightarrow> 'ch agent_state \<Rightarrow> 'ch agent_state" where
  "agent_exit flags a =
     (if FLAGS_foreground flags then a
      else a\<lparr>ag_prof := (ag_prof a)\<lparr>ps_os := remove_file ''/tmp/drop_agent.pid'' (ps_os (ag_prof a))\<rparr>\<rparr>)"

text \<open>The start of \<^verbatim>\<open>main\<close>: the exit code of a process that ends in \<^verbatim>\<open>Daemonize\<close>, or the agent.\<close>

definition agent_start ::
  "agent_env \<Rightarrow> nat \<Rightarrow> fork_ret \<Rightarrow> bool \<Rightarrow> fork_ret \<Rightarrow> (string \<Rightarrow> 'ch) \<Rightarrow> agent_flags \<Rightarrow> daemon_state \<Rightarrow> prof_state \<Rightarrow>
   int + (agent_env \<times> agent_flags \<times> 'ch agent_state)" where
  "agent_start env limit fork1 setsid_ok fork2 create_channel flags d s =
     (if FLAGS_foreground flags then Inr (agent_init env create_channel flags s)
      else (case Daemonize (pe_os (ae_prof env)) limit fork1 setsid_ok fork2 (ae_pid env) (d\<lparr>dm_os := ps_os s\<rparr>) of
              (Exit c, _) \<Rightarrow> Inl c
            | (Daemon, d') \<Rightarrow> Inr (agent_init env create_channel flags (s\<lparr>ps_os := dm_os d'\<rparr>))))"

section \<open>The threads together\<close>

text \<open>
  The threads interleave at the granularity of their critical sections: a step is one step of the
  heartbeat or worker thread, the whole run of a continuous task, or a signal.
\<close>

inductive agent_step ::
  "agent_env \<Rightarrow> (string \<Rightarrow> 'ch) \<Rightarrow> 'ch rpc_env \<Rightarrow> agent_flags \<Rightarrow> 'ch agent_state \<Rightarrow> 'ch agent_state \<Rightarrow> bool"
  for env create_channel rpc flags where
  heartbeat: "heartbeat_step env create_channel rpc flags a = Returns a' \<Longrightarrow>
    agent_step env create_channel rpc flags a a'"
| worker: "worker_step env flags a = Returns a' \<Longrightarrow> agent_step env create_channel rpc flags a a'"
| runner: "r \<in> set (ag_runners a) \<Longrightarrow> continuous_runner fuel env flags stop r a = Returns a' \<Longrightarrow>
    agent_step env create_channel rpc flags a a'"
| signal: "agent_step env create_channel rpc flags a (SignalHandler a)"

inductive agent_reachable ::
  "agent_env \<Rightarrow> (string \<Rightarrow> 'ch) \<Rightarrow> 'ch rpc_env \<Rightarrow> agent_flags \<Rightarrow> 'ch agent_state \<Rightarrow> 'ch agent_state \<Rightarrow> bool"
  for env create_channel rpc flags a0 where
  start: "agent_reachable env create_channel rpc flags a0 a0"
| further: "agent_reachable env create_channel rpc flags a0 a \<Longrightarrow> agent_step env create_channel rpc flags a a' \<Longrightarrow>
    agent_reachable env create_channel rpc flags a0 a'"

end
