(* ===== verification/AgentProofs.thy ===== *)
theory AgentProofs
  imports Agent "HOL-Library.Multiset"
begin

text \<open>
  Properties of the agent: what an upload and a task report, where every accepted task is in any
  interleaving of the threads, how the heartbeat moves between servers, and how the agent drains
  its queue on shutdown.
\<close>

section \<open>Uploads\<close>

lemma fork_child_fds [simp]: "os_fds (snd (fork_child env spec os)) = os_fds os"
  by (simp add: fork_child_def Let_def split: option.split)

definition curl_output :: "os_env \<Rightarrow> nat \<Rightarrow> string" where
  "curl_output env n = (if exec_ok env n then child_output env n else [])"

definition api_url :: "string \<Rightarrow> string \<Rightarrow> path \<Rightarrow> string" where
  "api_url api tid p = api @ ''/api/v1/tasks/'' @ tid @ ''/upload/'' @ after_last (CHR ''/'') p"

lemma upload_cases:
  obtains (no_pipe) "UploadFileToAPI env api tid p os = (False, ''pipe failed'', os)"
  | (no_fork) os2 where "UploadFileToAPI env api tid p os = (False, ''fork failed'', os2)" "os_fds os2 = os_fds os"
      "os_children os2 = os_children os"
  | (refused) os2 where "UploadFileToAPI env api tid p os = (False, ''upload HTTP ''
          @ strip_back (\<lambda>c. c = CHR 0x0A \<or> c = CHR 0x0D) (curl_output env (os_forks os)), os2)"
      "os_fds os2 = os_fds os" "os_children os2 = os_children os @ [api_upload_child (api_url api tid p) p]"
  | (stored) os2 where "UploadFileToAPI env api tid p os = (True, tid @ ''/'' @ after_last (CHR ''/'') p, os2)"
      "os_fds os2 = os_fds os" "os_children os2 = os_children os @ [api_upload_child (api_url api tid p) p]"
      "http_code (curl_output env (os_forks os)) = 200"
proof (cases "pipe_ok env (os_forks os)")
  case False
  then show ?thesis using no_pipe by (simp add: UploadFileToAPI_def Let_def)
next
  case pipe: True
  show ?thesis
  proof (cases "fork_error env (os_forks os)")
    case None
    let ?os2 = "snd (fork_child env (api_upload_child (api_url api tid p) p) (os\<lparr>os_fds := os_fds os + 2\<rparr>))"
    let ?u = "UploadFileToAPI env api tid p os"
    have u: "?u = (let ok = (case waitpid env (os_forks os) of Inl _ \<Rightarrow> Exited 0 | Inr st \<Rightarrow> st) = Exited 0
                      \<and> http_code (curl_output env (os_forks os)) = 200
        in (ok, if ok then tid @ ''/'' @ after_last (CHR ''/'') p
                else ''upload HTTP '' @ strip_back (\<lambda>c. c = CHR 0x0A \<or> c = CHR 0x0D) (curl_output env (os_forks os)),
            ?os2\<lparr>os_fds := os_fds ?os2 - 1 - 1\<rparr>))"
      using pipe None by (simp add: UploadFileToAPI_def fork_child_def Let_def curl_output_def api_url_def)
    have c: "os_children (?os2\<lparr>os_fds := os_fds ?os2 - 1 - 1\<rparr>) = os_children os @ [api_upload_child (api_url api tid p) p]"
      using None by (simp add: fork_child_def Let_def)
    show ?thesis
    proof (cases "fst ?u")
      case True
      then show ?thesis using u c stored by (simp add: Let_def)
    next
      case False
      then show ?thesis using u c refused by (auto simp: Let_def)
    qed
  qed (use pipe no_fork in \<open>simp add: UploadFileToAPI_def fork_child_def Let_def\<close>)
qed

lemma upload_fds: "os_fds (snd (snd (UploadFileToAPI env api tid p os))) = os_fds os"
  by (cases rule: upload_cases [of env api tid p os]) auto

lemma upload_key: "fst (UploadFileToAPI env api tid p os) \<Longrightarrow>
    fst (snd (UploadFileToAPI env api tid p os)) = tid @ ''/'' @ after_last (CHR ''/'') p"
  by (cases rule: upload_cases [of env api tid p os]) auto

section \<open>Single-shot tasks\<close>

lemma output_file: "after_last (CHR ''/'') (task_output_dir task @ ''/'' @ output_name k) = output_name k"
  by (cases k) (simp_all add: after_last_append_sep)

lemma upload_one_file:
  "upload_files env api tid dir 0 [f] [] os = UploadFileToAPI env api tid (dir @ ''/'' @ f) os"
  by (cases "UploadFileToAPI env api tid (dir @ ''/'' @ f) os") (auto split: bool.split)

lemmas result_sel = task_result.select_convs task_result.update_convs default_task_result_def

text \<open>What the worker is going to report, by how far the task got.\<close>

lemma single_shot_cases:
  assumes "run_single_shot env flags task s = Returns (result, s')"
  obtains (unsupported) "CreateProfiler (td_profiler_type task) = None" "s' = s"
      "result = default_task_result\<lparr>tr_task_id := td_task_id task, tr_error_message :=
         ''unsupported profiler_type='' @ show_nat (unat (td_profiler_type task))\<rparr>"
  | (failed) k msg where "CreateProfiler (td_profiler_type task) = Some k"
      "profiler_record k (ae_prof env) task (task_output_dir task) [] [] s = Returns (False, msg, [], s')" "msg \<noteq> []"
      "result = default_task_result\<lparr>tr_task_id := td_task_id task, tr_error_message := msg\<rparr>"
  | (recorded) k msg s1 ok key os1 where "CreateProfiler (td_profiler_type task) = Some k"
      "profiler_record k (ae_prof env) task (task_output_dir task) [] [] s = Returns (True, msg, [output_name k], s1)"
      "UploadFileToAPI (pe_os (ae_prof env)) (FLAGS_apiserver_addr flags) (td_task_id task)
         (task_output_dir task @ ''/'' @ output_name k) (ps_os s1) = (ok, key, os1)"
      "s' = s1\<lparr>ps_os := os1\<rparr>" "ok \<Longrightarrow> key = td_task_id task @ ''/'' @ output_name k"
      "result = (if ok then default_task_result\<lparr>tr_task_id := td_task_id task, tr_cos_key := key\<rparr>
         else default_task_result\<lparr>tr_task_id := td_task_id task, tr_error_message := ''upload failed: '' @ key\<rparr>)"
proof (cases "CreateProfiler (td_profiler_type task)")
  case None
  then show ?thesis using assms unsupported by (simp add: run_single_shot_def Let_def)
next
  case (Some k)
  let ?u = "\<lambda>s1. UploadFileToAPI (pe_os (ae_prof env)) (FLAGS_apiserver_addr flags) (td_task_id task)
         (task_output_dir task @ ''/'' @ output_name k) (ps_os s1)"
  obtain ok msg files s1 where r:
    "profiler_record k (ae_prof env) task (task_output_dir task) [] [] s = Returns (ok, msg, files, s1)"
    using assms Some by (auto simp: run_single_shot_def Let_def)
  show ?thesis
  proof (cases ok)
    case False
    have "msg \<noteq> []" "files = []" using created.rec_failed r False by auto
    then show ?thesis using failed Some r assms False by (simp add: run_single_shot_def Let_def)
  next
    case True
    then have f: "files = [output_name k]" using profiler_record_files r by simp
    obtain uok key os1 where u: "?u s1 = (uok, key, os1)" by (cases "?u s1") auto
    have k: "uok \<Longrightarrow> key = td_task_id task @ ''/'' @ output_name k"
      using upload_key [of "pe_os (ae_prof env)" "FLAGS_apiserver_addr flags" "td_task_id task"
          "task_output_dir task @ ''/'' @ output_name k" "ps_os s1"] u output_file by simp
    have "result = (if uok then default_task_result\<lparr>tr_task_id := td_task_id task, tr_cos_key := key\<rparr>
        else default_task_result\<lparr>tr_task_id := td_task_id task, tr_error_message := ''upload failed: '' @ key\<rparr>)"
      "s' = s1\<lparr>ps_os := os1\<rparr>"
      using assms Some r True f u by (auto simp: run_single_shot_def Let_def upload_one_file simp del: upload_files.simps)
    with recorded [OF Some _ u] r True f k show ?thesis by simp
  qed
qed

lemma single_shot_id: "run_single_shot env flags task s = Returns (result, s') \<Longrightarrow> tr_task_id result = td_task_id task"
  by (erule single_shot_cases) (simp_all add: result_sel)

text \<open>
  C8. What the worker reports for a single-shot task.  The report carries the task's id, and it
  has an error message exactly when it has no storage key.  Success is reported only when the
  profiler's record returned true and curl then got status 200 for the file the profiler collected; the key is the
  task's id and that file's name.  A failing record is reported with the profiler's own message, a
  profiler type without an implementation with its number, and nothing is run for it.
\<close>

theorem worker_reports:
  assumes "run_single_shot env flags task s = Returns (result, s')"
  shows "tr_task_id result = td_task_id task \<and> (tr_error_message result = [] \<longleftrightarrow> tr_cos_key result \<noteq> [])
    \<and> (case CreateProfiler (td_profiler_type task) of
         None \<Rightarrow> s' = s \<and> tr_error_message result = ''unsupported profiler_type='' @ show_nat (unat (td_profiler_type task))
       | Some k \<Rightarrow> (\<exists>ok msg files s1.
           profiler_record k (ae_prof env) task (task_output_dir task) [] [] s = Returns (ok, msg, files, s1)
           \<and> (\<not> ok \<longrightarrow> tr_error_message result = msg \<and> s' = s1)
           \<and> (tr_error_message result = [] \<longrightarrow> ok
               \<and> http_code (curl_output (pe_os (ae_prof env)) (os_forks (ps_os s1))) = 200
               \<and> tr_cos_key result = td_task_id task @ ''/'' @ output_name k)))"
  using assms
proof (cases rule: single_shot_cases)
  case unsupported
  then show ?thesis by (simp add: result_sel)
next
  case (failed k msg)
  then show ?thesis by (auto simp: result_sel)
next
  case (recorded k msg s1 ok key os1)
  have "ok \<Longrightarrow> http_code (curl_output (pe_os (ae_prof env)) (os_forks (ps_os s1))) = 200"
    using recorded(3)
    by (cases rule: upload_cases [of "pe_os (ae_prof env)" "FLAGS_apiserver_addr flags" "td_task_id task"
        "task_output_dir task @ ''/'' @ output_name k" "ps_os s1"]) auto
  then show ?thesis using recorded by (auto simp: result_sel)
qed

lemma single_shot_returns:
  assumes "\<And>k. CreateProfiler (td_profiler_type task) = Some k \<Longrightarrow>
      \<exists>r. profiler_record k (ae_prof env) task (task_output_dir task) [] [] s = Returns r"
  shows "\<exists>result s'. run_single_shot env flags task s = Returns (result, s')"
proof (cases "CreateProfiler (td_profiler_type task)")
  case (Some k)
  then obtain ok msg files s1 where
    "profiler_record k (ae_prof env) task (task_output_dir task) [] [] s = Returns (ok, msg, files, s1)"
    using assms by fastforce
  then show ?thesis using Some by (cases ok) (simp_all add: run_single_shot_def Let_def split_beta)
qed (simp add: run_single_shot_def Let_def)

definition sample_agent_env :: agent_env where
  "sample_agent_env =
     \<lparr>ae_prof = sample_prof_env, ae_mono = real, ae_pid = 42, ae_hostname = Some ''h'', ae_getaddrinfo = (\<lambda>_. Some ''10.0.0.1''),
      ae_clk_tck = 100, ae_pagesize = 4096\<rparr>"

lemma sample_upload: "fst (UploadFileToAPI sample_os_env api tid p os)"
proof -
  have "http_code ''200'' = 200" by code_simp
  then show ?thesis
    by (simp add: UploadFileToAPI_def fork_child_def Let_def sample_os_env_def waitpid_def exit_code_def)
qed

lemma sample_record:
  "\<exists>msg files s'. profiler_record EbpfProfiler sample_prof_env task dir [] [] sample_prof = Returns (True, msg, files, s')"
  using sample_ebpf_run by simp

definition single_ebpf_task :: task_desc where
  "single_ebpf_task = default_task_desc\<lparr>td_task_id := ''task00000001'', td_profiler_type := 3\<rparr>"

lemma sample_ebpf_type:
  "CreateProfiler (td_profiler_type single_ebpf_task) = Some EbpfProfiler" "td_task_id single_ebpf_task = ''task00000001''"
  "td_task_type single_ebpf_task = 0"
  by (simp_all add: CreateProfiler_def single_ebpf_task_def default_task_desc_def)

lemma sample_single_shot:
  "\<exists>result s'. run_single_shot sample_agent_env flags single_ebpf_task sample_prof = Returns (result, s')
     \<and> tr_error_message result = []"
proof -
  have e: "ae_prof sample_agent_env = sample_prof_env" "pe_os sample_prof_env = sample_os_env"
    by (simp_all add: sample_agent_env_def sample_prof_env_def)
  obtain msg files s1 where r: "profiler_record EbpfProfiler sample_prof_env single_ebpf_task (task_output_dir single_ebpf_task)
      [] [] sample_prof = Returns (True, msg, files, s1)"
    using sample_record by blast
  then obtain result s' where run:
    "run_single_shot sample_agent_env flags single_ebpf_task sample_prof = Returns (result, s')"
    using single_shot_returns [of single_ebpf_task sample_agent_env sample_prof flags] e sample_ebpf_type by auto
  then have "tr_error_message result = []"
  proof (cases rule: single_shot_cases)
    case (recorded k msg s1 ok key os1)
    then have ok using sample_upload e by (metis fst_conv)
    then show ?thesis using recorded by (simp add: result_sel)
  qed (use r e sample_ebpf_type in simp_all)
  with run show ?thesis by blast
qed

theorem worker_reports_witness:
  "\<exists>result s'. run_single_shot sample_agent_env default_agent_flags single_ebpf_task sample_prof = Returns (result, s')
     \<and> tr_error_message result = [] \<and> tr_cos_key result = ''task00000001/collapsed_ebpf.txt''"
proof -
  from sample_single_shot [of default_agent_flags] obtain result s' where
    run: "run_single_shot sample_agent_env default_agent_flags single_ebpf_task sample_prof = Returns (result, s')"
      "tr_error_message result = []" by blast
  then show ?thesis using worker_reports [OF run(1)] by (auto simp: sample_ebpf_type)
qed

section \<open>All threads: the invariant\<close>

fun held_ids :: "worker_pc \<Rightarrow> string list" where
  "held_ids (Wk_execute task) = [td_task_id task]"
| "held_ids (Wk_report result) = [tr_task_id result]"
| "held_ids _ = []"

definition queue_inv :: "worker_state \<Rightarrow> bool" where
  "queue_inv w \<longleftrightarrow> distinct (map td_task_id (wk_queue w)) \<and> wk_accepted w = wk_taken w @ wk_queue w"

definition accounted :: "'ch agent_state \<Rightarrow> bool" where
  "accounted a \<longleftrightarrow>
     mset (map td_task_id (wk_taken (ag_worker a))) =
       mset (held_ids (ag_wk a)) + mset (map (\<lambda>r. td_task_id (snd r)) (ag_runners a))
       + mset (map (\<lambda>n. tr_task_id (snd n)) (ag_notified a))"

definition objects_inv :: "'ch agent_state \<Rightarrow> bool" where
  "objects_inv a \<longleftrightarrow> ag_live a = map fst (ag_runners a) \<and> distinct (map fst (ag_runners a))
     \<and> fst ` set (ag_runners a) \<subseteq> {..<ag_next a}"

definition servers_inv :: "(string \<Rightarrow> 'ch) \<Rightarrow> 'ch agent_state \<Rightarrow> bool" where
  "servers_inv mk a \<longleftrightarrow> pool_wf mk (ag_pool a)
     \<and> fst ` set (ag_notified a) \<subseteq> (Some \<circ> mk) ` set (addrs (ag_pool a))"

definition threads_inv :: "(string \<Rightarrow> 'ch) \<Rightarrow> 'ch agent_state \<Rightarrow> bool" where
  "threads_inv mk a \<longleftrightarrow> queue_inv (ag_worker a) \<and> accounted a \<and> objects_inv a \<and> servers_inv mk a"

lemmas inv_defs = threads_inv_def accounted_def objects_inv_def servers_inv_def

lemma queue_inv_push: "queue_inv w \<Longrightarrow> queue_inv (push_task task w)"
  by (auto simp: queue_inv_def push_task_def)

lemma taken_push [simp]: "wk_taken (push_task task w) = wk_taken w"
  by (simp add: push_task_def)

lemma servers_inv_failover:
  "servers_inv mk a \<Longrightarrow> pool_wf mk (Failover mk (ag_pool a)) \<and> addrs (Failover mk (ag_pool a)) = addrs (ag_pool a)"
  by (simp add: servers_inv_def pool_wf_def Failover_def Connect_def Let_def GetChannel_def CurrentAddr_def)

lemma inv_failed: "threads_inv mk a \<Longrightarrow> threads_inv mk (heartbeat_failed mk a)"
  using servers_inv_failover [of mk a] by (simp add: inv_defs heartbeat_failed_def Let_def)

lemma inv_ok: "threads_inv mk a \<Longrightarrow> threads_inv mk (heartbeat_ok rpc i flags ch resp a)"
  by (auto simp: inv_defs heartbeat_ok_def Let_def queue_inv_push split: option.split)

lemma inv_hb: "threads_inv mk (a\<lparr>ag_hb := h\<rparr>) = threads_inv mk a"
  by (simp add: inv_defs)

lemma heartbeat_step_cases:
  assumes "heartbeat_step env mk rpc flags a = Returns a'"
  obtains (checked) h where "a' = a\<lparr>ag_hb := h\<rparr>"
  | (failed) m where "ag_hb a = Hb_beat"
      "a' = (heartbeat_failed mk (a\<lparr>ag_memory := m, ag_beats := Suc (ag_beats a)\<rparr>))\<lparr>ag_hb := Hb_check\<rparr>"
  | (answered) m resp req where "ag_hb a = Hb_beat" "rpc_do rpc (ag_beats a) (GetChannel (ag_pool a)) req = Some resp"
      "a' = (heartbeat_ok rpc (ag_beats a) flags (GetChannel (ag_pool a)) resp
               (a\<lparr>ag_memory := m, ag_beats := Suc (ag_beats a)\<rparr>))\<lparr>ag_hb := Hb_check\<rparr>"
proof (cases "ag_hb a")
  case Hb_check
  then have "a' = a\<lparr>ag_hb := (if wk_shutdown (ag_worker a) then Hb_stopped else Hb_beat)\<rparr>"
    using assms by (simp add: heartbeat_step_def)
  then show ?thesis by (rule checked)
next
  case Hb_beat
  then show ?thesis
    using assms failed answered by (auto simp: heartbeat_step_def heartbeat_beat_def Let_def split: option.splits)
next
  case Hb_stopped
  then show ?thesis using assms checked [of "ag_hb a"] by (simp add: heartbeat_step_def)
qed

lemma inv_heartbeat:
  assumes "heartbeat_step env mk rpc flags a = Returns a'" and "threads_inv mk a"
  shows "threads_inv mk a'"
proof -
  have frame: "threads_inv mk (a\<lparr>ag_memory := m, ag_beats := i\<rparr>)" for m i using assms(2) by (simp add: inv_defs)
  show ?thesis
    using assms(1) by (cases rule: heartbeat_step_cases) (simp_all add: inv_hb inv_failed inv_ok assms(2) frame)
qed

lemma channel_of_pool: "servers_inv mk a \<Longrightarrow> GetChannel (ag_pool a) \<in> (Some \<circ> mk) ` set (addrs (ag_pool a))"
  by (auto simp: servers_inv_def pool_wf_def CurrentAddr_def)

lemma inv_worker:
  assumes "worker_step env flags a = Returns a'" and "threads_inv mk a"
  shows "threads_inv mk a'"
proof (cases "ag_wk a")
  case Wk_wait
  then have a': "a' = worker_take a" using assms(1) by (simp add: worker_step_def)
  show ?thesis
    using assms(2) Wk_wait unfolding a'
    by (cases "wk_queue (ag_worker a)") (simp_all add: worker_take_def Let_def inv_defs queue_inv_def)
next
  case (Wk_execute task)
  show ?thesis
  proof (cases "td_task_type task = 1")
    case True
    then have a': "a' = start_continuous task (a\<lparr>ag_wk := Wk_wait\<rparr>)"
      using assms(1) Wk_execute by (simp add: worker_step_def worker_execute_def)
    show ?thesis
      using assms(2) Wk_execute unfolding a'
      by (auto simp: start_continuous_def Let_def inv_defs queue_inv_def)
  next
    case False
    then obtain result s where "run_single_shot env flags task (ag_prof a) = Returns (result, s)"
      and a': "a' = a\<lparr>ag_prof := s, ag_wk := Wk_report result\<rparr>"
      using assms(1) Wk_execute by (auto simp: worker_step_def worker_execute_def)
    from single_shot_id [OF this(1)] show ?thesis
      using assms(2) Wk_execute unfolding a' by (simp add: inv_defs queue_inv_def)
  qed
next
  case (Wk_report result)
  then have a': "a' = (notify result a)\<lparr>ag_wk := Wk_wait\<rparr>" using assms(1) by (simp add: worker_step_def)
  show ?thesis
    using assms(2) Wk_report channel_of_pool [of mk a] unfolding a'
    by (simp add: notify_def inv_defs queue_inv_def)
qed (use assms in \<open>simp add: worker_step_def\<close>)

lemma map_fst_remove1: "distinct (map fst xs) \<Longrightarrow> r \<in> set xs \<Longrightarrow> map fst (remove1 r xs) = remove1 (fst r) (map fst xs)"
  by (induction xs) (auto simp: rev_image_eqI)

lemma inv_runner:
  assumes "continuous_runner fuel env flags stop r a = Returns a'" and "r \<in> set (ag_runners a)" and "threads_inv mk a"
  shows "threads_inv mk a'"
proof -
  obtain result s1 where a': "a' = (notify result (a\<lparr>ag_prof := s1\<rparr>))
      \<lparr>ag_live := remove1 (fst r) (ag_live a), ag_runners := remove1 r (ag_runners a)\<rparr>"
    and id: "tr_task_id result = td_task_id (snd r)"
    using assms(1) by (auto simp: continuous_runner_def Let_def notify_def default_task_result_def split: prod.splits if_splits)
  have m: "mset (map (\<lambda>r. td_task_id (snd r)) (ag_runners a)) =
      add_mset (td_task_id (snd r)) (mset (map (\<lambda>r. td_task_id (snd r)) (remove1 r (ag_runners a))))"
    using assms(2) by (metis (no_types, lifting) image_mset_add_mset insert_DiffM mset_map mset_remove1 set_mset_mset)
  have "accounted a'" using assms(3) m id by (simp add: inv_defs a' notify_def)
  moreover have "objects_inv a'"
    using assms(2,3) by (auto simp: inv_defs a' notify_def map_fst_remove1 dest: notin_set_remove1 set_remove1_subset [THEN subsetD])
  moreover have "servers_inv mk a'"
    using assms(3) channel_of_pool [of mk a] by (auto simp: inv_defs a' notify_def)
  ultimately show ?thesis using assms(3) by (simp add: threads_inv_def a' notify_def)
qed

lemma inv_step: "agent_step env mk rpc flags a a' \<Longrightarrow> threads_inv mk a \<Longrightarrow> threads_inv mk a'"
proof (induction rule: agent_step.induct)
  case (heartbeat a a')
  then show ?case using inv_heartbeat by blast
next
  case (worker a a')
  then show ?case using inv_worker by blast
next
  case (runner r a fuel stop a')
  then show ?case using inv_runner by blast
next
  case (signal a)
  then show ?case by (simp add: SignalHandler_def inv_defs queue_inv_def)
qed

lemma inv_reachable: "agent_reachable env mk rpc flags a0 a \<Longrightarrow> threads_inv mk a0 \<Longrightarrow> threads_inv mk a"
  by (induction rule: agent_reachable.induct) (auto intro: inv_step)

lemma inv_init: "threads_inv mk (snd (snd (agent_init env mk flags s)))"
  by (simp add: agent_init_def inv_defs queue_inv_def empty_worker_def pool_wf_Init)

text \<open>
  The registry keeps the pointer of a finished continuous task although the object is gone, so a
  later stop through it would use freed memory.
\<close>

lemma registry_dangles:
  assumes "continuous_runner fuel env flags stop (cp, task) a = Returns a'" and "(cp, task) \<in> set (ag_runners a)"
    and "threads_inv mk a" and "ag_registry a (td_task_id task) = Some cp"
  shows "ag_registry a' (td_task_id task) = Some cp \<and> cp \<notin> set (ag_live a')"
proof -
  have "ag_registry a' = ag_registry a \<and> ag_live a' = remove1 cp (ag_live a)"
    using assms(1) by (auto simp: continuous_runner_def Let_def notify_def)
  moreover have "distinct (ag_live a)" using assms(3) by (simp add: threads_inv_def objects_inv_def)
  ultimately show ?thesis using assms(4) by simp
qed

text \<open>
  Once the worker has stopped nothing is taken from the queue, but a heartbeat that read
  \<^verbatim>\<open>shutdown\<close> before the signal still adds the task the server handed out.
\<close>

lemma stopped_worker_takes_nothing:
  "agent_reachable env mk rpc flags a a' \<Longrightarrow> ag_wk a = Wk_stopped \<Longrightarrow>
   ag_wk a' = Wk_stopped \<and> wk_taken (ag_worker a') = wk_taken (ag_worker a)"
proof (induction rule: agent_reachable.induct)
  case (further b c)
  from further(2) show ?case
  proof cases
    case heartbeat
    then show ?thesis
      using further(3,4)
      by (cases rule: heartbeat_step_cases)
        (auto simp: heartbeat_failed_def heartbeat_ok_def Let_def split: option.split)
  next
    case worker
    then show ?thesis using further(3,4) by (simp add: worker_step_def)
  next
    case (runner r fuel stop)
    then show ?thesis using further(3,4) by (auto simp: continuous_runner_def notify_def Let_def split: prod.splits)
  next
    case signal
    then show ?thesis using further(3,4) by (simp add: SignalHandler_def)
  qed
qed simp

section \<open>Draining the queue\<close>

lemma worker_run_add: "worker_run (m + n) env flags a = bind_outc (worker_run m env flags a) (worker_run n env flags)"
proof (induction m arbitrary: a)
  case (Suc m)
  then show ?case by (cases "worker_step env flags a") simp_all
qed simp

text \<open>Every profiler that the tasks name comes back from record.\<close>

definition records_return :: "agent_env \<Rightarrow> task_desc list \<Rightarrow> bool" where
  "records_return env tasks \<longleftrightarrow>
     (\<forall>task \<in> set tasks. \<forall>k s. CreateProfiler (td_profiler_type task) = Some k \<longrightarrow>
        (\<exists>r. profiler_record k (ae_prof env) task (task_output_dir task) [] [] s = Returns r))"

definition continuous :: "task_desc \<Rightarrow> bool" where
  "continuous task \<longleftrightarrow> td_task_type task = 1"

text \<open>The worker from taking a task to waiting for the next one.\<close>

lemma one_task:
  assumes "ag_wk a = Wk_wait" and "wk_queue (ag_worker a) = task # rest" and "records_return env [task]"
  obtains n a' where "n \<le> 3" "worker_run n env flags a = Returns a'" "ag_wk a' = Wk_wait"
    "ag_worker a' = (ag_worker a)\<lparr>wk_queue := rest, wk_taken := wk_taken (ag_worker a) @ [task]\<rparr>"
    "map (\<lambda>n. tr_task_id (snd n)) (ag_notified a') = map (\<lambda>n. tr_task_id (snd n)) (ag_notified a)
       @ (if continuous task then [] else [td_task_id task])"
    "map snd (ag_runners a') = map snd (ag_runners a) @ (if continuous task then [task] else [])"
proof -
  let ?w = "(ag_worker a)\<lparr>wk_queue := rest, wk_taken := wk_taken (ag_worker a) @ [task]\<rparr>"
  have take: "worker_step env flags a = Returns (a\<lparr>ag_worker := ?w, ag_wk := Wk_execute task\<rparr>)"
    using assms(1,2) by (simp add: worker_step_def worker_take_def Let_def)
  show ?thesis
  proof (cases "continuous task")
    case True
    then have "worker_run 2 env flags a = Returns (start_continuous task (a\<lparr>ag_worker := ?w, ag_wk := Wk_wait\<rparr>))"
      by (simp add: numeral_2_eq_2 take) (simp add: worker_step_def worker_execute_def continuous_def)
    then show ?thesis by (rule that [rotated]) (simp_all add: True start_continuous_def Let_def)
  next
    case False
    obtain result s where r: "run_single_shot env flags task (ag_prof a) = Returns (result, s)"
      using single_shot_returns [of task env "ag_prof a" flags] assms(3) by (auto simp: records_return_def)
    have "worker_run 3 env flags a = Returns ((notify result (a\<lparr>ag_worker := ?w, ag_prof := s, ag_wk := Wk_report result\<rparr>))\<lparr>ag_wk := Wk_wait\<rparr>)"
      using False by (simp add: numeral_3_eq_3 take) (simp add: worker_step_def worker_execute_def continuous_def r)
    then show ?thesis by (rule that [rotated]) (simp_all add: False notify_def single_shot_id [OF r])
  qed
qed

lemma drain:
  assumes "ag_wk a = Wk_wait" and "wk_shutdown (ag_worker a)" and "records_return env (wk_queue (ag_worker a))"
  shows "\<exists>n \<le> 3 * length (wk_queue (ag_worker a)) + 1. \<exists>a'. worker_run n env flags a = Returns a'
    \<and> ag_wk a' = Wk_stopped \<and> wk_queue (ag_worker a') = []
    \<and> wk_taken (ag_worker a') = wk_taken (ag_worker a) @ wk_queue (ag_worker a)
    \<and> map (\<lambda>n. tr_task_id (snd n)) (ag_notified a') = map (\<lambda>n. tr_task_id (snd n)) (ag_notified a)
        @ map td_task_id (filter (\<lambda>t. \<not> continuous t) (wk_queue (ag_worker a)))
    \<and> map snd (ag_runners a') = map snd (ag_runners a) @ filter continuous (wk_queue (ag_worker a))"
  using assms
proof (induction "wk_queue (ag_worker a)" arbitrary: a)
  case Nil
  then have "worker_run 1 env flags a = Returns (a\<lparr>ag_wk := Wk_stopped\<rparr>)"
    by (simp add: worker_step_def worker_take_def Let_def)
  then show ?case using Nil(1) [symmetric] by (intro exI [of _ 1]) simp
next
  case (Cons task rest)
  have q: "wk_queue (ag_worker a) = task # rest" using Cons(2) by simp
  have "records_return env [task]" using Cons(5) by (simp add: q records_return_def)
  from one_task [where flags = flags, OF Cons(3) q this] obtain n b where b: "n \<le> 3" "worker_run n env flags a = Returns b" "ag_wk b = Wk_wait"
    "ag_worker b = (ag_worker a)\<lparr>wk_queue := rest, wk_taken := wk_taken (ag_worker a) @ [task]\<rparr>"
    "map (\<lambda>n. tr_task_id (snd n)) (ag_notified b) = map (\<lambda>n. tr_task_id (snd n)) (ag_notified a)
       @ (if continuous task then [] else [td_task_id task])"
    "map snd (ag_runners b) = map snd (ag_runners a) @ (if continuous task then [task] else [])" .
  have "records_return env rest" using Cons(5) by (simp add: q records_return_def)
  then obtain m c where c: "m \<le> 3 * length rest + 1" "worker_run m env flags b = Returns c"
    "ag_wk c = Wk_stopped" "wk_queue (ag_worker c) = []" "wk_taken (ag_worker c) = wk_taken (ag_worker b) @ rest"
    "map (\<lambda>n. tr_task_id (snd n)) (ag_notified c) = map (\<lambda>n. tr_task_id (snd n)) (ag_notified b)
        @ map td_task_id (filter (\<lambda>t. \<not> continuous t) rest)"
    "map snd (ag_runners c) = map snd (ag_runners b) @ filter continuous rest"
    using Cons(1) [of b] b(3,4) Cons(4) by auto
  have "worker_run (n + m) env flags a = Returns c" using b(2) c(2) by (simp add: worker_run_add)
  moreover have "n + m \<le> 3 * length (task # rest) + 1" using b(1) c(1) by simp
  ultimately show ?case using c b(4-6) unfolding q by (intro exI [of _ "n + m"] conjI exI [of _ c]) auto
qed

section \<open>Failover\<close>

lemma heartbeat_run_add:
  "heartbeat_run (m + n) env mk rpc flags a = bind_outc (heartbeat_run m env mk rpc flags a) (heartbeat_run n env mk rpc flags)"
proof (induction m arbitrary: a)
  case (Suc m)
  then show ?case by (cases "heartbeat_step env mk rpc flags a") simp_all
qed simp

text \<open>The files of \<^verbatim>\<open>/proc/self\<close> parse, so that computing the statistics does not throw.\<close>

definition proc_readable :: "agent_env \<Rightarrow> os_state \<Rightarrow> bool" where
  "proc_readable env os \<longleftrightarrow>
     (case ReadSelfStat (ae_pagesize env) os zero_stats of
        Inl _ \<Rightarrow> False
      | Inr (_, cur) \<Rightarrow> (case ReadSelfIO os cur of Inl _ \<Rightarrow> False | Inr _ \<Rightarrow> True))"

text \<open>What the server answers to the heartbeat that is due.\<close>

definition beat_stats :: "agent_env \<Rightarrow> 'ch agent_state \<Rightarrow> (pid_stats \<times> stats_memory) res" where
  "beat_stats env a = ComputePidStats (ae_clk_tck env) (ae_pagesize env) (ae_pid env)
     (ae_mono env (2 * ag_beats a)) (ae_mono env (2 * ag_beats a + 1)) (ps_os (ag_prof a)) (ag_memory a)"

definition beat_answer :: "agent_env \<Rightarrow> 'ch rpc_env \<Rightarrow> agent_flags \<Rightarrow> 'ch agent_state \<Rightarrow> health_check_response option" where
  "beat_answer env rpc flags a =
     (case beat_stats env a of
        Inl _ \<Rightarrow> None
      | Inr (ps, _) \<Rightarrow> rpc_do rpc (ag_beats a) (GetChannel (ag_pool a)) (heartbeat_request flags ps))"

lemma stats_computed:
  assumes "proc_readable env (ps_os (ag_prof a))"
  obtains ps mem where "beat_stats env a = Inr (ps, mem)"
proof -
  obtain b cur0 where st: "ReadSelfStat (ae_pagesize env) (ps_os (ag_prof a)) zero_stats = Inr (b, cur0)"
    using assms by (auto simp: proc_readable_def split: sum.splits)
  then obtain b' cur where "ReadSelfIO (ps_os (ag_prof a)) cur0 = Inr (b', cur)"
    using assms by (cases "ReadSelfIO (ps_os (ag_prof a)) cur0") (auto simp: proc_readable_def)
  with st show ?thesis
    using that by (simp add: beat_stats_def ComputePidStats_def Let_def rate_range [OF elapsed_positive])
qed

definition heartbeat_ready :: "agent_env \<Rightarrow> (string \<Rightarrow> 'ch) \<Rightarrow> 'ch agent_state \<Rightarrow> bool" where
  "heartbeat_ready env mk a \<longleftrightarrow>
     ag_hb a = Hb_check \<and> \<not> wk_shutdown (ag_worker a) \<and> proc_readable env (ps_os (ag_prof a)) \<and> pool_wf mk (ag_pool a) \<and> ag_failures a < 3"

lemma failed_beat:
  assumes "ag_hb a = Hb_check" "\<not> wk_shutdown (ag_worker a)" "proc_readable env (ps_os (ag_prof a))" and "beat_answer env rpc flags a = None"
  obtains m where "heartbeat_run 2 env mk rpc flags a =
      Returns ((heartbeat_failed mk (a\<lparr>ag_memory := m, ag_beats := Suc (ag_beats a)\<rparr>))\<lparr>ag_hb := Hb_check\<rparr>)"
proof -
  from stats_computed [OF assms(3)] obtain ps m where s: "beat_stats env a = Inr (ps, m)" .
  have "heartbeat_step env mk rpc flags (a\<lparr>ag_hb := Hb_beat\<rparr>) =
      Returns ((heartbeat_failed mk (a\<lparr>ag_hb := Hb_beat, ag_memory := m, ag_beats := Suc (ag_beats a)\<rparr>))\<lparr>ag_hb := Hb_check\<rparr>)"
    using assms(4) s by (simp add: heartbeat_step_def heartbeat_beat_def Let_def beat_answer_def beat_stats_def)
  moreover have "heartbeat_step env mk rpc flags a = Returns (a\<lparr>ag_hb := Hb_beat\<rparr>)"
    using assms(1,2) by (simp add: heartbeat_step_def)
  ultimately have "heartbeat_run 2 env mk rpc flags a =
      Returns ((heartbeat_failed mk (a\<lparr>ag_memory := m, ag_beats := Suc (ag_beats a)\<rparr>))\<lparr>ag_hb := Hb_check\<rparr>)"
    by (simp add: numeral_2_eq_2 heartbeat_failed_def Let_def)
  then show ?thesis by (rule that)
qed

text \<open>Where \<open>n\<close> unanswered heartbeats lead from a state: the specification of the failover.\<close>

definition after_failures :: "(string \<Rightarrow> 'ch) \<Rightarrow> nat \<Rightarrow> 'ch agent_state \<Rightarrow> 'ch agent_state \<Rightarrow> bool" where
  "after_failures mk n a b \<longleftrightarrow>
     ag_hb b = Hb_check \<and> ag_worker b = ag_worker a \<and> ag_prof b = ag_prof a \<and> ag_beats b = ag_beats a + n
     \<and> addrs (ag_pool b) = addrs (ag_pool a) \<and> GetChannel (ag_pool b) = Some (mk (CurrentAddr (ag_pool b)))
     \<and> (if length (addrs (ag_pool a)) > 1
         then ag_failures b = (ag_failures a + n) mod 3
           \<and> CurrentIdx (ag_pool b) = (CurrentIdx (ag_pool a) + (ag_failures a + n) div 3) mod length (addrs (ag_pool a))
           \<and> (ag_registered b \<longleftrightarrow> ag_registered a \<and> ag_failures a + n < 3)
         else ag_failures b = ag_failures a + n \<and> ag_pool b = ag_pool a \<and> ag_registered b = ag_registered a)"

lemma after_failures_0: "heartbeat_ready env mk a \<Longrightarrow> after_failures mk 0 a a"
  by (simp add: heartbeat_ready_def after_failures_def pool_wf_def CurrentIdx_def)

lemma after_failures_Suc:
  assumes "after_failures mk n a b" and "pool_wf mk (ag_pool a)"
  shows "after_failures mk (Suc n) a ((heartbeat_failed mk (b\<lparr>ag_memory := m, ag_beats := Suc (ag_beats b)\<rparr>))\<lparr>ag_hb := Hb_check\<rparr>)"
proof (cases "length (addrs (ag_pool a)) > 1")
  case False
  then show ?thesis
    using assms by (auto simp: after_failures_def heartbeat_failed_def Let_def pool_wf_def)
next
  case True
  let ?f = "ag_failures a + n"
  have f: "ag_failures b = ?f mod 3" "addrs (ag_pool b) = addrs (ag_pool a)"
      "CurrentIdx (ag_pool b) = (CurrentIdx (ag_pool a) + ?f div 3) mod length (addrs (ag_pool a))"
    using assms(1) True by (simp_all add: after_failures_def)
  have wf: "pool_wf mk (Failover mk (ag_pool b))"
    using True f(2) by (simp add: Failover_def Let_def, intro pool_wf_Connect) auto
  show ?thesis
  proof (cases "?f mod 3 = 2")
    case t: True
    then have "Suc ?f mod 3 = 0" "Suc ?f div 3 = Suc (?f div 3)" "3 \<le> Suc ?f" by presburger+
    then show ?thesis
      using assms(1) True f t wf
      by (simp add: after_failures_def heartbeat_failed_def Let_def kFailoverThreshold_def CurrentIdx_def idx_Failover
          pool_wf_def mod_Suc_eq)
  next
    case t: False
    then have "Suc ?f mod 3 = Suc (?f mod 3)" "Suc ?f div 3 = ?f div 3" "Suc ?f < 3 \<longleftrightarrow> ?f < 3" "?f mod 3 < 2"
      by presburger+
    then show ?thesis
      using assms(1) True f
      by (simp add: after_failures_def heartbeat_failed_def Let_def kFailoverThreshold_def)
  qed
qed

lemma failing_beats:
  assumes "heartbeat_ready env mk a"
    and "\<And>m b. m < n \<Longrightarrow> heartbeat_run (2 * m) env mk rpc flags a = Returns b \<Longrightarrow> after_failures mk m a b \<Longrightarrow>
      beat_answer env rpc flags b = None"
  shows "\<exists>b. heartbeat_run (2 * n) env mk rpc flags a = Returns b \<and> after_failures mk n a b"
  using assms(2)
proof (induction n)
  case 0
  then show ?case using after_failures_0 [OF assms(1)] by simp
next
  case (Suc n)
  have "\<exists>b. heartbeat_run (2 * n) env mk rpc flags a = Returns b \<and> after_failures mk n a b"
    by (rule Suc.IH) (use Suc.prems less_SucI in blast)
  then obtain b where b: "heartbeat_run (2 * n) env mk rpc flags a = Returns b" "after_failures mk n a b" by blast
  then have "ag_prof b = ag_prof a" by (simp add: after_failures_def)
  then have "ag_hb b = Hb_check" "\<not> wk_shutdown (ag_worker b)" "proc_readable env (ps_os (ag_prof b))"
    using assms(1) b(2) by (simp_all add: heartbeat_ready_def after_failures_def)
  then obtain m where "heartbeat_run 2 env mk rpc flags b =
      Returns ((heartbeat_failed mk (b\<lparr>ag_memory := m, ag_beats := Suc (ag_beats b)\<rparr>))\<lparr>ag_hb := Hb_check\<rparr>)"
    using failed_beat Suc.prems [OF _ b] by blast
  moreover have "heartbeat_run (2 * Suc n) env mk rpc flags a = heartbeat_run 2 env mk rpc flags b"
    using heartbeat_run_add [of "2 * n" 2 env mk rpc flags a] b(1) by simp
  moreover have "pool_wf mk (ag_pool a)" using assms(1) by (simp add: heartbeat_ready_def)
  ultimately show ?case using after_failures_Suc [OF b(2)] by auto
qed

lemma answered_beat:
  assumes "ag_hb a = Hb_check" "\<not> wk_shutdown (ag_worker a)" "proc_readable env (ps_os (ag_prof a))"
    and "beat_answer env rpc flags a = Some resp"
  obtains m where "heartbeat_run 2 env mk rpc flags a = Returns ((heartbeat_ok rpc (ag_beats a) flags (GetChannel (ag_pool a)) resp
      (a\<lparr>ag_hb := Hb_beat, ag_memory := m, ag_beats := Suc (ag_beats a)\<rparr>))\<lparr>ag_hb := Hb_check\<rparr>)"
proof -
  from stats_computed [OF assms(3)] obtain ps m where s: "beat_stats env a = Inr (ps, m)" .
  have "heartbeat_step env mk rpc flags a = Returns (a\<lparr>ag_hb := Hb_beat\<rparr>)"
    using assms(1,2) by (simp add: heartbeat_step_def)
  then show ?thesis
    using assms(4) s that [of m]
    by (simp add: numeral_2_eq_2) (simp add: heartbeat_step_def heartbeat_beat_def Let_def beat_answer_def beat_stats_def)
qed

section \<open>Runs of one thread are runs of the agent\<close>

lemma reachable_trans:
  "agent_reachable env mk rpc flags b c \<Longrightarrow> agent_reachable env mk rpc flags a b \<Longrightarrow> agent_reachable env mk rpc flags a c"
  by (induction rule: agent_reachable.induct) (blast intro: further)+

lemma reachable_step:
  "agent_step env mk rpc flags a b \<Longrightarrow> agent_reachable env mk rpc flags b c \<Longrightarrow> agent_reachable env mk rpc flags a c"
  by (rule reachable_trans [OF _ further [OF start]])

lemma reachable_worker: "worker_run n env flags a = Returns b \<Longrightarrow> agent_reachable env mk rpc flags a b"
proof (induction n arbitrary: a)
  case (Suc n)
  then show ?case using reachable_step worker by fastforce
qed (simp add: start)

lemma reachable_heartbeat: "heartbeat_run n env mk rpc flags a = Returns b \<Longrightarrow> agent_reachable env mk rpc flags a b"
proof (induction n arbitrary: a)
  case (Suc n)
  then show ?case using reachable_step heartbeat by fastforce
qed (simp add: start)

section \<open>An agent with two servers, of which the second answers\<close>

definition sample_flags :: agent_flags where
  "sample_flags = default_agent_flags\<lparr>FLAGS_server_addr := ''a:1,b:2'', FLAGS_hostname := ''h'', FLAGS_ip := ''i'', FLAGS_uid := ''u''\<rparr>"

definition sample_agent :: "string agent_state" where
  "sample_agent = snd (snd (agent_init sample_agent_env id sample_flags sample_prof))"

definition sample_rpc :: "string rpc_env" where
  "sample_rpc =
     \<lparr>rpc_do = (\<lambda>i ch req. if ch = Some ''b:2'' then Some (default_health_check_response\<lparr>hcr_pending := (i = 3), hcr_task_desc := Some single_ebpf_task\<rparr>) else None),
      rpc_register = (\<lambda>i ch req. True)\<rparr>"

definition prompt_rpc :: "string rpc_env" where
  "prompt_rpc =
     \<lparr>rpc_do = (\<lambda>i ch req. Some (default_health_check_response\<lparr>hcr_pending := True, hcr_task_desc := Some single_ebpf_task\<rparr>)),
      rpc_register = (\<lambda>i ch req. True)\<rparr>"

lemma sample_pool: "addrs (ag_pool sample_agent) = [''a:1'', ''b:2'']" "current_idx (ag_pool sample_agent) = 0"
proof -
  have "parse_addrs (getlines (CHR '','') ''a:1,b:2'') [] = [''a:1'', ''b:2'']" by code_simp
  then show "addrs (ag_pool sample_agent) = [''a:1'', ''b:2'']" "current_idx (ag_pool sample_agent) = 0"
    by (simp_all add: sample_agent_def agent_init_def sample_flags_def default_agent_flags_def Init_def empty_pool_def
        Connect_def Let_def)
qed

lemma sample_readable: "proc_readable env (ps_os sample_prof)"
  by (simp add: proc_readable_def ReadSelfStat_def ReadSelfIO_def sample_prof_def sample_os_def)

lemma sample_agent_sel:
  "ag_prof sample_agent = sample_prof" "ag_hb sample_agent = Hb_check" "ag_wk sample_agent = Wk_wait"
  "ag_worker sample_agent = empty_worker" "ag_failures sample_agent = 0" "ag_notified sample_agent = []"
  "ag_runners sample_agent = []" "ag_beats sample_agent = 0"
  by (simp_all add: sample_agent_def agent_init_def)

lemma sample_ready: "heartbeat_ready sample_agent_env id sample_agent"
proof -
  have "pool_wf id (ag_pool sample_agent)" using inv_init [of id sample_agent_env sample_flags sample_prof]
    by (simp add: sample_agent_def threads_inv_def servers_inv_def)
  then show ?thesis by (simp add: heartbeat_ready_def sample_agent_sel sample_readable empty_worker_def)
qed

section \<open>Properties\<close>

text \<open>
  C7. No task is lost or run twice inside the agent.  In every state the threads can reach
  together from start-up, the ids in the queue are distinct, tasks leave the queue in the order in
  which they were accepted, and the ids of all accepted tasks are, with multiplicity, those in the
  queue, in the worker's hands, with a thread running a continuous task, and reported to the server; every
  report went to one of the configured addresses.
\<close>

theorem agent_accounts_for_tasks:
  assumes "agent_init env0 mk flags0 s = (env, flags, a0)" and "agent_reachable env mk rpc flags a0 a"
  shows "distinct (map td_task_id (wk_queue (ag_worker a)))
    \<and> wk_accepted (ag_worker a) = wk_taken (ag_worker a) @ wk_queue (ag_worker a)
    \<and> mset (map td_task_id (wk_accepted (ag_worker a))) =
        mset (map td_task_id (wk_queue (ag_worker a))) + mset (held_ids (ag_wk a))
        + mset (map (\<lambda>r. td_task_id (snd r)) (ag_runners a)) + mset (map (\<lambda>n. tr_task_id (snd n)) (ag_notified a))
    \<and> fst ` set (ag_notified a) \<subseteq> (Some \<circ> mk) ` set (addrs (ag_pool a))"
proof -
  have "threads_inv mk a0" using inv_init [of mk env0 flags0 s] assms(1) by simp
  then have "threads_inv mk a" using inv_reachable [OF assms(2)] by blast
  then show ?thesis by (simp add: inv_defs queue_inv_def)
qed

definition accepted_state :: "stats_memory \<Rightarrow> string agent_state" where
  "accepted_state m = (heartbeat_ok prompt_rpc (ag_beats sample_agent) sample_flags (GetChannel (ag_pool sample_agent))
     (default_health_check_response\<lparr>hcr_pending := True, hcr_task_desc := Some single_ebpf_task\<rparr>)
     (sample_agent\<lparr>ag_hb := Hb_beat, ag_memory := m, ag_beats := Suc (ag_beats sample_agent)\<rparr>))\<lparr>ag_hb := Hb_check\<rparr>"

lemma accepted_state_sel:
  "ag_wk (accepted_state m) = Wk_wait" "wk_queue (ag_worker (accepted_state m)) = [single_ebpf_task]"
  "wk_taken (ag_worker (accepted_state m)) = []" "ag_notified (accepted_state m) = []"
  by (simp_all add: accepted_state_def heartbeat_ok_def Let_def push_task_def sample_agent_sel empty_worker_def)

lemma sample_returns: "records_return sample_agent_env [single_ebpf_task]"
  using ebpf_returns [OF sample_mkdir] by (simp add: records_return_def sample_ebpf_type sample_agent_env_def)

lemma sample_reports:
  "\<exists>a. agent_reachable sample_agent_env id prompt_rpc sample_flags sample_agent a
     \<and> wk_taken (ag_worker a) = [single_ebpf_task] \<and> map (\<lambda>n. tr_task_id (snd n)) (ag_notified a) = [''task00000001'']"
proof -
  have "proc_readable sample_agent_env (ps_os (ag_prof sample_agent))" by (simp add: sample_agent_sel sample_readable)
  from stats_computed [OF this] obtain ps mem where stats: "beat_stats sample_agent_env sample_agent = Inr (ps, mem)" .
  have ans: "beat_answer sample_agent_env prompt_rpc sample_flags sample_agent
      = Some (default_health_check_response\<lparr>hcr_pending := True, hcr_task_desc := Some single_ebpf_task\<rparr>)"
    by (simp add: beat_answer_def prompt_rpc_def stats)
  have "ag_hb sample_agent = Hb_check" "\<not> wk_shutdown (ag_worker sample_agent)"
      "proc_readable sample_agent_env (ps_os (ag_prof sample_agent))"
    using sample_ready by (simp_all add: heartbeat_ready_def)
  from answered_beat [where mk = id, OF this ans] obtain m where
    run1: "heartbeat_run 2 sample_agent_env id prompt_rpc sample_flags sample_agent = Returns (accepted_state m)"
    unfolding accepted_state_def .
  note a1 = accepted_state_sel [of m]
  from one_task [where flags = sample_flags, OF a1(1,2) sample_returns] obtain n a2 where
    "n \<le> 3" and run2: "worker_run n sample_agent_env sample_flags (accepted_state m) = Returns a2"
    and "ag_wk a2 = Wk_wait" and a2: "ag_worker a2 = (ag_worker (accepted_state m))\<lparr>wk_queue := [], wk_taken := wk_taken (ag_worker (accepted_state m)) @ [single_ebpf_task]\<rparr>"
    "map (\<lambda>n. tr_task_id (snd n)) (ag_notified a2) = map (\<lambda>n. tr_task_id (snd n)) (ag_notified (accepted_state m))
       @ (if continuous single_ebpf_task then [] else [td_task_id single_ebpf_task])"
    and "map snd (ag_runners a2) = map snd (ag_runners (accepted_state m))
       @ (if continuous single_ebpf_task then [single_ebpf_task] else [])" .
  have "agent_reachable sample_agent_env id prompt_rpc sample_flags sample_agent a2"
    using reachable_trans [OF reachable_worker [OF run2] reachable_heartbeat [OF run1]] .
  moreover have "wk_taken (ag_worker a2) = [single_ebpf_task]" using a2(1) a1(3) by simp
  moreover have "map (\<lambda>n. tr_task_id (snd n)) (ag_notified a2) = [''task00000001'']"
    using a2(2) a1(4) by (simp add: continuous_def sample_ebpf_type)
  ultimately show ?thesis by (intro exI [of _ a2] conjI)
qed

theorem agent_accounts_for_tasks_witness:
  "\<exists>a. agent_reachable sample_agent_env id prompt_rpc sample_flags sample_agent a
     \<and> mset (map td_task_id (wk_accepted (ag_worker a))) = {#''task00000001''#} + mset (map td_task_id (wk_queue (ag_worker a)))
         + mset (held_ids (ag_wk a)) + mset (map (\<lambda>r. td_task_id (snd r)) (ag_runners a))"
proof -
  from sample_reports obtain a where a: "agent_reachable sample_agent_env id prompt_rpc sample_flags sample_agent a"
    "map (\<lambda>n. tr_task_id (snd n)) (ag_notified a) = [''task00000001'']" by (elim exE conjE)
  have "agent_init sample_agent_env id sample_flags sample_prof = (sample_agent_env, sample_flags, sample_agent)"
    by (simp add: sample_agent_def agent_init_def system_constants_def resolve_flags_def sample_agent_env_def
        sample_flags_def default_agent_flags_def Let_def)
  from agent_accounts_for_tasks [OF this a(1)] have
    "mset (map td_task_id (wk_accepted (ag_worker a))) =
        mset (map td_task_id (wk_queue (ag_worker a))) + mset (held_ids (ag_wk a))
        + mset (map (\<lambda>r. td_task_id (snd r)) (ag_runners a)) + mset (map (\<lambda>n. tr_task_id (snd n)) (ag_notified a))" by blast
  then show ?thesis using a by (intro exI [of _ a]) (simp add: ac_simps del: mset_map)
qed

text \<open>
  C13. Failover.  As long as no heartbeat is answered, an agent with several servers moves to the
  next one after every third failure, cyclically, drops its registration and keeps its queue; with one server it
  stays and only counts.  After each move the channel belongs to the current address.
\<close>

theorem failover_schedule:
  assumes "heartbeat_ready env mk a" and "\<forall>i ch req. rpc_do rpc i ch req = None"
  shows "\<exists>b. heartbeat_run (2 * n) env mk rpc flags a = Returns b \<and> ag_worker b = ag_worker a
    \<and> GetChannel (ag_pool b) = Some (mk (CurrentAddr (ag_pool b)))
    \<and> (if length (addrs (ag_pool a)) > 1
        then ag_failures b = (ag_failures a + n) mod 3
          \<and> CurrentIdx (ag_pool b) = (CurrentIdx (ag_pool a) + (ag_failures a + n) div 3) mod length (addrs (ag_pool a))
          \<and> (ag_registered b \<longleftrightarrow> ag_registered a \<and> ag_failures a + n < 3)
        else ag_failures b = ag_failures a + n \<and> ag_pool b = ag_pool a)"
proof -
  have "beat_answer env rpc flags b = None" for b
    using assms(2) by (simp add: beat_answer_def split: sum.split)
  then obtain b where "heartbeat_run (2 * n) env mk rpc flags a = Returns b" "after_failures mk n a b"
    using failing_beats [OF assms(1)] by blast
  then show ?thesis by (auto simp: after_failures_def)
qed

theorem failover_schedule_witness:
  "\<exists>b. heartbeat_run 8 sample_agent_env id (sample_rpc\<lparr>rpc_do := \<lambda>i ch req. None\<rparr>) sample_flags sample_agent = Returns b
     \<and> ag_failures b = 1 \<and> CurrentIdx (ag_pool b) = 1"
proof -
  have "\<forall>i ch req. rpc_do (sample_rpc\<lparr>rpc_do := \<lambda>i ch req. None\<rparr>) i ch req = None" by simp
  from failover_schedule [OF sample_ready this, of 4 sample_flags] show ?thesis
    by (auto simp: sample_agent_sel sample_pool CurrentIdx_def)
qed

text \<open>
  C12. The agent finds a server that answers.  If one of several configured servers answers every
  heartbeat, then whatever the others do, one of the next \<open>3 * n\<close> heartbeats, with \<open>n\<close> the number of servers, is
  answered.
\<close>

theorem failover_finds_server:
  assumes "heartbeat_ready env mk a" and "length (addrs (ag_pool a)) > 1" and "addr \<in> set (addrs (ag_pool a))"
    and "\<forall>i req. rpc_do rpc i (Some (mk addr)) req \<noteq> None"
  shows "\<exists>n b. n < 3 * length (addrs (ag_pool a)) \<and> heartbeat_run (2 * n) env mk rpc flags a = Returns b
    \<and> beat_answer env rpc flags b \<noteq> None"
proof (rule ccontr)
  assume none: "\<not> ?thesis"
  let ?l = "length (addrs (ag_pool a))" and ?i = "CurrentIdx (ag_pool a)"
  obtain j where j: "j < ?l" "addrs (ag_pool a) ! j = addr" using assms(3) by (auto simp: in_set_conv_nth)
  define k where "k = (j + (?l - ?i)) mod ?l"
  have i: "?i < ?l" "ag_failures a < 3" using assms(1) by (simp_all add: heartbeat_ready_def pool_wf_def CurrentIdx_def)
  have "(?i + k) mod ?l = (?i + (j + (?l - ?i))) mod ?l" by (simp add: k_def mod_add_right_eq)
  also have "\<dots> = j" using i j by simp
  finally have kj: "(?i + k) mod ?l = j" .
  define n where "n = 3 * k - ag_failures a"
  have "0 < ?l" using j(1) by linarith
  then have "k < ?l" unfolding k_def by (rule mod_less_divisor)
  then have n: "n < 3 * ?l" by (simp add: n_def)
  have "beat_answer env rpc flags b = None" if "m < n" "heartbeat_run (2 * m) env mk rpc flags a = Returns b" for m b
    using none that n by (meson less_trans)
  then obtain b where b: "heartbeat_run (2 * n) env mk rpc flags a = Returns b" "after_failures mk n a b"
    using failing_beats [OF assms(1), of n rpc flags] by blast
  have "(ag_failures a + n) div 3 = k" using i(2) by (simp add: n_def)
  then have "CurrentIdx (ag_pool b) = j" "addrs (ag_pool b) = addrs (ag_pool a)" and ch: "GetChannel (ag_pool b) = Some (mk (CurrentAddr (ag_pool b)))"
    using b(2) assms(2) kj by (simp_all add: after_failures_def)
  then have "CurrentAddr (ag_pool b) = addr" using j(2) by (simp add: CurrentIdx_def CurrentAddr_def)
  with ch have c: "GetChannel (ag_pool b) = Some (mk addr)" by simp
  have "proc_readable env (ps_os (ag_prof b))" using b(2) assms(1) by (simp add: after_failures_def heartbeat_ready_def)
  from stats_computed [OF this] obtain ps m where "beat_stats env b = Inr (ps, m)" .
  then have "beat_answer env rpc flags b \<noteq> None" using assms(4) c by (simp add: beat_answer_def)
  then show False using none n b(1) by blast
qed

theorem failover_finds_server_witness:
  "\<exists>n b. n < 6 \<and> heartbeat_run (2 * n) sample_agent_env id sample_rpc sample_flags sample_agent = Returns b
    \<and> beat_answer sample_agent_env sample_rpc sample_flags b \<noteq> None"
  using failover_finds_server [OF sample_ready, of "''b:2''" sample_rpc sample_flags]
  by (simp add: sample_pool sample_rpc_def)

text \<open>
  C14. Shutdown.  After a signal the worker finishes: if every profiler named in the queue returns
  from record, then within three steps per queued task and one more it has taken the whole queue in
  order, reported each single-shot task, in order, started a thread for each continuous one, and
  stopped.
\<close>

theorem shutdown_drains:
  assumes "ag_wk a = Wk_wait" and "records_return env (wk_queue (ag_worker a))"
  shows "\<exists>n \<le> 3 * length (wk_queue (ag_worker a)) + 1. \<exists>a'. worker_run n env flags (SignalHandler a) = Returns a'
    \<and> ag_wk a' = Wk_stopped \<and> wk_queue (ag_worker a') = []
    \<and> wk_taken (ag_worker a') = wk_taken (ag_worker a) @ wk_queue (ag_worker a)
    \<and> map (\<lambda>n. tr_task_id (snd n)) (ag_notified a') = map (\<lambda>n. tr_task_id (snd n)) (ag_notified a)
        @ map td_task_id (filter (\<lambda>t. \<not> continuous t) (wk_queue (ag_worker a)))
    \<and> map snd (ag_runners a') = map snd (ag_runners a) @ filter continuous (wk_queue (ag_worker a))"
  using drain [of "SignalHandler a" env flags] assms by (simp add: SignalHandler_def)

theorem shutdown_drains_witness:
  "\<exists>n \<le> 4. \<exists>a'. worker_run n sample_agent_env sample_flags (SignalHandler (accepted_state fresh_memory)) = Returns a'
    \<and> ag_wk a' = Wk_stopped \<and> map (\<lambda>n. tr_task_id (snd n)) (ag_notified a') = [''task00000001'']"
proof -
  have a: "ag_wk (accepted_state fresh_memory) = Wk_wait" "wk_queue (ag_worker (accepted_state fresh_memory)) = [single_ebpf_task]"
      "ag_notified (accepted_state fresh_memory) = []"
    by (simp_all add: accepted_state_sel)
  then have "records_return sample_agent_env (wk_queue (ag_worker (accepted_state fresh_memory)))" by (simp add: sample_returns)
  from shutdown_drains [where flags = sample_flags, OF a(1) this] a(2,3) show ?thesis
    by (auto simp: continuous_def sample_ebpf_type)
qed

end
