(* ===== verification/TaskQueue.thy ===== *)
theory TaskQueue
  imports Messages
begin

text \<open>
  The per-IP task queue of \<^verbatim>\<open>src/drop/common/src/task_queue.h\<close>.  Every member
  function holds \<^verbatim>\<open>mu_\<close> for its whole body, so each is one atomic step and a
  concurrent use is a sequence of steps.  The contract of a keyed FIFO is stated as a
  locale; what its clients need is proved there for every sequence of steps.
\<close>

section \<open>Keyed FIFO queues\<close>

datatype ('k, 'a) queue_op = Enqueue 'k 'a | Dequeue 'k

text \<open>A sequence of atomic operations; the second component lists what was dequeued.\<close>

fun run_queue ::
  "('q \<Rightarrow> 'k \<Rightarrow> 'a \<Rightarrow> 'q) \<Rightarrow> ('q \<Rightarrow> 'k \<Rightarrow> ('a \<times> 'q) option) \<Rightarrow>
   ('k, 'a) queue_op list \<Rightarrow> 'q \<Rightarrow> 'q \<times> ('k \<times> 'a) list" where
  "run_queue enq deq [] q = (q, [])"
| "run_queue enq deq (Enqueue k x # ops) q = run_queue enq deq ops (enq q k x)"
| "run_queue enq deq (Dequeue k # ops) q =
     (case deq q k of
        None \<Rightarrow> run_queue enq deq ops q
      | Some (x, q') \<Rightarrow> (let (q'', out) = run_queue enq deq ops q' in (q'', (k, x) # out)))"

definition for_key :: "'k \<Rightarrow> ('k \<times> 'a) list \<Rightarrow> 'a list" where
  "for_key k xs = map snd (filter (\<lambda>p. fst p = k) xs)"

fun enqueued :: "('k, 'a) queue_op list \<Rightarrow> ('k \<times> 'a) list" where
  "enqueued [] = []"
| "enqueued (Enqueue k x # ops) = (k, x) # enqueued ops"
| "enqueued (Dequeue k # ops) = enqueued ops"

lemma for_key_Nil [simp]: "for_key k [] = []"
  by (simp add: for_key_def)

lemma for_key_Cons [simp]: "for_key k ((k', x) # xs) = (if k' = k then x # for_key k xs else for_key k xs)"
  by (simp add: for_key_def)

locale keyed_fifo =
  fixes enq :: "'q \<Rightarrow> 'k \<Rightarrow> 'a \<Rightarrow> 'q"
    and deq :: "'q \<Rightarrow> 'k \<Rightarrow> ('a \<times> 'q) option"
    and depth :: "'q \<Rightarrow> 'k \<Rightarrow> nat"
    and contents :: "'q \<Rightarrow> 'k \<Rightarrow> 'a list"
  assumes contents_enq: "contents (enq q k x) k' = (if k' = k then contents q k @ [x] else contents q k')"
    and deq_None: "deq q k = None \<longleftrightarrow> contents q k = []"
    and deq_Some: "deq q k = Some (x, q') \<Longrightarrow>
      contents q k = x # contents q' k \<and> (\<forall>k'. k' \<noteq> k \<longrightarrow> contents q' k' = contents q k')"
    and depth_eq: "depth q k = length (contents q k)"
begin

text \<open>
  Nothing is lost, duplicated or reordered: for each key, what came out followed by what is
  still queued is what was queued followed by what went in.
\<close>

lemma run_conserves:
  "run_queue enq deq ops q = (q', out) \<Longrightarrow>
   for_key k out @ contents q' k = contents q k @ for_key k (enqueued ops)"
proof (induction ops arbitrary: q q' out)
  case Nil
  then show ?case by simp
next
  case (Cons op ops)
  show ?case
  proof (cases op)
    case (Enqueue k' x)
    with Cons show ?thesis by (auto simp: contents_enq)
  next
    case (Dequeue k')
    show ?thesis
    proof (cases "deq q k'")
      case None
      with Cons Dequeue show ?thesis by simp
    next
      case (Some p)
      obtain x r where p: "p = (x, r)" by force
      obtain q2 out2 where run: "run_queue enq deq ops r = (q2, out2)" by force
      from Cons.prems Some p run Dequeue have "q' = q2" "out = (k', x) # out2" by simp_all
      with Cons.IH [OF run] deq_Some [of q k' x r] Some p Dequeue show ?thesis by auto
    qed
  qed
qed

lemma depth_after_run:
  assumes "run_queue enq deq ops q = (q', out)"
  shows "depth q' k + length (for_key k out) = depth q k + length (for_key k (enqueued ops))"
  using arg_cong [OF run_conserves [OF assms, of k], of length] by (simp add: depth_eq)

lemma deq_after_enq_empty:
  assumes "contents q k = []"
  shows "\<exists>q'. deq (enq q k x) k = Some (x, q')"
proof (cases "deq (enq q k x) k")
  case None
  then show ?thesis using deq_None [of "enq q k x" k] by (simp add: contents_enq)
next
  case (Some p)
  then show ?thesis
    using assms deq_Some [of "enq q k x" k "fst p" "snd p"] by (cases p) (auto simp: contents_enq)
qed

end

section \<open>TaskQueue\<close>

record task_queue =
  queues :: "string \<rightharpoonup> task_desc list"

definition empty_task_queue :: task_queue where
  "empty_task_queue = \<lparr>queues = Map.empty\<rparr>"

text \<open>\<^verbatim>\<open>queues[target_ip]\<close> creates an empty deque when the key is missing.\<close>

definition Push :: "task_queue \<Rightarrow> string \<Rightarrow> task_desc \<Rightarrow> task_queue" where
  "Push q target_ip desc =
     (let old = (case queues q target_ip of None \<Rightarrow> [] | Some d \<Rightarrow> d)
      in q\<lparr>queues := (queues q)(target_ip \<mapsto> old @ [desc])\<rparr>)"

text \<open>\<^verbatim>\<open>Pop\<close> returns false (here \<open>None\<close>) when there is no deque or an empty one.\<close>

definition Pop :: "task_queue \<Rightarrow> string \<Rightarrow> (task_desc \<times> task_queue) option" where
  "Pop q target_ip =
     (case queues q target_ip of
        None \<Rightarrow> None
      | Some d \<Rightarrow>
          (case d of
             [] \<Rightarrow> None
           | front # rest \<Rightarrow> Some (front, q\<lparr>queues := (queues q)(target_ip \<mapsto> rest)\<rparr>)))"

definition Size :: "task_queue \<Rightarrow> string \<Rightarrow> nat" where
  "Size q target_ip = (case queues q target_ip of None \<Rightarrow> 0 | Some d \<Rightarrow> length d)"

definition queued :: "task_queue \<Rightarrow> string \<Rightarrow> task_desc list" where
  "queued q ip = (case queues q ip of None \<Rightarrow> [] | Some d \<Rightarrow> d)"

interpretation tq: keyed_fifo Push Pop Size queued
  by unfold_locales
    (auto simp: Push_def Pop_def Size_def queued_def Let_def split: option.splits list.splits if_splits)

lemma queued_empty [simp]: "queued empty_task_queue ip = []"
  by (simp add: queued_def empty_task_queue_def)

lemma queued_Push [simp]: "queued (Push q ip d) ip' = (if ip' = ip then queued q ip @ [d] else queued q ip')"
  by (rule tq.contents_enq)

text \<open>
  C38. TaskQueue is a per-IP FIFO: whatever sequence of Push and Pop calls is made by however
  many threads, the tasks popped for an IP, followed by those still queued for it, are exactly
  those that were queued for it at the start followed by those pushed for it, in that order.
\<close>

theorem task_queue_fifo:
  assumes "run_queue Push Pop ops q = (q', out)"
  shows "for_key ip out @ queued q' ip = queued q ip @ for_key ip (enqueued ops)"
  using assms by (rule tq.run_conserves)

definition sample_task :: "string \<Rightarrow> task_desc" where
  "sample_task tid = default_task_desc\<lparr>td_task_id := tid\<rparr>"

theorem task_queue_fifo_witness:
  "\<exists>q' out. run_queue Push Pop
       [Enqueue ''a'' (sample_task ''1''), Enqueue ''b'' (sample_task ''2''),
        Enqueue ''a'' (sample_task ''3''), Dequeue ''a''] empty_task_queue = (q', out)
     \<and> for_key ''a'' out @ queued q' ''a'' = [sample_task ''1'', sample_task ''3'']"
proof -
  let ?ops = "[Enqueue ''a'' (sample_task ''1''), Enqueue ''b'' (sample_task ''2''),
        Enqueue ''a'' (sample_task ''3''), Dequeue ''a'']"
  obtain q' out where run: "run_queue Push Pop ?ops empty_task_queue = (q', out)"
    by force
  have "for_key ''a'' out @ queued q' ''a'' = [sample_task ''1'', sample_task ''3'']"
    using task_queue_fifo [OF run, of "''a''"] by simp
  with run show ?thesis by blast
qed

lemma task_queue_size:
  assumes "run_queue Push Pop ops q = (q', out)"
  shows "Size q' ip + length (for_key ip out) = Size q ip + length (for_key ip (enqueued ops))"
  using assms by (rule tq.depth_after_run)

end
