(* ===== verification/HeartbeatTracker.thy ===== *)
theory HeartbeatTracker
  imports Prelude "HOL-Library.AList"
begin

text \<open>
  \<^verbatim>\<open>HeartbeatTracker\<close> of \<^verbatim>\<open>src/drop/common/src/task_queue.h\<close>: the last
  heartbeat per agent IP.  The \<^verbatim>\<open>std::unordered_map\<close> is an association list with
  distinct keys, because \<^verbatim>\<open>AllAgents\<close> iterates over it; its order stands for the
  container's iteration order and no statement depends on it.  A
  \<^verbatim>\<open>steady_clock\<close> time point is an integer number of nanoseconds, read from the
  environment at each call of \<^verbatim>\<open>now()\<close>.
\<close>

record heartbeat_tracker =
  last_hb :: "(string \<times> time) list"

definition empty_tracker :: heartbeat_tracker where
  "empty_tracker = \<lparr>last_hb = []\<rparr>"

definition Update :: "heartbeat_tracker \<Rightarrow> string \<Rightarrow> time \<Rightarrow> heartbeat_tracker" where
  "Update ht ip now = ht\<lparr>last_hb := AList.update ip now (last_hb ht)\<rparr>"

text \<open>\<^verbatim>\<open>duration_cast<seconds>\<close> truncates towards zero.\<close>

definition trunc_div :: "int \<Rightarrow> int \<Rightarrow> int" where
  "trunc_div a b = sgn a * sgn b * (\<bar>a\<bar> div \<bar>b\<bar>)"

definition cast_seconds :: "time \<Rightarrow> int" where
  "cast_seconds ns = trunc_div ns 1000000000"

definition IsOnline :: "heartbeat_tracker \<Rightarrow> string \<Rightarrow> int \<Rightarrow> time \<Rightarrow> bool" where
  "IsOnline ht ip timeout now =
     (case map_of (last_hb ht) ip of
        None \<Rightarrow> False
      | Some ts \<Rightarrow> cast_seconds (now - ts) < timeout)"

text \<open>Each iteration of the loop reads the clock again: \<open>now i\<close> is the \<open>i\<close>-th reading.\<close>

fun AllAgents_loop :: "(string \<times> time) list \<Rightarrow> int \<Rightarrow> (nat \<Rightarrow> time) \<Rightarrow> nat \<Rightarrow> (string \<times> bool) list" where
  "AllAgents_loop [] timeout now i = []"
| "AllAgents_loop ((ip, ts) # rest) timeout now i =
     (ip, cast_seconds (now i - ts) < timeout) # AllAgents_loop rest timeout now (Suc i)"

definition AllAgents :: "heartbeat_tracker \<Rightarrow> int \<Rightarrow> (nat \<Rightarrow> time) \<Rightarrow> (string \<times> bool) list" where
  "AllAgents ht timeout now = AllAgents_loop (last_hb ht) timeout now 0"

definition tracker_wf :: "heartbeat_tracker \<Rightarrow> bool" where
  "tracker_wf ht \<longleftrightarrow> distinct (map fst (last_hb ht))"

lemma tracker_wf_empty [simp]: "tracker_wf empty_tracker"
  by (simp add: tracker_wf_def empty_tracker_def)

lemma tracker_wf_Update [simp]: "tracker_wf ht \<Longrightarrow> tracker_wf (Update ht ip now)"
  by (simp add: tracker_wf_def Update_def distinct_update)

lemma last_hb_Update [simp]: "map_of (last_hb (Update ht ip now)) = (map_of (last_hb ht))(ip \<mapsto> now)"
  by (simp add: Update_def update_conv')

lemma cast_seconds_less: "0 \<le> ns \<Longrightarrow> cast_seconds ns < t \<longleftrightarrow> ns < t * 1000000000"
proof -
  assume "0 \<le> ns"
  then have "cast_seconds ns = ns div 1000000000"
    by (cases "ns = 0") (auto simp: cast_seconds_def trunc_div_def)
  then show ?thesis by (auto simp: div_less_iff_less_mult)
qed

lemma set_AllAgents_loop:
  "fst ` set (AllAgents_loop xs timeout now i) = fst ` set xs"
  by (induction xs timeout now i rule: AllAgents_loop.induct) auto

lemma AllAgents_loop_const:
  "AllAgents_loop xs timeout (\<lambda>_. t) i = map (\<lambda>(ip, ts). (ip, cast_seconds (t - ts) < timeout)) xs"
  by (induction xs arbitrary: i) auto

lemma AllAgents_keys: "fst ` set (AllAgents ht timeout now) = dom (map_of (last_hb ht))"
  by (simp add: AllAgents_def set_AllAgents_loop dom_map_of_conv_image_fst)

lemma last_hb_other_updates:
  "ip \<notin> fst ` set others \<Longrightarrow>
   map_of (last_hb (fold (\<lambda>(i, s) h. Update h i s) others h)) ip = map_of (last_hb h) ip"
  by (induction others arbitrary: h) auto

text \<open>
  HeartbeatTracker: an agent is online exactly while less than the timeout has passed since
  its last Update.  After an Update at time \<open>t\<close>, with any Updates of other agents in
  between, IsOnline at a later clock reading is the comparison of the elapsed nanoseconds with
  the timeout; an IP that never sent a heartbeat is offline.
\<close>

theorem online_window:
  assumes "t \<le> now" and "ip \<notin> fst ` set others"
  shows "(IsOnline (fold (\<lambda>(i, s) h. Update h i s) others (Update ht ip t)) ip timeout now
            \<longleftrightarrow> now - t < timeout * 1000000000)
         \<and> \<not> IsOnline (fold (\<lambda>(i, s) h. Update h i s) others empty_tracker) ip timeout now"
  using assms
  by (simp add: IsOnline_def cast_seconds_less last_hb_other_updates) (simp add: empty_tracker_def)

theorem online_window_witness:
  "IsOnline (Update (Update empty_tracker ''10.0.0.1'' 0) ''10.0.0.2'' 7) ''10.0.0.1'' 30 29999999999
   \<and> \<not> IsOnline (Update (Update empty_tracker ''10.0.0.1'' 0) ''10.0.0.2'' 7) ''10.0.0.1'' 30 30000000000"
  using online_window [of 0 29999999999 "''10.0.0.1''" "[(''10.0.0.2'', 7)]" empty_tracker 30]
    online_window [of 0 30000000000 "''10.0.0.1''" "[(''10.0.0.2'', 7)]" empty_tracker 30]
  by simp

lemma AllAgents_IsOnline:
  assumes "tracker_wf ht"
  shows "(ip, b) \<in> set (AllAgents ht timeout (\<lambda>_. t)) \<longleftrightarrow>
     ip \<in> dom (map_of (last_hb ht)) \<and> b = IsOnline ht ip timeout t"
proof -
  have mem: "(ip, ts) \<in> set (last_hb ht) \<longleftrightarrow> map_of (last_hb ht) ip = Some ts" for ts
    using assms by (simp add: tracker_wf_def)
  have "(ip, b) \<in> set (AllAgents ht timeout (\<lambda>_. t)) \<longleftrightarrow>
      (\<exists>ts. (ip, ts) \<in> set (last_hb ht) \<and> b = (cast_seconds (t - ts) < timeout))"
    by (force simp: AllAgents_def AllAgents_loop_const)
  then show ?thesis by (auto simp: mem IsOnline_def)
qed

end
