(* ===== verification/TaskStatus.thy ===== *)
theory TaskStatus
  imports Prelude
begin

text \<open>
  The task status machine, \<^verbatim>\<open>IsTransitionAllowed\<close> of
  \<^verbatim>\<open>src/drop/common/src/task_queue.cpp\<close>, and the transition graph its comment in
  \<^verbatim>\<open>task_queue.h\<close> documents, stated as an inductive relation.
\<close>

abbreviation (input) kPending :: int where "kPending \<equiv> 0"
abbreviation (input) kRunning :: int where "kRunning \<equiv> 1"
abbreviation (input) kUploading :: int where "kUploading \<equiv> 2"
abbreviation (input) kDone :: int where "kDone \<equiv> 3"
abbreviation (input) kFailed :: int where "kFailed \<equiv> 4"

definition IsTransitionAllowed :: "int \<Rightarrow> int \<Rightarrow> bool" where
  "IsTransitionAllowed old_status new_status =
     (if old_status = new_status then False
      else if old_status = kPending \<and> (new_status = kRunning \<or> new_status = kFailed) then True
      else if old_status = kRunning \<and> (new_status = kUploading \<or> new_status = kFailed) then True
      else if old_status = kUploading \<and> (new_status = kDone \<or> new_status = kFailed) then True
      else if old_status = kFailed \<and> new_status = kPending then True
      else False)"

inductive status_step :: "int \<Rightarrow> int \<Rightarrow> bool" where
  start: "status_step kPending kRunning"
| start_failed: "status_step kPending kFailed"
| upload: "status_step kRunning kUploading"
| run_failed: "status_step kRunning kFailed"
| finish: "status_step kUploading kDone"
| upload_failed: "status_step kUploading kFailed"
| retry: "status_step kFailed kPending"

inductive_simps status_step_simps: "status_step s t"
inductive_cases status_step_from_done: "status_step kDone t"

lemma allowed_iff_step: "IsTransitionAllowed s t \<longleftrightarrow> status_step s t"
  by (auto simp: IsTransitionAllowed_def status_step_simps)

lemma not_allowed_from_done [simp]: "\<not> IsTransitionAllowed kDone t"
  by (simp add: IsTransitionAllowed_def)

lemma allowed_range: "IsTransitionAllowed s t \<Longrightarrow> s \<in> {0..4} \<and> t \<in> {0..4} \<and> s \<noteq> t"
  by (auto simp: IsTransitionAllowed_def split: if_splits)

text \<open>A run of the status machine: every consecutive pair is an allowed transition.\<close>

fun status_run :: "int list \<Rightarrow> bool" where
  "status_run [] = True"
| "status_run [s] = True"
| "status_run (s # t # ss) = (IsTransitionAllowed s t \<and> status_run (t # ss))"

lemma status_run_appendD: "status_run (xs @ ys) \<Longrightarrow> status_run xs \<and> status_run ys"
proof (induction xs rule: status_run.induct)
  case (2 s)
  then show ?case by (cases ys) auto
qed auto

lemma status_run_done_last:
  assumes "status_run (xs @ kDone # ys)"
  shows "ys = []"
proof (cases ys)
  case Nil
  then show ?thesis .
next
  case (Cons t ts)
  from status_run_appendD [OF assms] Cons have "IsTransitionAllowed kDone t" by simp
  then show ?thesis by simp
qed

lemma status_run_snoc2:
  "status_run (pre @ [s, t]) \<longleftrightarrow> status_run (pre @ [s]) \<and> IsTransitionAllowed s t"
proof (induction pre)
  case (Cons p pre)
  then show ?case by (cases pre) auto
qed simp

lemma status_run_pred:
  assumes "status_run (xs @ [t])" and "hd (xs @ [t]) \<noteq> t"
  obtains pre s where "xs = pre @ [s]" "status_run (pre @ [s])" "IsTransitionAllowed s t"
    "hd (pre @ [s]) = hd (xs @ [t])"
proof (cases xs rule: rev_cases)
  case Nil
  with assms(2) show ?thesis by simp
next
  case (snoc pre s)
  with assms(1) have "status_run (pre @ [s]) \<and> IsTransitionAllowed s t"
    by (simp add: status_run_snoc2)
  moreover have "hd (pre @ [s]) = hd (xs @ [t])" using snoc by (cases pre) auto
  ultimately show ?thesis using that snoc by blast
qed

lemma allowed_only_from:
  "IsTransitionAllowed s kDone \<Longrightarrow> s = kUploading"
  "IsTransitionAllowed s kUploading \<Longrightarrow> s = kRunning"
  "IsTransitionAllowed s kRunning \<Longrightarrow> s = kPending"
  by (auto simp: IsTransitionAllowed_def split: if_splits)

lemma status_run_reach_done:
  assumes "status_run (xs @ [kDone])" and "hd (xs @ [kDone]) = kPending"
  shows "\<exists>pre. xs = pre @ [kPending, kRunning, kUploading]"
proof -
  obtain p1 s1 where 1: "xs = p1 @ [s1]" "status_run (p1 @ [s1])" "IsTransitionAllowed s1 kDone"
      "hd (p1 @ [s1]) = kPending"
    using status_run_pred [OF assms(1)] assms(2) by (metis zero_neq_numeral)
  from allowed_only_from(1) [OF 1(3)] have s1: "s1 = kUploading" .
  with 1(2,4) have r1: "status_run (p1 @ [kUploading])" "hd (p1 @ [kUploading]) = kPending"
    by simp_all
  then obtain p2 s2 where 2: "p1 = p2 @ [s2]" "status_run (p2 @ [s2])"
      "IsTransitionAllowed s2 kUploading" "hd (p2 @ [s2]) = kPending"
    using status_run_pred [OF r1(1)] by (metis zero_neq_numeral)
  from allowed_only_from(2) [OF 2(3)] have s2: "s2 = kRunning" .
  with 2(2,4) have r2: "status_run (p2 @ [kRunning])" "hd (p2 @ [kRunning]) = kPending"
    by simp_all
  then obtain p3 s3 where 3: "p2 = p3 @ [s3]" "IsTransitionAllowed s3 kRunning"
    using status_run_pred [OF r2(1)] by (metis zero_neq_one)
  from allowed_only_from(3) [OF 3(2)] have "s3 = kPending" .
  with 1(1) 2(1) 3(1) s1 s2 show ?thesis by simp
qed

text \<open>
  The documented state machine is the implemented one, and it is safe: IsTransitionAllowed
  accepts exactly the seven documented transitions, no allowed run leaves DONE, and a run from
  PENDING that ends in DONE ends with PENDING, RUNNING, UPLOADING, DONE, so no task is reported
  done without having been dispatched and uploaded since its last retry.
\<close>

theorem status_machine_safe:
  "(IsTransitionAllowed s t \<longleftrightarrow> status_step s t)
   \<and> \<not> status_run (xs @ kDone # u # ys)
   \<and> (status_run (zs @ [kDone]) \<and> hd (zs @ [kDone]) = kPending \<longrightarrow>
        (\<exists>pre. zs = pre @ [kPending, kRunning, kUploading]))"
  using allowed_iff_step [of s t] status_run_done_last [of xs "u # ys"] status_run_reach_done [of zs]
  by blast

theorem status_machine_safe_witness:
  "\<exists>pre. [kPending, kRunning, kFailed, kPending, kRunning, kUploading]
      = pre @ [kPending, kRunning, kUploading]"
proof -
  let ?zs = "[kPending, kRunning, kFailed, kPending, kRunning, kUploading]"
  have "status_run (?zs @ [kDone]) \<and> hd (?zs @ [kDone]) = kPending"
    by (simp add: IsTransitionAllowed_def)
  then show ?thesis using status_machine_safe [of 0 0 "[]" 0 "[]" ?zs] by blast
qed

end
