(* ===== verification/PGStore.thy ===== *)
theory PGStore
  imports Messages TaskStatus
begin

text \<open>
  \<^verbatim>\<open>PGStore\<close> of \<^verbatim>\<open>src/drop/common/src/task_queue.cpp\<close>.  The database is a
  record of the four tables the class reads and writes, each SQL statement of the source is a
  function on it, and every \<^verbatim>\<open>PQexec\<close> goes through \<open>exec_stmt\<close>, which lets the
  environment decide how the statement ends.  \<^verbatim>\<open>libpq\<close> and the server are not part of
  the sources: what they do is the parameter \<open>pq_env\<close>, an outcome and a clock reading
  for each statement in the order they are sent.  The outcomes are: the statement took effect and
  said so; it failed without effect; it took effect but the reply was lost.
\<close>

section \<open>Tables and connections\<close>

record agent_row =
  ag_id :: nat
  ag_hostname :: string
  ag_ip_addr :: string
  ag_online :: bool
  ag_uid :: string
  ag_version :: string
  ag_last_hb :: time

text \<open>
  \<^verbatim>\<open>CreateTaskReq\<close> of the API server, which it keeps with the task as the JSON text
  of \<^verbatim>\<open>request_params\<close>; the row has the value that text encodes.
\<close>

record create_task_req =
  rq_name :: string
  rq_type :: int
  rq_profiler_type :: int
  rq_target_ip :: string
  rq_pid :: int
  rq_duration :: int
  rq_hz :: int
  rq_event :: string

text \<open>
  The store reads and writes the first five columns of a task; the others belong to the API server.
\<close>

record task_row =
  tk_tid :: string
  tk_status :: int
  tk_status_info :: string
  tk_begin_time :: "time option"
  tk_end_time :: "time option"
  tk_name :: string
  tk_type :: int
  tk_profiler_type :: int
  tk_target_ip :: string
  tk_request_params :: create_task_req
  tk_uid :: string
  tk_user_name :: string
  tk_create_time :: time
  tk_master_task_tid :: string
  tk_analysis_status :: int
  tk_cos_key :: string
  tk_deleted :: bool

record history_row =
  hs_tid :: string
  hs_old_status :: int
  hs_new_status :: int
  hs_reason :: string
  hs_timestamp :: time

record audit_row =
  au_agent_id :: nat
  au_event_type :: string
  au_reason :: string
  au_timestamp :: time

record pg_db =
  agent_info_tbl :: "agent_row list"
  agent_id_seq :: nat
  hotmethod_task_tbl :: "task_row list"
  task_status_history_tbl :: "history_row list"
  agent_audit_log_tbl :: "audit_row list"

datatype pq_outcome = PQ_ok | PQ_error | PQ_lost

record pq_env =
  outcome :: "nat \<Rightarrow> pq_outcome"
  clock :: "nat \<Rightarrow> time"

text \<open>
  A connection: the tables as its session sees them, the snapshot and start time of an open
  transaction, and the number of statements sent so far.
\<close>

record pgconn =
  db :: pg_db
  txn :: "(pg_db \<times> time) option"
  stmt_no :: nat

text \<open>\<^verbatim>\<open>NOW()\<close> is the start time of the transaction, or of the statement outside one.\<close>

definition sql_now :: "pq_env \<Rightarrow> pgconn \<Rightarrow> time" where
  "sql_now env c = (case txn c of Some (_, t) \<Rightarrow> t | None \<Rightarrow> clock env (stmt_no c))"

definition exec_stmt ::
  "pq_env \<Rightarrow> (time \<Rightarrow> pg_db \<Rightarrow> pg_db \<times> 'r) \<Rightarrow> pgconn \<Rightarrow> 'r option \<times> pgconn" where
  "exec_stmt env f c =
     (let (d, r) = f (sql_now env c) (db c); c' = c\<lparr>stmt_no := Suc (stmt_no c)\<rparr>
      in case outcome env (stmt_no c) of
           PQ_ok \<Rightarrow> (Some r, c'\<lparr>db := d\<rparr>)
         | PQ_error \<Rightarrow> (None, c')
         | PQ_lost \<Rightarrow> (None, c'\<lparr>db := d\<rparr>))"

definition pg_begin :: "pq_env \<Rightarrow> pgconn \<Rightarrow> bool \<times> pgconn" where
  "pg_begin env c =
     (let c' = c\<lparr>stmt_no := Suc (stmt_no c)\<rparr>
      in if outcome env (stmt_no c) = PQ_ok
         then (True, c'\<lparr>txn := Some (db c, clock env (stmt_no c))\<rparr>)
         else (False, c'))"

text \<open>
  \<^verbatim>\<open>ROLLBACK\<close>, whose result the source ignores: if it does not reach the server the
  connection is gone and the server drops the transaction itself.
\<close>

definition pg_rollback :: "pgconn \<Rightarrow> pgconn" where
  "pg_rollback c =
     (case txn c of
        None \<Rightarrow> c\<lparr>stmt_no := Suc (stmt_no c)\<rparr>
      | Some (snapshot, _) \<Rightarrow> c\<lparr>db := snapshot, txn := None, stmt_no := Suc (stmt_no c)\<rparr>)"

definition pg_commit :: "pq_env \<Rightarrow> pgconn \<Rightarrow> bool \<times> pgconn" where
  "pg_commit env c =
     (case outcome env (stmt_no c) of
        PQ_ok \<Rightarrow> (True, c\<lparr>txn := None, stmt_no := Suc (stmt_no c)\<rparr>)
      | PQ_error \<Rightarrow> (False, pg_rollback c)
      | PQ_lost \<Rightarrow> (False, c\<lparr>txn := None, stmt_no := Suc (stmt_no c)\<rparr>))"

text \<open>The store: \<open>None\<close> is a null \<^verbatim>\<open>conn_\<close>, left by a failed \<^verbatim>\<open>PQconnectdb\<close>.\<close>

type_synonym pg_store = "pgconn option"

definition PGStore_ctor :: "bool \<Rightarrow> pgconn \<Rightarrow> pg_store" where
  "PGStore_ctor connection_ok c = (if \<not> connection_ok then None else Some c)"

definition Connected :: "pg_store \<Rightarrow> bool" where
  "Connected st \<longleftrightarrow> st \<noteq> None"

section \<open>UpsertAgent\<close>

definition sql_select_agent :: "string \<Rightarrow> time \<Rightarrow> pg_db \<Rightarrow> pg_db \<times> (nat \<times> bool) list" where
  "sql_select_agent ip now d =
     (d, map (\<lambda>r. (ag_id r, ag_online r)) (filter (\<lambda>r. ag_ip_addr r = ip) (agent_info_tbl d)))"

text \<open>
  \<^verbatim>\<open>INSERT \<dots> ON CONFLICT (ip_addr) DO UPDATE\<close>; the id sequence advances on a conflict
  too.
\<close>

definition sql_upsert_agent ::
  "string \<Rightarrow> string \<Rightarrow> string \<Rightarrow> string \<Rightarrow> time \<Rightarrow> pg_db \<Rightarrow> pg_db \<times> unit" where
  "sql_upsert_agent hostname ip uid version now d =
     (let rows = agent_info_tbl d;
          rows' = (if \<exists>r \<in> set rows. ag_ip_addr r = ip
                   then map (\<lambda>r. if ag_ip_addr r = ip
                                 then r\<lparr>ag_hostname := hostname, ag_online := True, ag_uid := uid,
                                        ag_version := version, ag_last_hb := now\<rparr>
                                 else r) rows
                   else rows @ [\<lparr>ag_id = agent_id_seq d, ag_hostname = hostname, ag_ip_addr = ip,
                                 ag_online = True, ag_uid = uid, ag_version = version,
                                 ag_last_hb = now\<rparr>])
      in (d\<lparr>agent_info_tbl := rows', agent_id_seq := Suc (agent_id_seq d)\<rparr>, ()))"

definition sql_audit :: "nat \<Rightarrow> string \<Rightarrow> string \<Rightarrow> time \<Rightarrow> pg_db \<Rightarrow> pg_db \<times> unit" where
  "sql_audit agent_id event_type reason now d =
     (d\<lparr>agent_audit_log_tbl := agent_audit_log_tbl d @
         [\<lparr>au_agent_id = agent_id, au_event_type = event_type, au_reason = reason,
          au_timestamp = now\<rparr>]\<rparr>, ())"

definition UpsertAgent_conn ::
  "pq_env \<Rightarrow> pgconn \<Rightarrow> string \<Rightarrow> string \<Rightarrow> string \<Rightarrow> string \<Rightarrow> pgconn" where
  "UpsertAgent_conn env c ip hostname uid version =
     (let (sel_res, c1) = exec_stmt env (sql_select_agent ip) c;
          (agent_id, was_offline) =
            (case sel_res of
               Some ((i, onl) # _) \<Rightarrow> (Some i, \<not> onl)
             | _ \<Rightarrow> (None, False));
          (_, c2) = exec_stmt env (sql_upsert_agent hostname ip uid version) c1
      in case agent_id of
           Some i \<Rightarrow>
             if was_offline
             then snd (exec_stmt env (sql_audit i ''online'' ''heartbeat recovered'') c2)
             else c2
         | None \<Rightarrow> c2)"

definition UpsertAgent ::
  "pq_env \<Rightarrow> pg_store \<Rightarrow> string \<Rightarrow> string \<Rightarrow> string \<Rightarrow> string \<Rightarrow> pg_store" where
  "UpsertAgent env st ip hostname uid version =
     (case st of None \<Rightarrow> None | Some c \<Rightarrow> Some (UpsertAgent_conn env c ip hostname uid version))"

section \<open>UpdateTaskStatus\<close>

definition sql_select_status :: "string \<Rightarrow> time \<Rightarrow> pg_db \<Rightarrow> pg_db \<times> int list" where
  "sql_select_status tid now d =
     (d, map tk_status (filter (\<lambda>r. tk_tid r = tid) (hotmethod_task_tbl d)))"

definition sql_update_task :: "string \<Rightarrow> int \<Rightarrow> string \<Rightarrow> time \<Rightarrow> pg_db \<Rightarrow> pg_db \<times> unit" where
  "sql_update_task tid new_status reason now d =
     (d\<lparr>hotmethod_task_tbl := map (\<lambda>r.
          if tk_tid r = tid
          then (let r1 = r\<lparr>tk_status := new_status, tk_status_info := reason\<rparr>;
                    r2 = (if new_status = kRunning then r1\<lparr>tk_begin_time := Some now\<rparr> else r1)
                in if new_status = kDone \<or> new_status = kFailed
                   then r2\<lparr>tk_end_time := Some now\<rparr> else r2)
          else r) (hotmethod_task_tbl d)\<rparr>, ())"

definition sql_insert_history ::
  "string \<Rightarrow> int \<Rightarrow> int \<Rightarrow> string \<Rightarrow> time \<Rightarrow> pg_db \<Rightarrow> pg_db \<times> unit" where
  "sql_insert_history tid old_status new_status reason now d =
     (d\<lparr>task_status_history_tbl := task_status_history_tbl d @
         [\<lparr>hs_tid = tid, hs_old_status = old_status, hs_new_status = new_status,
          hs_reason = reason, hs_timestamp = now\<rparr>]\<rparr>, ())"

definition UpdateTaskStatus_conn ::
  "pq_env \<Rightarrow> pgconn \<Rightarrow> string \<Rightarrow> int \<Rightarrow> string \<Rightarrow> pgconn" where
  "UpdateTaskStatus_conn env c tid new_status reason =
     (let (ok, c1) = pg_begin env c
      in if \<not> ok then c1
         else
           (case exec_stmt env (sql_select_status tid) c1 of
              (Some (old_status # _), c2) \<Rightarrow>
                if \<not> IsTransitionAllowed old_status new_status then pg_rollback c2
                else
                  (case exec_stmt env (sql_update_task tid new_status reason) c2 of
                     (None, c3) \<Rightarrow> pg_rollback c3
                   | (Some _, c3) \<Rightarrow>
                       (case exec_stmt env (sql_insert_history tid old_status new_status reason) c3 of
                          (None, c4) \<Rightarrow> pg_rollback c4
                        | (Some _, c4) \<Rightarrow> snd (pg_commit env c4)))
            | (_, c2) \<Rightarrow> pg_rollback c2))"

definition UpdateTaskStatus :: "pq_env \<Rightarrow> pg_store \<Rightarrow> string \<Rightarrow> int \<Rightarrow> string \<Rightarrow> pg_store" where
  "UpdateTaskStatus env st tid new_status reason =
     (case st of None \<Rightarrow> None | Some c \<Rightarrow> Some (UpdateTaskStatus_conn env c tid new_status reason))"

section \<open>ScanAgentHeartbeats and ListAgents\<close>

text \<open>Timestamps are microseconds, PostgreSQL's resolution.\<close>

definition sql_select_stale :: "int \<Rightarrow> time \<Rightarrow> pg_db \<Rightarrow> pg_db \<times> nat list" where
  "sql_select_stale timeout now d =
     (d, map ag_id (filter (\<lambda>r. ag_online r \<and> ag_last_hb r < now - timeout * 1000000) (agent_info_tbl d)))"

definition sql_select_recovered :: "int \<Rightarrow> time \<Rightarrow> pg_db \<Rightarrow> pg_db \<times> nat list" where
  "sql_select_recovered timeout now d =
     (d, map ag_id (filter (\<lambda>r. \<not> ag_online r \<and> now - timeout * 1000000 \<le> ag_last_hb r) (agent_info_tbl d)))"

definition sql_set_online :: "bool \<Rightarrow> nat \<Rightarrow> time \<Rightarrow> pg_db \<Rightarrow> pg_db \<times> unit" where
  "sql_set_online b agent_id now d =
     (d\<lparr>agent_info_tbl := map (\<lambda>r. if ag_id r = agent_id then r\<lparr>ag_online := b\<rparr> else r)
          (agent_info_tbl d)\<rparr>, ())"

text \<open>\<^verbatim>\<open>std::to_string(timeout_sec)\<close>, the letter s, and "no heartbeat" in UTF-8 Chinese.\<close>

definition offline_reason :: "int \<Rightarrow> string" where
  "offline_reason timeout = show_int timeout @
     [CHR ''s'', CHR 0xE6, CHR 0x97, CHR 0xA0, CHR 0xE5, CHR 0xBF, CHR 0x83,
      CHR 0xE8, CHR 0xB7, CHR 0xB3]"

fun mark_agents :: "pq_env \<Rightarrow> bool \<Rightarrow> string \<Rightarrow> string \<Rightarrow> nat list \<Rightarrow> pgconn \<Rightarrow> pgconn" where
  "mark_agents env b event_type reason [] c = c"
| "mark_agents env b event_type reason (i # is) c =
     (let (_, c1) = exec_stmt env (sql_set_online b i) c;
          (_, c2) = exec_stmt env (sql_audit i event_type reason) c1
      in mark_agents env b event_type reason is c2)"

definition ScanAgentHeartbeats_conn :: "pq_env \<Rightarrow> pgconn \<Rightarrow> int \<Rightarrow> nat \<times> pgconn" where
  "ScanAgentHeartbeats_conn env c timeout =
     (case exec_stmt env (sql_select_stale timeout) c of
        (None, c1) \<Rightarrow> (0, c1)
      | (Some stale, c1) \<Rightarrow>
          (let c2 = mark_agents env False ''offline'' (offline_reason timeout) stale c1
           in case exec_stmt env (sql_select_recovered timeout) c2 of
                (None, c3) \<Rightarrow> (length stale, c3)
              | (Some back, c3) \<Rightarrow>
                  (length stale, mark_agents env True ''online'' ''heartbeat recovered'' back c3)))"

definition ScanAgentHeartbeats :: "pq_env \<Rightarrow> pg_store \<Rightarrow> int \<Rightarrow> nat \<times> pg_store" where
  "ScanAgentHeartbeats env st timeout =
     (case st of
        None \<Rightarrow> (0, None)
      | Some c \<Rightarrow> (let (n, c') = ScanAgentHeartbeats_conn env c timeout in (n, Some c')))"

record agent_record =
  rec_hostname :: string
  rec_ip :: string
  rec_online :: bool
  rec_uid :: string
  rec_version :: string

definition sql_list_agents :: "time \<Rightarrow> pg_db \<Rightarrow> pg_db \<times> agent_row list" where
  "sql_list_agents now d = (d, sort_key ag_id (agent_info_tbl d))"

definition ListAgents :: "pq_env \<Rightarrow> pg_store \<Rightarrow> agent_record list \<times> pg_store" where
  "ListAgents env st =
     (case st of
        None \<Rightarrow> ([], None)
      | Some c \<Rightarrow>
          (case exec_stmt env sql_list_agents c of
             (None, c1) \<Rightarrow> ([], Some c1)
           | (Some rows, c1) \<Rightarrow>
               (map (\<lambda>r. \<lparr>rec_hostname = ag_hostname r, rec_ip = ag_ip_addr r,
                          rec_online = ag_online r, rec_uid = ag_uid r,
                          rec_version = ag_version r\<rparr>) rows, Some c1)))"

end
