(* ===== verification/StoreSpec.thy ===== *)
theory StoreSpec
  imports PGStore
begin

text \<open>
  What a status update promises, shared by the two programs that write task statuses: an update is
  one checked transition with its history row, or nothing, under every failure of the database.
  \<^verbatim>\<open>PGStore::UpdateTaskStatus\<close> is shown to keep the promise, and the invariant of the
  task tables is that every task's history replays to its status.
\<close>

named_theorems sql_defs \<open>the SQL statements of the store\<close>

lemmas sql_agent_defs [sql_defs] =
  sql_select_agent_def sql_upsert_agent_def sql_audit_def sql_select_stale_def
  sql_select_recovered_def sql_set_online_def sql_list_agents_def

lemmas sql_task_defs [sql_defs] =
  sql_select_status_def sql_update_task_def sql_insert_history_def

section \<open>Executing statements\<close>

lemma exec_stmt_frame:
  assumes "exec_stmt env f c = (r, c')"
  shows "txn c' = txn c" and "stmt_no c' = Suc (stmt_no c)"
    and "db c' = db c \<or> db c' = fst (f (sql_now env c) (db c))"
    and "r = Some x \<Longrightarrow> db c' = fst (f (sql_now env c) (db c)) \<and> x = snd (f (sql_now env c) (db c))"
  using assms by (auto simp: exec_stmt_def Let_def split: prod.splits pq_outcome.splits)

lemma exec_stmt_reads:
  assumes "exec_stmt env f c = (r, c')" and "\<And>t d. fst (f t d) = d"
  shows "db c' = db c"
  using exec_stmt_frame(3) [OF assms(1)] assms(2) by simp

definition all_ok :: "pq_env \<Rightarrow> bool" where
  "all_ok env \<longleftrightarrow> (\<forall>n. outcome env n = PQ_ok)"

lemma exec_stmt_ok:
  "all_ok env \<Longrightarrow> exec_stmt env f c =
     (Some (snd (f (sql_now env c) (db c))),
      c\<lparr>stmt_no := Suc (stmt_no c), db := fst (f (sql_now env c) (db c))\<rparr>)"
  by (simp add: exec_stmt_def all_ok_def Let_def split: prod.splits)

lemma pg_rollback_txn [simp]:
  "txn (pg_rollback c) = None"
  "txn c = Some (d, t) \<Longrightarrow> db (pg_rollback c) = d"
  by (auto simp: pg_rollback_def split: option.splits)

lemma pg_commit_txn [simp]:
  "txn (snd (pg_commit env c)) = None"
  by (simp add: pg_commit_def split: pq_outcome.splits)

section \<open>UpdateTaskStatus is an atomic, checked transition\<close>

definition status_of :: "pg_db \<Rightarrow> string \<Rightarrow> int option" where
  "status_of d tid = (case snd (sql_select_status tid 0 d) of [] \<Rightarrow> None | s # _ \<Rightarrow> Some s)"

text \<open>The specification of one transition: the row and its history entry change together.\<close>

definition transition :: "string \<Rightarrow> int \<Rightarrow> int \<Rightarrow> string \<Rightarrow> time \<Rightarrow> pg_db \<Rightarrow> pg_db" where
  "transition tid old new reason now d =
     fst (sql_insert_history tid old new reason now (fst (sql_update_task tid new reason now d)))"

definition spec_update :: "string \<Rightarrow> int \<Rightarrow> string \<Rightarrow> time \<Rightarrow> pg_db \<Rightarrow> pg_db" where
  "spec_update tid new reason now d =
     (case status_of d tid of
        Some old \<Rightarrow> if IsTransitionAllowed old new then transition tid old new reason now d else d
      | None \<Rightarrow> d)"

lemma snd_select_status: "snd (sql_select_status tid t d) = snd (sql_select_status tid 0 d)"
  by (simp add: sql_select_status_def)

text \<open>
  The shape of the transaction's steps, as proof rules: a statement either fails, and the
  transaction is rolled back, or it takes effect inside the transaction and the rest runs.
\<close>

lemma txn_stmt:
  assumes "txn c = Some (snap, t)"
    and "\<And>c3. txn c3 = Some (snap, t) \<Longrightarrow> db c3 = fst (f t (db c)) \<Longrightarrow> P (k c3)"
    and "\<And>c3. txn c3 = None \<Longrightarrow> db c3 = snap \<Longrightarrow> P c3"
  shows "P (case exec_stmt env f c of (None, c3) \<Rightarrow> pg_rollback c3 | (Some _, c3) \<Rightarrow> k c3)"
proof (cases "exec_stmt env f c")
  case (Pair r c3)
  have t3: "txn c3 = Some (snap, t)" using exec_stmt_frame(1) [OF Pair] assms(1) by simp
  show ?thesis
  proof (cases r)
    case None
    then show ?thesis using Pair t3 assms(3) [of "pg_rollback c3"] by simp
  next
    case (Some x)
    have "db c3 = fst (f t (db c))"
      using exec_stmt_frame(4) [OF Pair Some] assms(1) by (simp add: sql_now_def)
    then show ?thesis using Pair Some t3 assms(2) by simp
  qed
qed

lemma txn_commit:
  assumes "txn c = Some (snap, t)"
    and "\<And>c'. txn c' = None \<Longrightarrow> db c' = db c \<Longrightarrow> P c'"
    and "\<And>c'. txn c' = None \<Longrightarrow> db c' = snap \<Longrightarrow> P c'"
  shows "P (snd (pg_commit env c))"
  using assms by (auto simp: pg_commit_def split: pq_outcome.splits)

lemma txn_select:
  assumes "txn c = Some (snap, t)" and "db c = snap" and "\<And>t d. fst (f t d) = d"
    and "\<And>x xs c3. txn c3 = Some (snap, t) \<Longrightarrow> db c3 = snap \<Longrightarrow> snd (f t snap) = x # xs \<Longrightarrow> P (k x c3)"
    and "\<And>c3. txn c3 = None \<Longrightarrow> db c3 = snap \<Longrightarrow> P c3"
  shows "P (case exec_stmt env f c of (Some (x # _), c3) \<Rightarrow> k x c3 | (_, c3) \<Rightarrow> pg_rollback c3)"
proof (cases "exec_stmt env f c")
  case (Pair r c3)
  have t3: "txn c3 = Some (snap, t)" "db c3 = snap"
    using exec_stmt_frame(1) [OF Pair] exec_stmt_reads [OF Pair assms(3)] assms(1,2) by simp_all
  have rb: "P (pg_rollback c3)" using t3 assms(5) [of "pg_rollback c3"] by simp
  have "r = Some (x # xs) \<Longrightarrow> snd (f t snap) = x # xs" for x xs
    using exec_stmt_frame(4) [OF Pair, of "x # xs"] assms(1,2) by (simp add: sql_now_def)
  then show ?thesis using Pair t3 rb assms(4) by (auto split: option.splits list.splits)
qed

text \<open>Either nothing happened to the database \<open>d\<close>, or \<open>d'\<close> was committed.\<close>

definition settled :: "pg_db \<Rightarrow> pg_db \<Rightarrow> pgconn \<Rightarrow> bool" where
  "settled d d' c \<longleftrightarrow> txn c = None \<and> (db c = d \<or> db c = d')"

lemma settledI: "txn c = None \<Longrightarrow> db c = d \<or> db c = d' \<Longrightarrow> settled d d' c"
  by (simp add: settled_def)

lemma transition_settled:
  assumes "txn c = Some (d, t)" and "db c = d"
  shows "settled d (transition tid old new reason t d)
    (case exec_stmt env (sql_update_task tid new reason) c of
       (None, c3) \<Rightarrow> pg_rollback c3
     | (Some _, c3) \<Rightarrow>
         (case exec_stmt env (sql_insert_history tid old new reason) c3 of
            (None, c4) \<Rightarrow> pg_rollback c4
          | (Some _, c4) \<Rightarrow> snd (pg_commit env c4)))"
    (is "settled d ?d' _")
proof (rule txn_stmt [where P = "settled d ?d'" and snap = d and t = t])
  fix c3 :: pgconn
  assume c3: "txn c3 = Some (d, t)" "db c3 = fst (sql_update_task tid new reason t (db c))"
  show "settled d ?d' (case exec_stmt env (sql_insert_history tid old new reason) c3 of
              (None, c4) \<Rightarrow> pg_rollback c4 | (Some _, c4) \<Rightarrow> snd (pg_commit env c4))"
  proof (rule txn_stmt [where P = "settled d ?d'" and snap = d and t = t])
    fix c4 :: pgconn
    assume c4: "txn c4 = Some (d, t)" "db c4 = fst (sql_insert_history tid old new reason t (db c3))"
    show "settled d ?d' (snd (pg_commit env c4))"
      by (rule txn_commit [where P = "settled d ?d'" and snap = d and t = t])
        (use c3 c4 assms in \<open>auto simp: settled_def transition_def\<close>)
  qed (use c3 in \<open>auto simp: settled_def\<close>)
qed (use assms in \<open>auto simp: settled_def\<close>)

lemma UpdateTaskStatus_settled:
  assumes "txn c = None"
  shows "settled (db c) (spec_update tid new reason (clock env (stmt_no c)) (db c))
           (UpdateTaskStatus_conn env c tid new reason)"
    (is "settled ?d ?d' _")
proof (cases "outcome env (stmt_no c) = PQ_ok")
  case False
  then show ?thesis
    using assms by (simp add: UpdateTaskStatus_conn_def pg_begin_def Let_def settled_def)
next
  case True
  let ?t = "clock env (stmt_no c)"
  let ?c1 = "c\<lparr>stmt_no := Suc (stmt_no c), txn := Some (db c, ?t)\<rparr>"
  have begin_ok: "pg_begin env c = (True, ?c1)" using True by (simp add: pg_begin_def Let_def)
  have body: "settled ?d ?d' (if \<not> IsTransitionAllowed old new then pg_rollback c2
                  else (case exec_stmt env (sql_update_task tid new reason) c2 of
                     (None, c3) \<Rightarrow> pg_rollback c3
                   | (Some _, c3) \<Rightarrow>
                       (case exec_stmt env (sql_insert_history tid old new reason) c3 of
                          (None, c4) \<Rightarrow> pg_rollback c4
                        | (Some _, c4) \<Rightarrow> snd (pg_commit env c4))))"
    if "txn c2 = Some (db c, ?t)" "db c2 = db c"
      "snd (sql_select_status tid ?t (db c)) = old # rest" for old rest c2
    using that transition_settled [OF that(1,2), of tid old new reason env]
    by (simp add: settled_def spec_update_def status_of_def snd_select_status [of tid ?t])
  show ?thesis
    unfolding UpdateTaskStatus_conn_def begin_ok Let_def prod.case not_True_eq_False if_False
    by (rule txn_select [where P = "settled ?d ?d'" and snap = "db c" and t = ?t])
      (simp_all add: body, simp_all add: sql_select_status_def settled_def)
qed


lemma UpdateTaskStatus_ok:
  assumes "txn c = None" and "all_ok env"
  shows "db (UpdateTaskStatus_conn env c tid new reason)
           = spec_update tid new reason (clock env (stmt_no c)) (db c)"
proof -
  have ok: "outcome env n = PQ_ok" for n using assms(2) by (simp add: all_ok_def)
  show ?thesis
    by (simp add: UpdateTaskStatus_conn_def pg_begin_def pg_commit_def pg_rollback_def Let_def ok
        exec_stmt_ok [OF assms(2)] sql_now_def spec_update_def status_of_def transition_def
        snd_select_status [of tid "clock env (stmt_no c)"] split: list.splits)
      (simp add: sql_select_status_def)
qed

section \<open>The history replays to the status\<close>

fun replay :: "int \<Rightarrow> history_row list \<Rightarrow> int option" where
  "replay s [] = Some s"
| "replay s (h # hs) =
     (if hs_old_status h = s \<and> IsTransitionAllowed s (hs_new_status h)
      then replay (hs_new_status h) hs else None)"

text \<open>
  The history rows of a task.  The API server logs the creation of a task with the old status \<open>-1\<close>;
  the transitions are the rows after that one, if it is there.
\<close>

definition log_of :: "pg_db \<Rightarrow> string \<Rightarrow> history_row list" where
  "log_of d tid = filter (\<lambda>h. hs_tid h = tid) (task_status_history_tbl d)"

definition is_creation :: "history_row \<Rightarrow> bool" where
  "is_creation h \<longleftrightarrow> hs_old_status h = -1 \<and> hs_new_status h = kPending"

definition history_of :: "pg_db \<Rightarrow> string \<Rightarrow> history_row list" where
  "history_of d tid =
     (case log_of d tid of [] \<Rightarrow> [] | h # hs \<Rightarrow> if is_creation h then hs else h # hs)"

definition row_times :: "task_row \<Rightarrow> bool" where
  "row_times r \<longleftrightarrow> (tk_status r \<in> {kRunning, kUploading, kDone} \<longrightarrow> tk_begin_time r \<noteq> None)
     \<and> (tk_status r \<in> {kDone, kFailed} \<longrightarrow> tk_end_time r \<noteq> None)"

definition task_inv :: "pg_db \<Rightarrow> bool" where
  "task_inv d \<longleftrightarrow>
     distinct (map tk_tid (hotmethod_task_tbl d))
     \<and> (\<forall>r \<in> set (hotmethod_task_tbl d).
          replay kPending (history_of d (tk_tid r)) = Some (tk_status r) \<and> row_times r)
     \<and> hs_tid ` set (task_status_history_tbl d) \<subseteq> tk_tid ` set (hotmethod_task_tbl d)"

lemma replay_snoc:
  "replay s (hs @ [h]) =
     (case replay s hs of
        Some u \<Rightarrow> if hs_old_status h = u \<and> IsTransitionAllowed u (hs_new_status h)
                  then Some (hs_new_status h) else None
      | None \<Rightarrow> None)"
  by (induction s hs rule: replay.induct) auto

lemma replay_status_run: "replay s hs = Some u \<Longrightarrow> status_run (s # map hs_new_status hs)"
  by (induction s hs rule: replay.induct) (auto split: if_splits)

lemma replay_last: "replay s hs = Some u \<Longrightarrow> last (s # map hs_new_status hs) = u"
  by (induction s hs rule: replay.induct) (auto split: if_splits)

lemma status_of_iff:
  assumes "distinct (map tk_tid (hotmethod_task_tbl d))"
  shows "status_of d tid = Some s \<longleftrightarrow> (\<exists>r \<in> set (hotmethod_task_tbl d). tk_tid r = tid \<and> tk_status r = s)"
proof -
  have "(case map tk_status (filter (\<lambda>r. tk_tid r = tid) rows) of [] \<Rightarrow> None | s # _ \<Rightarrow> Some s)
      = map_of (map (\<lambda>r. (tk_tid r, tk_status r)) rows) tid" for rows
    by (induction rows) auto
  then have "status_of d tid = map_of (map (\<lambda>r. (tk_tid r, tk_status r)) (hotmethod_task_tbl d)) tid"
    by (simp add: status_of_def sql_select_status_def)
  also have "\<dots> = Some s \<longleftrightarrow> (tid, s) \<in> set (map (\<lambda>r. (tk_tid r, tk_status r)) (hotmethod_task_tbl d))"
    using assms by (intro map_of_eq_Some_iff) (simp add: comp_def)
  finally show ?thesis by auto
qed

lemma log_of_transition:
  "log_of (transition tid old new reason now d) tid' =
     (if tid' = tid
      then log_of d tid @ [\<lparr>hs_tid = tid, hs_old_status = old, hs_new_status = new,
                           hs_reason = reason, hs_timestamp = now\<rparr>]
      else log_of d tid')"
  by (simp add: log_of_def transition_def sql_insert_history_def sql_update_task_def)

lemma history_of_transition:
  "old \<noteq> -1 \<Longrightarrow> history_of (transition tid old new reason now d) tid' =
     (if tid' = tid
      then history_of d tid @ [\<lparr>hs_tid = tid, hs_old_status = old, hs_new_status = new,
                               hs_reason = reason, hs_timestamp = now\<rparr>]
      else history_of d tid')"
  by (simp add: history_of_def log_of_transition is_creation_def split: list.split)

definition updated_row :: "int \<Rightarrow> string \<Rightarrow> time \<Rightarrow> task_row \<Rightarrow> task_row" where
  "updated_row new reason now r =
     r\<lparr>tk_status := new, tk_status_info := reason,
       tk_begin_time := (if new = kRunning then Some now else tk_begin_time r),
       tk_end_time := (if new = kDone \<or> new = kFailed then Some now else tk_end_time r)\<rparr>"

lemma updated_row_sel [simp]:
  "tk_tid (updated_row new reason now r) = tk_tid r"
  "tk_status (updated_row new reason now r) = new"
  by (simp_all add: updated_row_def)

lemma transition_tables:
  "hotmethod_task_tbl (transition tid old new reason now d) =
     map (\<lambda>r. if tk_tid r = tid then updated_row new reason now r else r) (hotmethod_task_tbl d)"
  "hs_tid ` set (task_status_history_tbl (transition tid old new reason now d)) =
     insert tid (hs_tid ` set (task_status_history_tbl d))"
  "agent_info_tbl (transition tid old new reason now d) = agent_info_tbl d"
  "agent_audit_log_tbl (transition tid old new reason now d) = agent_audit_log_tbl d"
  "agent_id_seq (transition tid old new reason now d) = agent_id_seq d"
  by (auto simp: transition_def sql_insert_history_def sql_update_task_def updated_row_def Let_def)

lemma tids_transition:
  "map tk_tid (hotmethod_task_tbl (transition tid old new reason now d)) = map tk_tid (hotmethod_task_tbl d)"
  by (simp add: transition_tables)

lemma row_times_updated:
  "row_times r \<Longrightarrow> IsTransitionAllowed (tk_status r) new \<Longrightarrow> row_times (updated_row new reason now r)"
  by (auto simp: row_times_def updated_row_def IsTransitionAllowed_def split: if_splits)

lemma task_inv_transition:
  assumes inv: "task_inv d" and st: "status_of d tid = Some old" and ok: "IsTransitionAllowed old new"
  shows "task_inv (transition tid old new reason now d)" (is "task_inv ?d")
proof -
  have dist: "distinct (map tk_tid (hotmethod_task_tbl d))" using inv by (simp add: task_inv_def)
  obtain r where r: "r \<in> set (hotmethod_task_tbl d)" "tk_tid r = tid" "tk_status r = old"
    using st status_of_iff [OF dist] by blast
  have uniq: "tk_status q = old" if "q \<in> set (hotmethod_task_tbl d)" "tk_tid q = tid" for q
    using that r dist by (metis distinct_map inj_onD)
  have rows: "replay kPending (history_of ?d (tk_tid q)) = Some (tk_status q) \<and> row_times q"
    if q: "q \<in> set (hotmethod_task_tbl ?d)" for q
  proof -
    obtain p where p: "p \<in> set (hotmethod_task_tbl d)"
      "q = (if tk_tid p = tid then updated_row new reason now p else p)"
      using q by (auto simp: transition_tables)
    have "replay kPending (history_of d (tk_tid p)) = Some (tk_status p)" "row_times p"
      using inv p(1) by (auto simp: task_inv_def)
    then show ?thesis
      using p(2) uniq [OF p(1)] ok row_times_updated [of p new reason now] allowed_range [OF ok]
      by (cases "tk_tid p = tid") (simp_all add: history_of_transition replay_snoc)
  qed
  have "hs_tid ` set (task_status_history_tbl d) \<subseteq> tk_tid ` set (hotmethod_task_tbl d)"
    using inv by (simp add: task_inv_def)
  moreover have "tk_tid ` set (hotmethod_task_tbl ?d) = tk_tid ` set (hotmethod_task_tbl d)"
    using tids_transition [of tid old new reason now d] by (metis set_map)
  ultimately show ?thesis
    using rows dist r(1,2) unfolding task_inv_def tids_transition transition_tables(2) by auto
qed

lemma task_inv_spec_update: "task_inv d \<Longrightarrow> task_inv (spec_update tid new reason now d)"
  by (auto simp: spec_update_def task_inv_transition split: option.splits)

lemma task_inv_UpdateTaskStatus:
  "txn c = None \<Longrightarrow> task_inv (db c) \<Longrightarrow> task_inv (db (UpdateTaskStatus_conn env c tid new reason))"
  using UpdateTaskStatus_settled [of c tid new reason env] task_inv_spec_update
  by (auto simp: settled_def)

lemma status_of_transition:
  assumes "status_of d tid = Some old"
  shows "status_of (transition tid old new reason now d) tid' = (if tid' = tid then Some new else status_of d tid')"
proof -
  have tid: "tk_tid (if tk_tid r = tid then updated_row new reason now r else r) = tk_tid r" for r
    by simp
  have st: "map tk_status (filter (\<lambda>r. tk_tid r = tid') (hotmethod_task_tbl (transition tid old new reason now d)))
      = map (\<lambda>r. if tid' = tid then new else tk_status r) (filter (\<lambda>r. tk_tid r = tid') (hotmethod_task_tbl d))"
    by (auto simp: transition_tables filter_map comp_def tid)
  show ?thesis
    using assms unfolding status_of_def sql_select_status_def snd_conv st
    by (auto split: list.splits)
qed

lemma status_of_spec_update:
  "status_of (spec_update tid new reason now d) tid' =
     (if tid' = tid
      then (case status_of d tid of
              None \<Rightarrow> None
            | Some old \<Rightarrow> if IsTransitionAllowed old new then Some new else Some old)
      else status_of d tid')"
  by (auto simp: spec_update_def status_of_transition split: option.splits)

section \<open>Frames\<close>

lemma exec_stmt_keeps:
  assumes "\<And>t d. g (fst (f t d)) = g d"
  shows "g (db (snd (exec_stmt env f c))) = g (db c)"
  using assms by (simp add: exec_stmt_def Let_def split: prod.splits pq_outcome.splits) (metis fst_conv)

lemma exec_stmt_txn [simp]: "txn (snd (exec_stmt env f c)) = txn c"
  by (simp add: exec_stmt_def Let_def split: prod.splits pq_outcome.splits)

lemma exec_stmt_stmt_no [simp]: "stmt_no (snd (exec_stmt env f c)) = Suc (stmt_no c)"
  by (simp add: exec_stmt_def Let_def split: prod.splits pq_outcome.splits)

definition task_tables :: "pg_db \<Rightarrow> task_row list \<times> history_row list" where
  "task_tables d = (hotmethod_task_tbl d, task_status_history_tbl d)"

lemma task_inv_tables: "task_tables d' = task_tables d \<Longrightarrow> task_inv d' = task_inv d"
  by (simp add: task_tables_def task_inv_def history_of_def log_of_def)

definition empty_db :: pg_db where
  "empty_db = \<lparr>agent_info_tbl = [], agent_id_seq = 1, hotmethod_task_tbl = [],
               task_status_history_tbl = [], agent_audit_log_tbl = []\<rparr>"

definition fresh_conn :: pgconn where
  "fresh_conn = \<lparr>db = empty_db, txn = None, stmt_no = 0\<rparr>"

end
