(* ===== verification/ApiServer.thy ===== *)
theory ApiServer
  imports StoreSpec "HOL-Library.Sublist" "HOL-Library.AList"
begin

text \<open>
  The operations of the API server, \<^verbatim>\<open>src/apiserver/server\<close>, on the tables it shares
  with \<^verbatim>\<open>drop_server\<close>: \<^verbatim>\<open>updateTaskStatus\<close> of \<^verbatim>\<open>server.go\<close>;
  creating, deleting, retrying and dispatching a task and storing its files of
  \<^verbatim>\<open>handler.go\<close>; the analysis tick of \<^verbatim>\<open>analyzer.go\<close>.  A statement sent
  through gorm is a function on the tables run by \<open>exec_stmt\<close>, as in the store; gorm adds
  \<open>deleted_at IS NULL\<close> to every query on tasks.  The HTTP framework, the gRPC connection, the object
  store, the clock and the random source are arguments.
\<close>

section \<open>The status machine\<close>

definition isTransitionAllowed :: "int \<Rightarrow> int \<Rightarrow> bool" where
  "isTransitionAllowed old new =
     (if old = new then False
      else if old = kPending then new = kRunning \<or> new = kFailed
      else if old = kRunning then new = kUploading \<or> new = kFailed
      else if old = kUploading then new = kDone \<or> new = kFailed
      else if old = kFailed then new = kPending
      else if old = kDone then False
      else False)"

section \<open>Statements\<close>

text \<open>\<^verbatim>\<open>First\<close>: the rows that match, in the order of their keys, limited to one.\<close>

definition gorm_first :: "(task_row \<Rightarrow> bool) \<Rightarrow> time \<Rightarrow> pg_db \<Rightarrow> pg_db \<times> task_row list" where
  "gorm_first wh now d = (d, take 1 (filter (\<lambda>r. \<not> tk_deleted r \<and> wh r) (hotmethod_task_tbl d)))"

definition gorm_find :: "(task_row \<Rightarrow> bool) \<Rightarrow> time \<Rightarrow> pg_db \<Rightarrow> pg_db \<times> task_row list" where
  "gorm_find wh now d = (d, filter (\<lambda>r. \<not> tk_deleted r \<and> wh r) (hotmethod_task_tbl d))"

text \<open>\<^verbatim>\<open>Updates\<close> and \<^verbatim>\<open>Delete\<close>, which report the number of rows they changed.\<close>

definition gorm_update ::
  "(task_row \<Rightarrow> bool) \<Rightarrow> (task_row \<Rightarrow> task_row) \<Rightarrow> time \<Rightarrow> pg_db \<Rightarrow> pg_db \<times> nat" where
  "gorm_update wh f now d =
     (d\<lparr>hotmethod_task_tbl := map (\<lambda>r. if \<not> tk_deleted r \<and> wh r then f r else r) (hotmethod_task_tbl d)\<rparr>,
      length (filter (\<lambda>r. \<not> tk_deleted r \<and> wh r) (hotmethod_task_tbl d)))"

text \<open>
  \<^verbatim>\<open>Create\<close> of a task.  The unique index on \<^verbatim>\<open>tid\<close> also covers the rows that are
  only marked deleted.
\<close>

definition gorm_create_task :: "task_row \<Rightarrow> time \<Rightarrow> pg_db \<Rightarrow> pg_db \<times> bool" where
  "gorm_create_task row now d =
     (if tk_tid row \<in> tk_tid ` set (hotmethod_task_tbl d) then (d, False)
      else (d\<lparr>hotmethod_task_tbl := hotmethod_task_tbl d @ [row]\<rparr>, True))"

text \<open>
  \<^verbatim>\<open>db.Transaction(fn)\<close>: commit when the function returns no error, roll back when it does.
\<close>

definition gorm_transaction :: "pq_env \<Rightarrow> (pgconn \<Rightarrow> bool \<times> pgconn) \<Rightarrow> pgconn \<Rightarrow> bool \<times> pgconn" where
  "gorm_transaction env fn c =
     (let (started, c1) = pg_begin env c
      in if \<not> started then (False, c1)
         else let (ok, c2) = fn c1 in if ok then pg_commit env c2 else (False, pg_rollback c2))"

section \<open>updateTaskStatus\<close>

definition status_columns :: "int \<Rightarrow> string \<Rightarrow> time \<Rightarrow> task_row \<Rightarrow> task_row" where
  "status_columns newStatus reason now r =
     (let r1 = r\<lparr>tk_status := newStatus, tk_status_info := reason\<rparr>
      in if newStatus = kRunning then r1\<lparr>tk_begin_time := Some now\<rparr>
         else if newStatus = kDone \<or> newStatus = kFailed then r1\<lparr>tk_end_time := Some now\<rparr>
         else r1)"

definition default_reason :: "string \<Rightarrow> string" where
  "default_reason reason = (if reason = [] then ''no reason provided'' else reason)"

definition updateTaskStatus_tx :: "pq_env \<Rightarrow> string \<Rightarrow> int \<Rightarrow> string \<Rightarrow> time \<Rightarrow> pgconn \<Rightarrow> bool \<times> pgconn" where
  "updateTaskStatus_tx env tid newStatus reason now c =
     (case exec_stmt env (gorm_first (\<lambda>r. tk_tid r = tid)) c of
        (Some (task # _), c1) \<Rightarrow>
          if \<not> isTransitionAllowed (tk_status task) newStatus then (False, c1)
          else
            (case exec_stmt env (gorm_update (\<lambda>r. tk_tid r = tid) (status_columns newStatus reason now)) c1 of
               (None, c2) \<Rightarrow> (False, c2)
             | (Some _, c2) \<Rightarrow>
                 (case exec_stmt env (\<lambda>_. sql_insert_history tid (tk_status task) newStatus reason now) c2 of
                    (None, c3) \<Rightarrow> (False, c3)
                  | (Some _, c3) \<Rightarrow> (True, c3)))
      | (_, c1) \<Rightarrow> (False, c1))"

definition updateTaskStatus :: "pq_env \<Rightarrow> pgconn \<Rightarrow> string \<Rightarrow> int \<Rightarrow> string \<Rightarrow> time \<Rightarrow> bool \<times> pgconn" where
  "updateTaskStatus env c tid newStatus reason now =
     gorm_transaction env (updateTaskStatus_tx env tid newStatus (default_reason reason) now) c"

section \<open>Creating, retrying and dispatching a task\<close>

definition charset :: string where
  "charset = ''abcdefghijklmnopqrstuvwxyz0123456789''"

definition genTID :: "8 word list \<Rightarrow> string" where
  "genTID randBytes = map (\<lambda>b. charset ! (unat b mod length charset)) randBytes"

text \<open>The answer to a request, by its \<^verbatim>\<open>code\<close>; 0 is success.\<close>

datatype api_reply = Api_Ok string | Api_Error nat

definition reason_created :: string where
  "reason_created = map char_of [228, 187, 187, 229, 138, 161, 229, 183, 178, 229, 136, 155, 229, 187, 186::nat]"

definition reason_retry :: string where
  "reason_retry = map char_of [231, 148, 168, 230, 136, 183, 232, 167, 166, 229, 143, 145, 233, 135, 141, 232, 175, 149::nat]"

definition reason_no_grpc :: string where
  "reason_no_grpc = ''gRPC connection unavailable, cannot dispatch task to drop_server''"

definition pending_row :: "string \<Rightarrow> string \<Rightarrow> string \<Rightarrow> create_task_req \<Rightarrow> time \<Rightarrow> task_row" where
  "pending_row tid uid userName req createTime =
     \<lparr>tk_tid = tid, tk_status = kPending, tk_status_info = reason_created, tk_begin_time = None,
      tk_end_time = None, tk_name = rq_name req, tk_type = rq_type req,
      tk_profiler_type = rq_profiler_type req, tk_target_ip = rq_target_ip req, tk_request_params = req,
      tk_uid = uid, tk_user_name = userName, tk_create_time = createTime, tk_master_task_tid = [],
      tk_analysis_status = 0, tk_cos_key = [], tk_deleted = False\<rparr>"

text \<open>
  The row of a task and the row that logs its creation, with the reason and time of the task.  The
  handler stops when the first statement fails and ignores a failure of the second.
\<close>

definition insert_task :: "pq_env \<Rightarrow> task_row \<Rightarrow> pgconn \<Rightarrow> bool \<times> pgconn" where
  "insert_task env task c =
     (case exec_stmt env (gorm_create_task task) c of
        (Some True, c1) \<Rightarrow>
          (True, snd (exec_stmt env (\<lambda>_. sql_insert_history (tk_tid task) (-1) kPending (tk_status_info task)
                                          (tk_create_time task)) c1))
      | (_, c1) \<Rightarrow> (False, c1))"

text \<open>
  The request \<^verbatim>\<open>dispatchTask\<close> sends; the conversions keep the low bits.  Fields it does not
  set have their protobuf defaults.
\<close>

definition dispatch_request :: "string \<Rightarrow> create_task_req \<Rightarrow> create_task_request" where
  "dispatch_request tid req =
     \<lparr>ctq_target_ip = rq_target_ip req, ctq_service = ''hotmethod'',
      ctq_task_desc = default_task_desc\<lparr>td_task_id := tid, td_task_type := of_int (rq_type req),
        td_profiler_type := of_int (rq_profiler_type req),
        td_sample_argv := default_record_argv\<lparr>argv_hz := of_int (rq_hz req),
          argv_duration := of_int (rq_duration req), argv_pid := of_int (rq_pid req),
          argv_event := rq_event req\<rparr>\<rparr>\<rparr>"

text \<open>
  The second half of \<^verbatim>\<open>dispatchTask\<close>, when the call has returned: an error with its text, or
  the response of \<^verbatim>\<open>drop_server\<close>.
\<close>

definition dispatch_done ::
  "pq_env \<Rightarrow> pgconn \<Rightarrow> string \<Rightarrow> string + create_task_response \<Rightarrow> time \<Rightarrow> pgconn" where
  "dispatch_done env c tid result now =
     (case result of
        Inl err \<Rightarrow>
          snd (updateTaskStatus env c tid kFailed (''gRPC ControlService.CreateTask failed: '' @ err) now)
      | Inr resp \<Rightarrow>
          if \<not> ctr_success resp
          then snd (updateTaskStatus env c tid kFailed (''drop_server rejected task: '' @ ctr_message resp) now)
          else c)"

text \<open>
  A handler returns its reply, the call of \<^verbatim>\<open>dispatchTask\<close> it starts, and the connection.
  \<open>grpc\<close> says whether \<^verbatim>\<open>grpcCC\<close> is set.
\<close>

definition APIServer_CreateTask ::
  "pq_env \<Rightarrow> bool \<Rightarrow> pgconn \<Rightarrow> string \<Rightarrow> string \<Rightarrow> create_task_req option \<Rightarrow> 8 word list \<Rightarrow> time \<Rightarrow> time \<Rightarrow>
   api_reply \<times> (string \<times> create_task_req) option \<times> pgconn" where
  "APIServer_CreateTask env grpc c uid userName body randBytes createTime now =
     (case body of
        None \<Rightarrow> (Api_Error 4000001, None, c)
      | Some req \<Rightarrow>
          let tid = genTID randBytes; (ok, c1) = insert_task env (pending_row tid uid userName req createTime) c
          in if \<not> ok then (Api_Error 5000002, None, c1)
             else if grpc then (Api_Ok tid, Some (tid, req), c1)
             else (Api_Ok tid, None, snd (updateTaskStatus env c1 tid kFailed reason_no_grpc now)))"

definition APIServer_RetryTask ::
  "pq_env \<Rightarrow> bool \<Rightarrow> pgconn \<Rightarrow> string \<Rightarrow> string \<Rightarrow> time \<Rightarrow>
   api_reply \<times> (string \<times> create_task_req) option \<times> pgconn" where
  "APIServer_RetryTask env grpc c uid tid now =
     (case exec_stmt env (gorm_first (\<lambda>r. tk_tid r = tid \<and> tk_uid r = uid \<and> tk_status r = kFailed)) c of
        (Some (oldTask # _), c1) \<Rightarrow>
          let (ok, c2) = updateTaskStatus env c1 tid kPending reason_retry now
          in if \<not> ok then (Api_Error 5000003, None, c2)
             else (Api_Ok tid, if grpc then Some (tid, tk_request_params oldTask) else None, c2)
      | (_, c1) \<Rightarrow> (Api_Error 4000002, None, c1))"

section \<open>Files\<close>

text \<open>
  The object store holds a content type and the bytes for each key.  Whether one of its calls
  succeeds is part of the environment.
\<close>

type_synonym objects = "(string \<times> string \<times> string) list"

record storage_env =
  put_ok :: bool
  list_ok :: bool
  delete_ok :: "string \<Rightarrow> bool"

definition ListObjects :: "objects \<Rightarrow> string \<Rightarrow> string list" where
  "ListObjects objs pre = filter (prefix pre) (map fst objs)"

definition content_type :: "string \<Rightarrow> string" where
  "content_type filename =
     (if suffix ''.svg'' filename then ''image/svg+xml''
      else if suffix ''.json'' filename then ''application/json''
      else if suffix ''.txt'' filename then ''text/plain''
      else ''application/octet-stream'')"

definition TrimPrefix :: "string \<Rightarrow> string \<Rightarrow> string" where
  "TrimPrefix s pre = (if prefix pre s then drop (length pre) s else s)"

text \<open>\<open>store\<close> is \<open>None\<close> when \<^verbatim>\<open>s.storage\<close> is nil, \<open>file\<close> when the form has none.\<close>

definition UploadTaskFile ::
  "pq_env \<Rightarrow> storage_env \<Rightarrow> pgconn \<Rightarrow> objects option \<Rightarrow> string \<Rightarrow> string \<Rightarrow> string option \<Rightarrow>
   api_reply \<times> objects option \<times> pgconn" where
  "UploadTaskFile env sto c store tid filename0 file =
     (if tid = [] \<or> filename0 = [] then (Api_Error 4000100, store, c)
      else
        let filename = TrimPrefix filename0 ''/''
        in case (store, file) of
             (None, _) \<Rightarrow> (Api_Error 5030100, store, c)
           | (Some _, None) \<Rightarrow> (Api_Error 4000101, store, c)
           | (Some objs, Some content) \<Rightarrow>
               let cosKey = tid @ ''/'' @ filename
               in if \<not> put_ok sto then (Api_Error 5000100, store, c)
                  else
                    let objs' = AList.update cosKey (content_type filename, content) objs;
                        c' = (case exec_stmt env (gorm_first (\<lambda>r. tk_tid r = tid)) c of
                                (Some (task # _), c1) \<Rightarrow>
                                  if tk_cos_key task = []
                                  then snd (exec_stmt env (gorm_update (\<lambda>r. tk_tid r = tid) (tk_cos_key_update (\<lambda>_. cosKey))) c1)
                                  else c1
                              | (_, c1) \<Rightarrow> c1)
                    in (Api_Ok cosKey, Some objs', c'))"

text \<open>
  The tasks a user may see: those of the user, and those of the members of the user's groups.
\<close>

definition visible :: "(nat \<times> string) list \<Rightarrow> string \<Rightarrow> task_row \<Rightarrow> bool" where
  "visible group_members uid r \<longleftrightarrow>
     tk_uid r = uid
     \<or> (\<exists>(g, u) \<in> set group_members. u = tk_uid r \<and> (\<exists>(g', u') \<in> set group_members. u' = uid \<and> g' = g))"

text \<open>
  \<^verbatim>\<open>DeleteTask\<close> only marks the row.  The removal of the task's suggestions is a statement on
  a table that is not modelled.
\<close>

definition DeleteTask ::
  "pq_env \<Rightarrow> storage_env \<Rightarrow> (nat \<times> string) list \<Rightarrow> pgconn \<Rightarrow> objects option \<Rightarrow> string \<Rightarrow> string \<Rightarrow>
   api_reply \<times> objects option \<times> pgconn" where
  "DeleteTask env sto group_members c store uid tid =
     (let (rows, c1) = exec_stmt env (gorm_update (\<lambda>r. tk_tid r = tid \<and> visible group_members uid r)
                                        (tk_deleted_update (\<lambda>_. True))) c
      in if rows = None \<or> rows = Some 0 then (Api_Error 4040002, store, c1)
         else
           let keys = (\<lambda>objs. if list_ok sto then ListObjects objs (tid @ ''/'') else []);
               remove = (\<lambda>objs. filter (\<lambda>(k, _). \<not> (k \<in> set (keys objs) \<and> delete_ok sto k)) objs)
           in (Api_Ok tid, map_option remove store, c1))"

section \<open>The analysis scheduler\<close>

abbreviation (input) AnalysisStatusPending :: int where "AnalysisStatusPending \<equiv> 0"
abbreviation (input) AnalysisStatusRunning :: int where "AnalysisStatusRunning \<equiv> 1"
abbreviation (input) AnalysisStatusSuccess :: int where "AnalysisStatusSuccess \<equiv> 2"
abbreviation (input) AnalysisStatusFailed :: int where "AnalysisStatusFailed \<equiv> 3"

definition reason_analysis :: string where
  "reason_analysis = map char_of [229, 136, 134, 230, 158, 144, 229, 188, 128, 229, 167, 139::nat]"

definition analysis_columns :: "int \<Rightarrow> string \<Rightarrow> task_row \<Rightarrow> task_row" where
  "analysis_columns status reason r = r\<lparr>tk_analysis_status := status, tk_status_info := reason\<rparr>"

definition updateAnalysisStatus :: "pq_env \<Rightarrow> pgconn \<Rightarrow> string \<Rightarrow> int \<Rightarrow> string \<Rightarrow> bool \<times> pgconn" where
  "updateAnalysisStatus env c tid status reason =
     (let (rows, c1) = exec_stmt env (gorm_update (\<lambda>r. tk_tid r = tid) (analysis_columns status reason)) c
      in (rows \<noteq> None, c1))"

text \<open>
  The analysis program is a process of its own: what it does to the tables, and the error and output
  of a failed run, are the argument \<open>run\<close>.
\<close>

type_synonym analysis_run = "string \<Rightarrow> int \<Rightarrow> pg_db \<Rightarrow> (string \<times> string) option \<times> pg_db"

definition spawnAnalysis :: "pq_env \<Rightarrow> analysis_run \<Rightarrow> string \<Rightarrow> int \<Rightarrow> pgconn \<Rightarrow> pgconn" where
  "spawnAnalysis env run tid profilerType c =
     (let (ok, c1) = updateAnalysisStatus env c tid AnalysisStatusRunning reason_analysis
      in if \<not> ok then c1
         else
           let (failure, d) = run tid profilerType (db c1); c2 = c1\<lparr>db := d\<rparr>
           in case failure of
                None \<Rightarrow> c2
              | Some (err, output) \<Rightarrow>
                  snd (updateAnalysisStatus env c2 tid AnalysisStatusFailed
                         (''analysis failed: '' @ err @ [CHR 0x0A] @ output)))"

definition runAnalysisTick :: "pq_env \<Rightarrow> analysis_run \<Rightarrow> pgconn \<Rightarrow> pgconn" where
  "runAnalysisTick env run c =
     (case exec_stmt env (gorm_find (\<lambda>r. tk_status r = kDone \<and> tk_analysis_status r = AnalysisStatusPending)) c of
        (None, c1) \<Rightarrow> c1
      | (Some tasks, c1) \<Rightarrow>
          fold (\<lambda>t c'. if tk_cos_key t = [] then c'
                       else spawnAnalysis env run (tk_tid t) (tk_profiler_type t) c')
            tasks c1)"

end
