(* ===== verification/HotmethodAnalyzer.thy ===== *)
theory HotmethodAnalyzer
  imports ApiServer
begin

text \<open>
  The life of one analysis run, \<^verbatim>\<open>main\<close> of
  \<^verbatim>\<open>src/analysis/drop_analyzer/hotmethod_analyzer.py\<close>: which statements it sends to the
  shared database and how it ends.  The download of the data, and the flame graph tools with the
  uploads and the suggestions, are arguments that return or raise.
\<close>

record analysis_env =
  an_pg :: pq_env
  an_dsn_configured :: bool
  an_db_error :: string
  an_download :: "string \<Rightarrow> string + string"
  an_work :: "string \<Rightarrow> int \<Rightarrow> string \<Rightarrow> string + unit"

text \<open>The statements of the script have no condition on \<^verbatim>\<open>deleted_at\<close>.\<close>

definition py_update_analysis_status :: "string \<Rightarrow> int \<Rightarrow> string \<Rightarrow> time \<Rightarrow> pg_db \<Rightarrow> pg_db \<times> unit" where
  "py_update_analysis_status tid status reason now d =
     (d\<lparr>hotmethod_task_tbl := map (\<lambda>r. if tk_tid r = tid then analysis_columns status reason r else r)
                               (hotmethod_task_tbl d)\<rparr>, ())"

definition py_get_task_info :: "string \<Rightarrow> time \<Rightarrow> pg_db \<Rightarrow> pg_db \<times> task_row list" where
  "py_get_task_info tid now d = (d, filter (\<lambda>r. tk_tid r = tid) (hotmethod_task_tbl d))"

definition reason_analyzed :: string where
  "reason_analyzed = map char_of [229, 136, 134, 230, 158, 144, 229, 174, 140, 230, 136, 144::nat]"

definition reason_unanalyzed :: string where
  "reason_unanalyzed = map char_of [229, 136, 134, 230, 158, 144, 229, 164, 177, 232, 180, 165, 58, 32::nat]"

text \<open>
  The body of the \<^verbatim>\<open>try\<close>: \<open>Some (Inl m)\<close> is an exception with the message \<open>m\<close>,
  \<open>None\<close> the \<^verbatim>\<open>sys.exit(1)\<close> of \<^verbatim>\<open>get_task_info\<close>, which the handler
  does not catch.
\<close>

definition analysis_body :: "analysis_env \<Rightarrow> string \<Rightarrow> pgconn \<Rightarrow> (string + unit) option \<times> pgconn" where
  "analysis_body env tid c =
     (case exec_stmt (an_pg env) (py_get_task_info tid) c of
        (None, c1) \<Rightarrow> (Some (Inl (an_db_error env)), c1)
      | (Some [], c1) \<Rightarrow> (None, c1)
      | (Some (task # _), c1) \<Rightarrow>
          let profiler_type = tk_profiler_type task
          in if tk_cos_key task = []
             then (Some (Inl (''Task '' @ tid @ '' has no cos_key (no upload data)'')), c1)
             else
               (case an_download env (tk_cos_key task) of
                  Inl m \<Rightarrow> (Some (Inl m), c1)
                | Inr perf_data \<Rightarrow>
                    if profiler_type \<notin> {0, 1, 3}
                    then (Some (Inl (''Unsupported profiler_type='' @ show_int profiler_type)), c1)
                    else
                      (case an_work env tid profiler_type perf_data of
                         Inl m \<Rightarrow> (Some (Inl m), c1)
                       | Inr _ \<Rightarrow>
                           (case exec_stmt (an_pg env) (py_update_analysis_status tid AnalysisStatusSuccess reason_analyzed) c1 of
                              (None, c2) \<Rightarrow> (Some (Inl (an_db_error env)), c2)
                            | (Some _, c2) \<Rightarrow> (Some (Inr ()), c2)))))"

text \<open>The exit status is 0 exactly when the result is \<open>True\<close>.\<close>

definition analysis_main :: "analysis_env \<Rightarrow> string \<Rightarrow> pgconn \<Rightarrow> bool \<times> pgconn" where
  "analysis_main env tid c =
     (if \<not> an_dsn_configured env then (False, c)
      else
        (case exec_stmt (an_pg env) (py_update_analysis_status tid AnalysisStatusRunning reason_analysis) c of
           (None, c1) \<Rightarrow> (False, c1)
         | (Some _, c1) \<Rightarrow>
             (case analysis_body env tid c1 of
                (Some (Inr _), c2) \<Rightarrow> (True, c2)
              | (Some (Inl m), c2) \<Rightarrow>
                  (False, snd (exec_stmt (an_pg env)
                                 (py_update_analysis_status tid AnalysisStatusFailed (reason_unanalyzed @ m)) c2))
              | (None, c2) \<Rightarrow> (False, c2))))"

text \<open>The run as the API server starts it; \<^verbatim>\<open>--task-type\<close> is parsed and not used.\<close>

definition analysis_process :: "analysis_env \<Rightarrow> (string \<times> string) \<Rightarrow> analysis_run" where
  "analysis_process env errors tid profilerType d =
     (let (ok, c) = analysis_main env tid \<lparr>db = d, txn = None, stmt_no = 0\<rparr>
      in (if ok then None else Some errors, db c))"

end
