(* ===== verification/PyRegex.thy ===== *)
theory PyRegex
  imports Main "HOL-Library.Sublist"
begin

text \<open>
  The part of Python's \<^verbatim>\<open>re\<close> that \<^verbatim>\<open>src/analysis/nl_parser.py\<close> uses: character
  classes, greedy repetition of a class, sequence, alternative and groups.  The matcher returns every
  match at the front of a text in the order in which a backtracking matcher tries them, so the first
  one is the match of Python.  It is proved against the language of the expression.
\<close>

section \<open>Expressions and matching\<close>

datatype 'c re =
    One "'c \<Rightarrow> bool"
  | Rep nat "nat option" "'c \<Rightarrow> bool"
  | Cat "'c re" "'c re"
  | Or "'c re" "'c re"
  | Grp "'c re"

text \<open>A match: the text it consumes, its groups from left to right, and the rest.\<close>

type_synonym 'c re_match = "'c list \<times> 'c list list \<times> 'c list"

definition most :: "nat option \<Rightarrow> nat \<Rightarrow> nat" where
  "most n k = (case n of None \<Rightarrow> k | Some b \<Rightarrow> min b k)"

fun re_matches :: "'c re \<Rightarrow> 'c list \<Rightarrow> 'c re_match list" where
  "re_matches (One P) s = (case s of c # t \<Rightarrow> if P c then [([c], [], t)] else [] | [] \<Rightarrow> [])"
| "re_matches (Rep m n P) s =
     map (\<lambda>j. (take j s, [], drop j s)) (rev [m..<Suc (most n (length (takeWhile P s)))])"
| "re_matches (Cat a b) s =
     concat (map (\<lambda>(u, g, t). map (\<lambda>(v, h, w). (u @ v, g @ h, w)) (re_matches b t)) (re_matches a s))"
| "re_matches (Or a b) s = re_matches a s @ re_matches b s"
| "re_matches (Grp a) s = map (\<lambda>(u, g, t). (u, u # g, t)) (re_matches a s)"

text \<open>\<^verbatim>\<open>re.search\<close>: the first match at the first position that has one.\<close>

fun re_search :: "'c re \<Rightarrow> 'c list \<Rightarrow> 'c re_match option" where
  "re_search r s =
     (case re_matches r s of
        m # _ \<Rightarrow> Some m
      | [] \<Rightarrow> (case s of [] \<Rightarrow> None | _ # t \<Rightarrow> re_search r t))"

declare re_search.simps [simp del]

definition re_groups :: "'c re \<Rightarrow> 'c list \<Rightarrow> 'c list list option" where
  "re_groups r s = map_option (\<lambda>(_, g, _). g) (re_search r s)"

text \<open>A fixed text.\<close>

fun lit :: "'c list \<Rightarrow> 'c re" where
  "lit [] = Rep 0 (Some 0) (\<lambda>_. True)"
| "lit (c # cs) = Cat (One (\<lambda>d. d = c)) (lit cs)"

section \<open>The language of an expression\<close>

fun lang :: "'c re \<Rightarrow> 'c list \<Rightarrow> bool" where
  "lang (One P) u = (\<exists>c. u = [c] \<and> P c)"
| "lang (Rep m n P) u = (m \<le> length u \<and> most n (length u) = length u \<and> list_all P u)"
| "lang (Cat a b) u = (\<exists>v w. u = v @ w \<and> lang a v \<and> lang b w)"
| "lang (Or a b) u = (lang a u \<or> lang b u)"
| "lang (Grp a) u = lang a u"

lemma most_le: "most n k \<le> k"
  by (simp add: most_def split: option.split)

lemma most_mono: "j \<le> most n k \<Longrightarrow> most n j = j"
  by (auto simp: most_def split: option.splits)

lemma most_intro: "most n j = j \<Longrightarrow> j \<le> k \<Longrightarrow> j \<le> most n k"
  by (auto simp: most_def split: option.splits)

lemma list_all_take_takeWhile: "j \<le> length (takeWhile P s) \<Longrightarrow> list_all P (take j s)"
  by (metis list_all_iff set_takeWhileD set_take_subset subset_code(1) takeWhile_eq_take take_take min_absorb1)

lemma takeWhile_at_least: "list_all P u \<Longrightarrow> length u \<le> length (takeWhile P (u @ t))"
  by (induction u) auto

text \<open>A match consumes a front part of the text that is in the language.\<close>

lemma re_matches_sound:
  "(u, g, t) \<in> set (re_matches r s) \<Longrightarrow> s = u @ t \<and> lang r u"
proof (induction r arbitrary: s u g t)
  case (Rep m n P)
  then obtain j where j: "m \<le> j" "j \<le> most n (length (takeWhile P s))" "u = take j s" "t = drop j s"
    by auto
  have len: "j \<le> length (takeWhile P s)" using j(2) most_le le_trans by blast
  also have "\<dots> \<le> length s" by (rule length_takeWhile_le)
  finally have "length u = j" using j(3) by simp
  then show ?case
    using j most_mono [OF j(2)] list_all_take_takeWhile [OF len] by simp
next
  case (Cat a b)
  then obtain u1 g1 t1 u2 g2 where
    m: "(u1, g1, t1) \<in> set (re_matches a s)" "(u2, g2, t) \<in> set (re_matches b t1)" "u = u1 @ u2" by auto
  from Cat.IH(1) [OF m(1)] Cat.IH(2) [OF m(2)] m(3) show ?case by auto
qed (auto split: list.splits if_splits)

text \<open>Every front part in the language is tried.\<close>

lemma re_matches_complete:
  "lang r u \<Longrightarrow> \<exists>g. (u, g, t) \<in> set (re_matches r (u @ t))"
proof (induction r arbitrary: u t)
  case (Rep m n P)
  then have "length u \<le> most n (length (takeWhile P (u @ t)))"
    by (auto intro!: most_intro takeWhile_at_least)
  then show ?case using Rep by (auto intro!: image_eqI [of _ _ "length u"])
next
  case (Cat a b)
  then obtain v w where u: "u = v @ w" "lang a v" "lang b w" by auto
  obtain g where g: "(v, g, w @ t) \<in> set (re_matches a (v @ w @ t))" using Cat.IH(1) [OF u(2)] by blast
  obtain h where h: "(w, h, t) \<in> set (re_matches b (w @ t))" using Cat.IH(2) [OF u(3)] by blast
  have "(v @ w, g @ h, t) \<in> set (re_matches (Cat a b) (v @ w @ t))"
    using g h by (auto intro!: bexI [of _ "(v, g, w @ t)"] image_eqI [of _ _ "(w, h, t)"])
  then show ?case unfolding u(1) append_assoc by (rule exI)
next
  case (Or a b)
  then show ?case by fastforce
next
  case (Grp a)
  then obtain g where "(u, g, t) \<in> set (re_matches a (u @ t))" by auto
  then show ?case by force
qed (auto split: list.splits)

lemma re_search_first:
  "re_search r s = Some m \<Longrightarrow> \<exists>p s' ms. s = p @ s' \<and> re_matches r s' = m # ms"
proof (induction s)
  case Nil
  then show ?case by (auto simp: re_search.simps [of r "[]"] split: list.splits)
next
  case (Cons c s)
  show ?case
  proof (cases "re_matches r (c # s)")
    case Nil
    then obtain p s' ms where "s = p @ s'" "re_matches r s' = m # ms"
      using Cons by (auto simp: re_search.simps [of r "c # s"])
    then show ?thesis by (intro exI [of _ "c # p"] exI [of _ s']) simp
  next
    case (Cons m' ms)
    then show ?thesis
      using Cons.prems by (intro exI [of _ "[]"] exI [of _ "c # s"] exI [of _ ms]) (simp add: re_search.simps [of r "c # s"])
  qed
qed

lemma re_search_sound:
  assumes "re_search r s = Some (u, g, t)"
  shows "\<exists>p. s = p @ u @ t \<and> lang r u \<and> (u, g, t) \<in> set (re_matches r (u @ t))"
proof -
  obtain p s' ms where "s = p @ s'" "re_matches r s' = (u, g, t) # ms" using re_search_first [OF assms] by blast
  moreover then have "s' = u @ t \<and> lang r u" by (intro re_matches_sound [of u g t]) simp
  ultimately show ?thesis by auto
qed

theorem re_search_iff: "(re_search r s \<noteq> None) = (\<exists>u. sublist u s \<and> lang r u)"
proof
  assume "re_search r s \<noteq> None"
  then obtain u g t where "re_search r s = Some (u, g, t)" by (cases "re_search r s") auto
  from re_search_sound [OF this] show "\<exists>u. sublist u s \<and> lang r u" by (auto simp: sublist_def)
next
  assume "\<exists>u. sublist u s \<and> lang r u"
  then obtain u p t where "s = p @ u @ t" "lang r u" by (auto simp: sublist_def)
  then show "re_search r s \<noteq> None"
  proof (induction p arbitrary: s)
    case Nil
    then have "re_matches r s \<noteq> []" using re_matches_complete [of r u t] by auto
    then show ?case by (subst re_search.simps) (simp split: list.split)
  next
    case (Cons c p)
    then show ?case by (subst re_search.simps) (simp split: list.split)
  qed
qed

lemma lang_lit [simp]: "lang (lit cs) u \<longleftrightarrow> u = cs"
  by (induction cs arbitrary: u) (auto simp: most_def)

section \<open>Groups\<close>

text \<open>An expression without groups contributes none; a group holds the text it matched.\<close>

fun no_groups :: "'c re \<Rightarrow> bool" where
  "no_groups (One P) = True"
| "no_groups (Rep m n P) = True"
| "no_groups (Cat a b) = (no_groups a \<and> no_groups b)"
| "no_groups (Or a b) = (no_groups a \<and> no_groups b)"
| "no_groups (Grp a) = False"

lemma no_groups_lit [simp]: "no_groups (lit cs)"
  by (induction cs) auto

lemma no_groups_Nil: "no_groups r \<Longrightarrow> (u, g, t) \<in> set (re_matches r s) \<Longrightarrow> g = []"
proof (induction r arbitrary: s u g t)
  case (Cat a b)
  then show ?case by fastforce
qed (auto split: list.splits if_splits)

lemma tail_group:
  assumes "no_groups a" and "no_groups b" and "(u, g, t) \<in> set (re_matches (Cat a (Grp b)) s)"
  obtains v where "g = [v]" and "lang b v" and "suffix v u"
proof -
  obtain u1 g1 t1 v h where
    m: "(u1, g1, t1) \<in> set (re_matches a s)" "(v, h, t) \<in> set (re_matches b t1)" "g = g1 @ v # h" "u = u1 @ v"
    using assms(3) by auto
  have "g1 = []" "h = []" using no_groups_Nil assms(1,2) m(1,2) by blast+
  then show thesis using that m re_matches_sound [OF m(2)] by (auto simp: suffix_def)
qed

lemma head_group:
  assumes "no_groups a" and "no_groups b" and "(u, g, t) \<in> set (re_matches (Cat (Grp a) b) s)"
  obtains v where "g = [v]" and "lang a v" and "prefix v u"
proof -
  obtain u1 g1 t1 v h where
    m: "(u1, g1, t1) \<in> set (re_matches a s)" "(v, h, t) \<in> set (re_matches b t1)" "g = (u1 # g1) @ h" "u = u1 @ v"
    using assms(3) by auto
  have "g1 = []" "h = []" using no_groups_Nil assms(1,2) m(1,2) by blast+
  then show thesis using that m re_matches_sound [OF m(1)] by (auto simp: prefix_def)
qed

text \<open>A greedy repetition at the end of an expression leaves no character of its class behind.\<close>

definition greedy_end :: "'c re \<Rightarrow> ('c \<Rightarrow> bool) \<Rightarrow> bool" where
  "greedy_end r P \<longleftrightarrow>
     (\<forall>s u g t ms. re_matches r s = (u, g, t) # ms \<longrightarrow> t = [] \<or> \<not> P (hd t))"

lemma greedy_Rep: "greedy_end (Rep m None P) P"
proof -
  have "t = dropWhile P s" if "re_matches (Rep m None P) s = (u, g, t) # ms" for s u g t ms
    using that by (auto simp: most_def dropWhile_eq_drop split: if_splits)
  then show ?thesis using hd_dropWhile unfolding greedy_end_def by blast
qed

lemma greedy_Grp: "greedy_end r P \<Longrightarrow> greedy_end (Grp r) P"
  unfolding greedy_end_def by (clarsimp simp: map_eq_Cons_conv) metis

lemma concat_Cons: "concat xs = y # ys \<Longrightarrow> \<exists>x zs. x \<in> set xs \<and> x = y # zs"
  by (induction xs) (auto simp: append_eq_Cons_conv)

lemma greedy_Cat: "greedy_end b P \<Longrightarrow> greedy_end (Cat a b) P"
  unfolding greedy_end_def
proof (intro allI impI)
  fix s u g t ms
  assume b: "\<forall>s u g t ms. re_matches b s = (u, g, t) # ms \<longrightarrow> t = [] \<or> \<not> P (hd t)"
    and m: "re_matches (Cat a b) s = (u, g, t) # ms"
  from concat_Cons [OF m [unfolded re_matches.simps]]
  obtain v h t1 ms' where "re_matches b t1 = (v, h, t) # ms'" by (auto simp: map_eq_Cons_conv)
  then show "t = [] \<or> \<not> P (hd t)" using b by blast
qed

lemma search_greedy:
  assumes "greedy_end r P" and "re_search r s = Some (u, g, t)"
  shows "t = [] \<or> \<not> P (hd t)"
  using assms re_search_first [OF assms(2)] unfolding greedy_end_def by blast

end
