(* ===== verification/NLParser.thy ===== *)
theory NLParser
  imports PyRegex
begin

text \<open>
  \<^verbatim>\<open>src/analysis/nl_parser.py\<close>: the intent behind a chat message.  A Python string is a list
  of code points.  The Unicode tables behind \<^verbatim>\<open>\d\<close>, \<^verbatim>\<open>\s\<close>,
  \<^verbatim>\<open>int\<close> and \<^verbatim>\<open>str.lower\<close> are an argument; a time is in microseconds since
  the epoch.
\<close>

section \<open>Text\<close>

type_synonym ustr = "int list"

record unicode =
  u_digit :: "int \<Rightarrow> nat option"
  u_space :: "int \<Rightarrow> bool"
  u_lower :: "ustr \<Rightarrow> ustr"

definition ascii :: "string \<Rightarrow> ustr" where
  "ascii s = map of_char s"

abbreviation is_dec :: "unicode \<Rightarrow> int \<Rightarrow> bool" where
  "is_dec uni c \<equiv> u_digit uni c \<noteq> None"

definition int_of_digits :: "unicode \<Rightarrow> ustr \<Rightarrow> nat" where
  "int_of_digits uni ds = foldl (\<lambda>n c. n * 10 + the (u_digit uni c)) 0 ds"

text \<open>A class of listed characters and white space, and a group of digits.\<close>

definition sep_class :: "unicode \<Rightarrow> ustr \<Rightarrow> int \<Rightarrow> bool" where
  "sep_class uni cs c \<longleftrightarrow> c \<in> set cs \<or> u_space uni c"

definition digits :: "unicode \<Rightarrow> int re" where
  "digits uni = Grp (Rep 1 None (is_dec uni))"

definition any_of :: "ustr \<Rightarrow> int re" where
  "any_of cs = One (\<lambda>c. c \<in> set cs)"

section \<open>The fields of an intent\<close>

definition pid_letters :: "int re" where
  "pid_letters = Cat (any_of (ascii ''Pp'')) (Cat (any_of (ascii ''Ii'')) (any_of (ascii ''Dd'')))"

definition pid_patterns :: "unicode \<Rightarrow> int re list" where
  "pid_patterns uni =
     [Cat (Cat pid_letters (Rep 1 None (sep_class uni [0x662F, 0x4E3A, 0xFF1A, 0x003A]))) (digits uni),
      Cat (Cat (lit [0x8FDB, 0x7A0B]) (Rep 0 None (sep_class uni [0x53F7, 0x4E3A, 0xFF1A, 0x003A]))) (digits uni),
      Cat (Cat pid_letters (Rep 1 None (u_space uni))) (digits uni),
      Cat (Cat (lit [0x76EE, 0x6807]) (Rep 1 None (sep_class uni [0x662F, 0x4E3A, 0xFF1A, 0x003A]))) (digits uni)]"

fun first_groups :: "int re list \<Rightarrow> ustr \<Rightarrow> ustr list option" where
  "first_groups [] s = None"
| "first_groups (p # ps) s = (case re_groups p s of Some g \<Rightarrow> Some g | None \<Rightarrow> first_groups ps s)"

definition extract_pid :: "unicode \<Rightarrow> ustr \<Rightarrow> nat option" where
  "extract_pid uni s = map_option (\<lambda>g. int_of_digits uni (hd g)) (first_groups (pid_patterns uni) s)"

definition PROFILER_KEYWORDS :: "(nat \<times> ustr list) list" where
  "PROFILER_KEYWORDS =
     [(0, [ascii ''cpu'', ascii ''cpu'' @ [0x91C7, 0x6837], ascii ''perf'', ascii ''cpu'' @ [0x98D9, 0x9AD8],
           ascii ''cpu'' @ [0x9AD8], ascii ''cpu'' @ [0x5360, 0x7528], [0x5360, 0x7528] @ ascii ''cpu'',
           ascii ''cpu'' @ [0x5229, 0x7528, 0x7387]]),
      (1, [ascii ''java'', ascii ''jvm'', ascii ''async-profiler'', ascii ''java'' @ [0x91C7, 0x6837],
           ascii ''java'' @ [0x70ED, 0x70B9]]),
      (2, [ascii ''go'', ascii ''pprof'', ascii ''golang'']),
      (3, [ascii ''ebpf'', ascii ''off-cpu'', ascii ''offcpu'', ascii ''io'', [0x963B, 0x585E],
           [0x5361, 0x987F], [0x5EF6, 0x8FDF], ascii ''io'' @ [0x7B49, 0x5F85], [0x8C03, 0x5EA6]])]"

definition extract_profiler_type :: "unicode \<Rightarrow> ustr \<Rightarrow> nat option" where
  "extract_profiler_type uni s =
     map_option fst (find (\<lambda>(_, keywords). list_ex (\<lambda>kw. sublist kw (u_lower uni s)) keywords) PROFILER_KEYWORDS)"

text \<open>
  A time range is in seconds.  \<open>None\<close> is the \<^verbatim>\<open>OverflowError\<close> of a start before the first
  year that \<^verbatim>\<open>datetime\<close> can represent.
\<close>

definition min_datetime :: int where
  "min_datetime = - 62135596800 * 1000000"

definition int_timestamp :: "int \<Rightarrow> int" where
  "int_timestamp us = sgn us * (\<bar>us\<bar> div 1000000)"

definition back_from :: "int \<Rightarrow> int \<Rightarrow> (int \<times> int) option option" where
  "back_from now delta =
     (if now - delta < min_datetime then None
      else Some (Some (int_timestamp (now - delta), int_timestamp now)))"

definition range_pattern :: "unicode \<Rightarrow> int re" where
  "range_pattern uni =
     Cat (Or (lit [0x8FC7, 0x53BB]) (lit [0x6700, 0x8FD1]))
       (Cat (Rep 0 None (u_space uni)) (Cat (Rep 0 (Some 1) (\<lambda>c. c = 0x4E00))
         (Cat (Grp (Rep 0 None (is_dec uni))) (Cat (Rep 0 None (u_space uni))
           (Grp (Or (lit [0x5206, 0x949F]) (Or (lit [0x5C0F, 0x65F6]) (lit [0x5929]))))))))"

definition last_hour_pattern :: "int re" where
  "last_hour_pattern =
     Cat (lit [0x4E0A]) (Cat (Rep 0 (Some 1) (\<lambda>c. c = 0x4E00))
       (Cat (Rep 0 (Some 1) (\<lambda>c. c = 0x4E2A)) (lit [0x5C0F, 0x65F6])))"

definition hour_us :: int where
  "hour_us = 3600 * 1000000"

definition extract_time_range :: "unicode \<Rightarrow> int \<Rightarrow> ustr \<Rightarrow> (int \<times> int) option option" where
  "extract_time_range uni now s =
     (case re_groups (range_pattern uni) s of
        Some g \<Rightarrow>
          let val = (if g ! 0 \<noteq> [] then int (int_of_digits uni (g ! 0)) else 1); unit = g ! 1
          in back_from now
               (if unit = [0x5206, 0x949F] then val * 60 * 1000000
                else if unit = [0x5C0F, 0x65F6] then val * hour_us
                else if unit = [0x5929] then val * 24 * hour_us
                else hour_us)
      | None \<Rightarrow>
          if re_search last_hour_pattern s \<noteq> None then back_from now hour_us
          else if sublist [0x4ECA, 0x5929] s then back_from now (now mod (24 * hour_us))
          else Some None)"

definition duration_patterns :: "unicode \<Rightarrow> int re list" where
  "duration_patterns uni =
     (let secs = Cat (digits uni) (Cat (Rep 0 None (u_space uni)) (lit [0x79D2]))
      in [Cat (Or (lit [0x91C7, 0x96C6]) (Or (lit [0x91C7, 0x6837]) (Or (lit [0x6301, 0x7EED]) (lit [0x65F6, 0x957F]))))
            (Cat (Rep 0 None (sep_class uni [0x4E3A, 0x7EA6, 0xFF1A, 0x003A])) secs),
          secs])"

definition extract_duration :: "unicode \<Rightarrow> ustr \<Rightarrow> nat" where
  "extract_duration uni s =
     (case first_groups (duration_patterns uni) s of Some g \<Rightarrow> int_of_digits uni (hd g) | None \<Rightarrow> 10)"

definition ip_pattern :: "unicode \<Rightarrow> int re" where
  "ip_pattern uni =
     (let part = Rep 1 (Some 3) (is_dec uni); dot = lit (ascii ''.'')
      in Grp (Cat part (Cat dot (Cat part (Cat dot (Cat part (Cat dot part)))))))"

definition extract_target_ip :: "unicode \<Rightarrow> ustr \<Rightarrow> ustr option" where
  "extract_target_ip uni s = map_option hd (re_groups (ip_pattern uni) s)"

section \<open>The intent\<close>

record nl_intent =
  in_pid :: nat
  in_profiler_type :: nat
  in_duration :: nat
  in_target_ip :: "ustr option"
  in_time_range :: "(int \<times> int) option"
  in_raw_text :: ustr

text \<open>The available agents are given by their addresses.  \<open>None\<close> is an uncaught exception.\<close>

definition parse_intent :: "unicode \<Rightarrow> int \<Rightarrow> ustr \<Rightarrow> ustr list \<Rightarrow> nl_intent option" where
  "parse_intent uni now s available_agents =
     (case extract_time_range uni now s of
        None \<Rightarrow> None
      | Some tr \<Rightarrow>
          Some \<lparr>in_pid = (case extract_pid uni s of Some p \<Rightarrow> p | None \<Rightarrow> 0),
                in_profiler_type = (case extract_profiler_type uni s of Some t \<Rightarrow> t | None \<Rightarrow> 0),
                in_duration = extract_duration uni s,
                in_target_ip = (case extract_target_ip uni s of
                                  Some ip \<Rightarrow> Some ip
                                | None \<Rightarrow> (case available_agents of ip # _ \<Rightarrow> Some ip | [] \<Rightarrow> None)),
                in_time_range = tr, in_raw_text = s\<rparr>)"

section \<open>Lemmas\<close>

lemma first_groups_in: "first_groups ps s = Some g \<Longrightarrow> \<exists>p \<in> set ps. re_groups p s = Some g"
  by (induction ps) (auto split: option.splits)

lemma re_groups_search: "re_groups r s = Some g \<Longrightarrow> \<exists>u t. re_search r s = Some (u, g, t)"
  by (auto simp: re_groups_def)

lemma pid_pattern_shape:
  "p \<in> set (pid_patterns uni) \<Longrightarrow> \<exists>a. p = Cat a (Grp (Rep 1 None (is_dec uni))) \<and> no_groups a"
  by (auto simp: pid_patterns_def digits_def pid_letters_def any_of_def)

text \<open>
  The process id is a whole number of the message: a run of digits that no digit follows.
\<close>

theorem extract_pid_sound:
  assumes "extract_pid uni s = Some n"
  shows "\<exists>pre ds post. s = pre @ ds @ post \<and> ds \<noteq> [] \<and> list_all (is_dec uni) ds
    \<and> (post = [] \<or> \<not> is_dec uni (hd post)) \<and> n = int_of_digits uni ds"
proof -
  obtain g where g: "first_groups (pid_patterns uni) s = Some g" "n = int_of_digits uni (hd g)"
    using assms by (auto simp: extract_pid_def)
  obtain a where a: "re_groups (Cat a (Grp (Rep 1 None (is_dec uni)))) s = Some g" "no_groups a"
    using first_groups_in [OF g(1)] pid_pattern_shape by blast
  then obtain u t where m: "re_search (Cat a (Grp (Rep 1 None (is_dec uni)))) s = Some (u, g, t)"
    using re_groups_search by blast
  have end_digits: "t = [] \<or> \<not> is_dec uni (hd t)"
    by (rule search_greedy [OF _ m]) (intro greedy_Cat greedy_Grp greedy_Rep)
  obtain p where p: "s = p @ u @ t"
    "(u, g, t) \<in> set (re_matches (Cat a (Grp (Rep 1 None (is_dec uni)))) (u @ t))"
    using re_search_sound [OF m] by blast
  obtain v where v: "g = [v]" "lang (Rep 1 None (is_dec uni)) v" "suffix v u"
    using tail_group [OF a(2) _ p(2)] by auto
  then obtain w where "u = w @ v" by (auto simp: suffix_def)
  then show ?thesis
    using p(1) v g(2) end_digits by (intro exI [of _ "p @ w"] exI [of _ v] exI [of _ t]) auto
qed

text \<open>An address that is found has four parts of one to three digits.\<close>

theorem extract_target_ip_sound:
  assumes "extract_target_ip uni s = Some ip"
  shows "\<exists>a b c d. ip = a @ [46] @ b @ [46] @ c @ [46] @ d \<and> sublist ip s
    \<and> list_all (\<lambda>x. 1 \<le> length x \<and> length x \<le> 3 \<and> list_all (is_dec uni) x) [a, b, c, d]"
proof -
  let ?part = "Rep 1 (Some 3) (is_dec uni)" and ?dot = "lit [46 :: int]"
  let ?body = "Cat ?part (Cat ?dot (Cat ?part (Cat ?dot (Cat ?part (Cat ?dot ?part)))))"
  have pat: "ip_pattern uni = Grp ?body" by (simp add: ip_pattern_def Let_def ascii_def)
  obtain g where g: "re_groups (Grp ?body) s = Some g" "ip = hd g"
    using assms by (auto simp: extract_target_ip_def pat)
  obtain u t where m: "re_search (Grp ?body) s = Some (u, g, t)" using re_groups_search [OF g(1)] by blast
  obtain p where p: "s = p @ u @ t" "lang (Grp ?body) u" "(u, g, t) \<in> set (re_matches (Grp ?body) (u @ t))"
    using re_search_sound [OF m] by blast
  have "hd g = u" using p(3) by (auto simp del: re_matches.simps(3))
  then have ip: "ip = u" "sublist ip s" using g(2) p(1) by (simp_all add: sublist_appendI)
  have part: "lang ?part x \<longleftrightarrow> 1 \<le> length x \<and> length x \<le> 3 \<and> list_all (is_dec uni) x" for x
    by (auto simp: most_def min_def)
  obtain a b c d where "u = a @ [46] @ b @ [46] @ c @ [46] @ d" "lang ?part a" "lang ?part b" "lang ?part c" "lang ?part d"
    using p(2) by (auto simp del: lit.simps lang.simps(2))
  then show ?thesis using ip part by auto
qed

text \<open>
  The keywords of the CPU profiler are tried first, and one of them is a part of \<^verbatim>\<open>off-cpu\<close>
  and \<^verbatim>\<open>offcpu\<close>, which are keywords of the eBPF profiler.
\<close>

lemma cpu_keyword: "sublist (ascii ''cpu'') (u_lower uni s) \<Longrightarrow> extract_profiler_type uni s = Some 0"
  by (simp add: extract_profiler_type_def PROFILER_KEYWORDS_def)

theorem off_cpu_means_cpu:
  assumes "sublist (ascii ''off-cpu'') (u_lower uni s) \<or> sublist (ascii ''offcpu'') (u_lower uni s)"
  shows "extract_profiler_type uni s = Some 0"
proof -
  have "ascii ''off-cpu'' = ascii ''off-'' @ ascii ''cpu''" "ascii ''offcpu'' = ascii ''off'' @ ascii ''cpu''"
    by (simp_all add: ascii_def)
  then have "sublist (ascii ''cpu'') (ascii ''off-cpu'')" "sublist (ascii ''cpu'') (ascii ''offcpu'')"
    using sublist_append_leftI by metis+
  then show ?thesis using assms cpu_keyword sublist_order.order.trans by blast
qed

lemma profiler_type_range: "extract_profiler_type uni s = Some t \<Longrightarrow> t \<le> 3"
  by (auto simp: extract_profiler_type_def PROFILER_KEYWORDS_def split: if_splits)

lemma int_timestamp_mono: "a \<le> b \<Longrightarrow> int_timestamp a \<le> int_timestamp b"
proof -
  have "int_timestamp x = (if x \<ge> 0 then x div 1000000 else - ((- x) div 1000000))" for x
    by (auto simp: int_timestamp_def sgn_if)
  moreover assume "a \<le> b"
  ultimately show ?thesis
    by (auto intro!: zdiv_mono1 simp: pos_imp_zdiv_nonneg_iff intro: order_trans [of _ 0])
qed

text \<open>A time range ends now and does not start later.\<close>

theorem time_range_ordered:
  assumes "extract_time_range uni now s = Some (Some (a, b))"
  shows "a \<le> b \<and> b = int_timestamp now"
proof -
  have ends: "a \<le> b \<and> b = int_timestamp now" if "back_from now delta = Some (Some (a, b))" "0 \<le> delta" for delta
    using that by (auto simp: back_from_def int_timestamp_mono split: if_splits)
  have "\<exists>delta. back_from now delta = Some (Some (a, b)) \<and> 0 \<le> delta"
    using assms unfolding extract_time_range_def Let_def hour_us_def
    by (simp split: option.splits if_splits) (fastforce intro: mult_nonneg_nonneg)+
  then show ?thesis using ends by blast
qed

end
