(* ===== verification/NLTexts.thy ===== *)
theory NLTexts
  imports Prelude
begin

text \<open>
  The fixed texts of \<^verbatim>\<open>src/apiserver/server/nl_handler.go\<close>, as their UTF-8 bytes: the reason of
  a task created from the chat, and the parts of the chat's answers.
\<close>

definition reason_nl :: string where
  "reason_nl = map char_of [232, 135, 170, 231, 132, 182, 232, 175, 173, 232, 168, 128, 232, 167, 166, 229,
     143, 145, 239, 188, 140, 228, 187, 187, 229, 138, 161, 229, 183, 178, 229, 136, 155, 229,
     187, 186::nat]"

definition msg_create_failed :: string where
  "msg_create_failed = map char_of [229, 136, 155, 229, 187, 186, 233, 135, 135, 230, 160, 183, 228, 187, 187, 229,
     138, 161, 229, 164, 177, 232, 180, 165, 239, 188, 140, 232, 175, 183, 231, 168, 141, 229,
     144, 142, 233, 135, 141, 232, 175, 149, 227, 128, 130::nat]"

definition msg_no_task :: string where
  "msg_no_task = map char_of [230, 137, 190, 228, 184, 141, 229, 136, 176, 232, 175, 165, 228, 187, 187, 229,
     138, 161, 227, 128, 130::nat]"

definition msg_report :: string where
  "msg_report = map char_of [35, 35, 32, 229, 136, 134, 230, 158, 144, 230, 138, 165, 229, 145, 138, 32, 40,
     228, 187, 187, 229, 138, 161, 32::nat]"

definition msg_rules :: string where
  "msg_rules = map char_of [35, 35, 32, 232, 167, 132, 229, 136, 153, 229, 187, 186, 232, 174, 174, 32, 40,
     228, 187, 187, 229, 138, 161, 32::nat]"

definition msg_diagnosis :: string where
  "msg_diagnosis = map char_of [42, 42, 232, 175, 138, 230, 150, 173, 42, 42, 58, 32::nat]"

definition msg_evidence :: string where
  "msg_evidence = map char_of [42, 42, 232, 175, 129, 230, 141, 174, 42, 42, 58, 32::nat]"

definition msg_recommendation :: string where
  "msg_recommendation = map char_of [42, 42, 229, 187, 186, 232, 174, 174, 42, 42, 58, 32::nat]"

definition msg_confidence :: string where
  "msg_confidence = map char_of [42, 42, 231, 189, 174, 228, 191, 161, 229, 186, 166, 42, 42, 58, 32::nat]"

definition msg_task :: string where
  "msg_task = map char_of [228, 187, 187, 229, 138, 161, 32::nat]"

definition msg_state :: string where
  "msg_state = map char_of [32, 229, 189, 147, 229, 137, 141, 231, 138, 182, 230, 128, 129, 58, 32::nat]"

definition msg_stop :: string where
  "msg_stop = map char_of [227, 128, 130::nat]"

definition msg_created :: string where
  "msg_created = map char_of [229, 165, 189, 231, 154, 132, 239, 188, 129, 229, 183, 178, 228, 184, 186, 230,
     130, 168, 229, 136, 155, 229, 187, 186, 233, 135, 135, 230, 160, 183, 228, 187, 187, 229,
     138, 161, 239, 188, 154, 10, 45, 32, 42, 42, 228, 187, 187, 229, 138, 161, 73, 68, 42, 42,
     58, 32::nat]"

definition msg_created_type :: string where
  "msg_created_type = map char_of [10, 45, 32, 42, 42, 233, 135, 135, 233, 155, 134, 231, 177, 187, 229, 158, 139, 42,
     42, 58, 32::nat]"

definition msg_created_target :: string where
  "msg_created_target = map char_of [10, 45, 32, 42, 42, 231, 155, 174, 230, 160, 135, 42, 42, 58, 32::nat]"

definition msg_created_duration :: string where
  "msg_created_duration = map char_of [41, 10, 45, 32, 42, 42, 230, 151, 182, 233, 149, 191, 42, 42, 58, 32::nat]"

definition msg_created_end :: string where
  "msg_created_end = map char_of [231, 167, 146, 10, 10, 228, 187, 187, 229, 138, 161, 230, 173, 163, 229, 156, 168,
     228, 184, 139, 229, 143, 145, 229, 136, 176, 65, 103, 101, 110, 116, 230, 137, 167, 232,
     161, 140, 239, 188, 140, 229, 174, 140, 230, 136, 144, 229, 144, 142, 230, 136, 145, 228,
     188, 154, 228, 184, 186, 230, 130, 168, 231, 148, 159, 230, 136, 144, 229, 136, 134, 230,
     158, 144, 230, 138, 165, 229, 145, 138, 227, 128, 130::nat]"

definition statusMsg :: "int \<Rightarrow> string" where
  "statusMsg st =
     map char_of (if st = 0 then [228, 187, 187, 229, 138, 161, 231, 173, 137, 229, 190, 133, 228, 184, 139, 229,
        143, 145, 228, 184, 173]
      else if st = 1 then [228, 187, 187, 229, 138, 161, 230, 173, 163, 229, 156, 168, 230, 137, 167, 232,
        161, 140, 233, 135, 135, 233, 155, 134]
      else if st = 2 then [228, 187, 187, 229, 138, 161, 230, 173, 163, 229, 156, 168, 228, 184, 138, 228,
        188, 160, 230, 149, 176, 230, 141, 174]
      else if st = 3 then [228, 187, 187, 229, 138, 161, 229, 183, 178, 229, 174, 140, 230, 136, 144, 239,
        188, 140, 229, 136, 134, 230, 158, 144, 232, 191, 155, 232, 161, 140,
        228, 184, 173]
      else if st = 4 then [228, 187, 187, 229, 138, 161, 230, 137, 167, 232, 161, 140, 229, 164, 177, 232,
        180, 165]
      else [228, 187, 187, 229, 138, 161, 231, 138, 182, 230, 128, 129, 230, 156, 170, 231, 159, 165::nat])"

definition statusHint :: "int \<Rightarrow> string" where
  "statusHint st =
     map char_of (if st = 0 then [232, 175, 183, 231, 168, 141, 231, 173, 137, 228, 187, 187, 229, 138, 161, 230,
        137, 167, 232, 161, 140, 229, 174, 140, 230, 136, 144, 227, 128, 130]
      else if st = 1 then [232, 175, 183, 231, 168, 141, 231, 173, 137, 233, 135, 135, 233, 155, 134, 229,
        174, 140, 230, 136, 144, 227, 128, 130]
      else if st = 2 then [230, 149, 176, 230, 141, 174, 228, 184, 138, 228, 188, 160, 228, 184, 173, 239,
        188, 140, 232, 175, 183, 231, 168, 141, 231, 173, 137, 227, 128, 130]
      else if st = 3 then [229, 136, 134, 230, 158, 144, 230, 173, 163, 229, 156, 168, 231, 148, 159, 230,
        136, 144, 228, 184, 173, 239, 188, 140, 232, 175, 183, 231, 168, 141,
        231, 173, 137, 231, 137, 135, 229, 136, 187, 227, 128, 130]
      else if st = 4 then [228, 187, 187, 229, 138, 161, 230, 137, 167, 232, 161, 140, 229, 164, 177, 232,
        180, 165, 239, 188, 140, 230, 130, 168, 229, 143, 175, 228, 187, 165,
        233, 135, 141, 232, 175, 149, 227, 128, 130]
      else ([]::nat list))"

end
