(* ===== verification/FloatFormat.thy ===== *)
theory FloatFormat
  imports Prelude Complex_Main
begin

text \<open>
  Printing a float without decimals, as the format \<^verbatim>\<open>%.0f\<close> of Go and the format
  \<^verbatim>\<open>.0%\<close> of Python do.
\<close>

text \<open>\<^verbatim>\<open>%.0f\<close>: the nearest whole number, and of two equally near ones the even one.\<close>

definition fmt_whole :: "real \<Rightarrow> string" where
  "fmt_whole x =
     (let y = \<bar>x\<bar>; n = nat \<lfloor>y\<rfloor>; f = y - real n;
          r = (if f < 1 / 2 \<or> (f = 1 / 2 \<and> even n) then n else Suc n)
      in (if x < 0 then ''-'' else []) @ show_nat r)"

text \<open>The printed number is at most a half away from the value.\<close>

lemma fmt_whole_near:
  assumes "0 \<le> x"
  shows "\<exists>n. fmt_whole x = show_nat n \<and> \<bar>real n - x\<bar> \<le> 1 / 2"
proof -
  define n where "n = nat \<lfloor>x\<rfloor>"
  have n: "real n \<le> x" "x < real n + 1" using assms by (simp_all add: n_def)
  let ?r = "if x - real n < 1 / 2 \<or> (x - real n = 1 / 2 \<and> even n) then n else Suc n"
  have "fmt_whole x = show_nat ?r" using assms by (simp add: fmt_whole_def Let_def n_def)
  moreover have "\<bar>real ?r - x\<bar> \<le> 1 / 2" using n by (simp add: abs_le_iff)
  ultimately show ?thesis by blast
qed

end
