(* ===== verification/NLChat.thy ===== *)
theory NLChat
  imports ApiServer NLParser NLTexts FloatFormat
begin

text \<open>
  The chat of the API server, \<^verbatim>\<open>src/apiserver/server/nl_handler.go\<close>: a message becomes a
  profiling task, or a question about a task.  Strings are the bytes of their UTF-8 text, as in Go.
  The run of the Python parser is an argument; \<open>parser_process\<close> is the run that
  \<^verbatim>\<open>nl_parser.py\<close> gives.  \<^verbatim>\<open>strings.ToLower\<close>, which uses the Unicode tables, and the
  reading of a stored JSON text are arguments too.
\<close>

section \<open>Values and strings of Go\<close>

text \<open>What an \<^verbatim>\<open>interface{}\<close> holds: the numbers of a JSON text are floats.\<close>

datatype go_value = Go_int int | Go_float real | Go_string string | Go_null | Go_object

type_synonym go_map = "string \<rightharpoonup> go_value"

text \<open>The type assertions \<^verbatim>\<open>v, _ := m[k].(float64)\<close> and \<^verbatim>\<open>.(string)\<close>.\<close>

definition as_float :: "go_map \<Rightarrow> string \<Rightarrow> real" where
  "as_float m k = (case m k of Some (Go_float x) \<Rightarrow> x | _ \<Rightarrow> 0)"

definition as_string :: "go_map \<Rightarrow> string \<Rightarrow> string" where
  "as_string m k = (case m k of Some (Go_string x) \<Rightarrow> x | _ \<Rightarrow> [])"

text \<open>The conversion to \<^verbatim>\<open>int\<close>, with the result of amd64 for a value that does not fit.\<close>

definition go_int :: "real \<Rightarrow> int" where
  "go_int x = (if \<bar>x\<bar> < 2 ^ 63 then (if 0 \<le> x then \<lfloor>x\<rfloor> else - \<lfloor>- x\<rfloor>) else - (2 ^ 63))"

fun go_Index :: "string \<Rightarrow> string \<Rightarrow> nat option" where
  "go_Index s sub =
     (if prefix sub s then Some 0 else case s of [] \<Rightarrow> None | _ # t \<Rightarrow> map_option Suc (go_Index t sub))"

declare go_Index.simps [simp del]

definition Atoi :: "string \<Rightarrow> int option" where
  "Atoi s =
     (let (neg, ds) = split_sign s; n = int (digits_val ds); v = (if neg then - n else n)
      in if ds = [] \<or> \<not> list_all is_digit ds \<or> v < - (2 ^ 63) \<or> 2 ^ 63 \<le> v then None else Some v)"

text \<open>\<^verbatim>\<open>strings.TrimLeft\<close> with a cutset of characters, each given by its bytes.\<close>

function TrimLeft :: "string list \<Rightarrow> string \<Rightarrow> string" where
  "TrimLeft cuts s =
     (case find (\<lambda>c. c \<noteq> [] \<and> prefix c s) cuts of
        None \<Rightarrow> s
      | Some c \<Rightarrow> TrimLeft cuts (drop (length c) s))"
  by pat_completeness auto
termination
  by (relation "measure (length \<circ> snd)") (auto simp: find_Some_iff prefix_def)

declare TrimLeft.simps [simp del]

definition truncate_to :: "string \<Rightarrow> nat \<Rightarrow> string" where
  "truncate_to s maxLen = (if length s \<le> maxLen then s else take maxLen s)"

section \<open>The intent of a message\<close>

definition has_any :: "string list \<Rightarrow> string \<Rightarrow> bool" where
  "has_any subs s = list_ex (\<lambda>sub. contains sub s) subs"

text \<open>The start of the digits that end before position \<open>n + 1\<close>, whose last character is not looked at.\<close>

fun digits_start :: "string \<Rightarrow> nat \<Rightarrow> nat" where
  "digits_start s 0 = 0"
| "digits_start s (Suc n) = (if is_digit (s ! n) then digits_start s n else Suc n)"

definition set_duration :: "string \<Rightarrow> string \<Rightarrow> go_map \<Rightarrow> go_map" where
  "set_duration s suf m =
     (case go_Index s suf of
        Some (Suc i) \<Rightarrow>
          let numStart = digits_start s i
          in (case Atoi (take (Suc i - numStart) (drop numStart s)) of
                Some dur \<Rightarrow> if dur > 0 then m(''duration'' \<mapsto> Go_int dur) else m
              | None \<Rightarrow> m)
      | _ \<Rightarrow> m)"

definition pid_cutset :: "string list" where
  "pid_cutset = map (map char_of) [[230, 152, 175], [228, 184, 186], [239, 188, 154], [58], [32::nat]]"

definition set_pid :: "string \<Rightarrow> string \<Rightarrow> go_map \<Rightarrow> go_map" where
  "set_pid s pre m =
     (case go_Index s pre of
        None \<Rightarrow> m
      | Some idx \<Rightarrow>
          let ds = takeWhile is_digit (TrimLeft pid_cutset (drop (idx + length pre) s))
          in if ds = [] then m
             else (case Atoi ds of Some pid \<Rightarrow> m(''pid'' \<mapsto> Go_int pid) | None \<Rightarrow> m))"

definition goNLFallback :: "(string \<Rightarrow> string) \<Rightarrow> string \<Rightarrow> go_map" where
  "goNLFallback ToLower s =
     (let m0 = [''pid'' \<mapsto> Go_int 0, ''profiler_type'' \<mapsto> Go_int 0, ''duration'' \<mapsto> Go_int 10,
                ''target_ip'' \<mapsto> Go_string ''127.0.0.1'', ''raw_text'' \<mapsto> Go_string s];
          lower = ToLower s;
          m1 = (if has_any [''ebpf'', ''off-cpu'', map char_of [233, 152, 187, 229, 161, 158::nat], ''io''] lower
                then m0(''profiler_type'' \<mapsto> Go_int 3)
                else if has_any [''java'', ''jvm''] lower then m0(''profiler_type'' \<mapsto> Go_int 1)
                else m0);
          m2 = fold (set_duration s) (map (map char_of) [[231, 167, 146], [231, 167, 146, 233, 146, 159::nat]]) m1
      in fold (set_pid s) [''PID'', ''pid'', map char_of [232, 191, 155, 231, 168, 139::nat]] m2)"

text \<open>
  The run of the parser on a text and the available agents, by address and host name: \<open>None\<close> when
  the process fails or its output is not a JSON object.
\<close>

type_synonym nl_run = "string \<Rightarrow> (string \<times> string) list \<Rightarrow> go_map option"

definition parseNLIntent :: "nl_run \<Rightarrow> (string \<Rightarrow> string) \<Rightarrow> string \<Rightarrow> (string \<times> string) list \<Rightarrow> go_map" where
  "parseNLIntent run ToLower s agents =
     (case run s agents of None \<Rightarrow> goNLFallback ToLower s | Some m \<Rightarrow> m)"

text \<open>
  The run of \<^verbatim>\<open>nl_parser.py\<close>: its arguments are decoded, and its result is encoded as JSON.
\<close>

definition json_of_intent :: "(ustr \<Rightarrow> string) \<Rightarrow> nl_intent \<Rightarrow> go_map" where
  "json_of_intent enc i =
     [''pid'' \<mapsto> Go_float (real (in_pid i)), ''profiler_type'' \<mapsto> Go_float (real (in_profiler_type i)),
      ''duration'' \<mapsto> Go_float (real (in_duration i)),
      ''target_ip'' \<mapsto> (case in_target_ip i of Some ip \<Rightarrow> Go_string (enc ip) | None \<Rightarrow> Go_null),
      ''time_range'' \<mapsto> (case in_time_range i of Some _ \<Rightarrow> Go_object | None \<Rightarrow> Go_null),
      ''raw_text'' \<mapsto> Go_string (enc (in_raw_text i))]"

definition parser_process :: "unicode \<Rightarrow> (string \<Rightarrow> ustr) \<Rightarrow> (ustr \<Rightarrow> string) \<Rightarrow> int \<Rightarrow> nl_run" where
  "parser_process uni dec enc now s agents =
     map_option (json_of_intent enc) (parse_intent uni now (dec s) (map (\<lambda>a. dec (fst a)) agents))"

definition gorm_find_agents :: "(agent_row \<Rightarrow> bool) \<Rightarrow> time \<Rightarrow> pg_db \<Rightarrow> pg_db \<times> agent_row list" where
  "gorm_find_agents wh now d = (d, filter wh (agent_info_tbl d))"

definition getAvailableAgents :: "pq_env \<Rightarrow> pgconn \<Rightarrow> (string \<times> string) list \<times> pgconn" where
  "getAvailableAgents env c =
     (let (rows, c1) = exec_stmt env (gorm_find_agents ag_online) c;
          result = (case rows of Some as \<Rightarrow> map (\<lambda>a. (ag_ip_addr a, ag_hostname a)) as | None \<Rightarrow> [])
      in (if result = [] then [(''127.0.0.1'', ''localhost'')] else result, c1))"

section \<open>Questions about a task\<close>

record suggestion_row =
  sug_tid :: string
  sug_func :: string
  sug_suggestion :: string
  sug_ai :: string
  sug_status :: int

text \<open>The text columns of \<^verbatim>\<open>analysis_suggestion\<close>, by the names the table has.\<close>

definition sug_column :: "string \<Rightarrow> (suggestion_row \<Rightarrow> string) option" where
  "sug_column col =
     (if col = ''t_id'' then Some sug_tid
      else if col = ''func'' then Some sug_func
      else if col = ''suggestion'' then Some sug_suggestion
      else if col = ''ai_suggestion'' then Some sug_ai
      else None)"

text \<open>
  \<^verbatim>\<open>Where("<col> = ?", v).Find(&rows)\<close> with its error ignored: a column the table does not have
  finds no rows.
\<close>

definition find_suggestions :: "string \<Rightarrow> string \<Rightarrow> suggestion_row list \<Rightarrow> suggestion_row list" where
  "find_suggestions col v rows =
     (case sug_column col of None \<Rightarrow> [] | Some field \<Rightarrow> filter (\<lambda>r. field r = v) rows)"

datatype nl_type = NL_text | NL_task_created | NL_task_summary

record nl_chat_resp =
  nr_type :: nl_type
  nr_content :: string
  nr_tid :: string

datatype nl_reply = NL_Error nat | NL_Resp nl_chat_resp

definition nlTextReply :: "string \<Rightarrow> nl_reply" where
  "nlTextReply s = NL_Resp \<lparr>nr_type = NL_text, nr_content = s, nr_tid = []\<rparr>"

abbreviation (input) newline :: string where "newline \<equiv> [CHR 0x0A]"

definition ai_field :: "go_map \<Rightarrow> string \<Rightarrow> string \<Rightarrow> string" where
  "ai_field m k title = (case m k of Some (Go_string x) \<Rightarrow> title @ x @ newline @ newline | _ \<Rightarrow> [])"

definition ai_answer :: "string \<Rightarrow> go_map \<Rightarrow> string" where
  "ai_answer tid m =
     msg_report @ tid @ '')'' @ newline @ newline
     @ ai_field m ''diagnosis'' msg_diagnosis @ ai_field m ''evidence'' msg_evidence
     @ ai_field m ''recommendation'' msg_recommendation
     @ (case m ''confidence'' of
          Some (Go_float x) \<Rightarrow> msg_confidence @ fmt_whole (x * 100) @ ''%'' @ newline
        | _ \<Rightarrow> [])"

definition rule_answer :: "string \<Rightarrow> suggestion_row list \<Rightarrow> string" where
  "rule_answer tid rules =
     msg_rules @ tid @ '')'' @ newline @ newline
     @ concat (map (\<lambda>(i, r). show_nat (i + 1) @ ''. **'' @ sug_func r @ ''**: '' @ sug_suggestion r @ newline)
         (enumerate 0 rules))"

text \<open>The diagnosis of the last row of the language model whose text is a JSON object.\<close>

definition ai_suggestion :: "(string \<Rightarrow> go_map option) \<Rightarrow> suggestion_row list \<Rightarrow> go_map option" where
  "ai_suggestion parse rows =
     fold (\<lambda>r a. if sug_status r = 1 \<and> sug_func r = ''__ai_summary__''
                 then (case parse (sug_ai r) of Some m \<Rightarrow> Some m | None \<Rightarrow> a) else a) rows None"

definition nlAnswerAboutTask ::
  "pq_env \<Rightarrow> (string \<Rightarrow> go_map option) \<Rightarrow> suggestion_row list \<Rightarrow> pgconn \<Rightarrow> string \<Rightarrow> nl_reply \<times> pgconn" where
  "nlAnswerAboutTask env parse sugs c tid =
     (case exec_stmt env (gorm_first (\<lambda>r. tk_tid r = tid)) c of
        (Some (task # _), c1) \<Rightarrow>
          let suggestions = find_suggestions ''tid'' tid sugs;
              ruleSugs = filter (\<lambda>r. sug_status r = 0) suggestions
          in (case ai_suggestion parse suggestions of
                Some m \<Rightarrow> NL_Resp \<lparr>nr_type = NL_task_summary, nr_content = ai_answer tid m, nr_tid = tid\<rparr>
              | None \<Rightarrow>
                  if ruleSugs \<noteq> []
                  then NL_Resp \<lparr>nr_type = NL_task_summary, nr_content = rule_answer tid ruleSugs, nr_tid = tid\<rparr>
                  else nlTextReply (msg_task @ tid @ msg_state @ statusMsg (tk_status task) @ msg_stop
                                    @ statusHint (tk_status task)), c1)
      | (_, c1) \<Rightarrow> (nlTextReply msg_no_task, c1))"

section \<open>The chat\<close>

record nl_chat_req =
  nq_message :: string
  nq_tid :: string

record nl_env =
  nl_parser :: nl_run
  nl_lower :: "string \<Rightarrow> string"
  nl_json :: "string \<Rightarrow> go_map option"

text \<open>
  The task of a message.  Its request parameters are a JSON text with four of the fields of
  \<^verbatim>\<open>CreateTaskReq\<close>; the row has the value that text encodes.
\<close>

definition nl_row :: "string \<Rightarrow> string \<Rightarrow> string \<Rightarrow> string \<Rightarrow> create_task_req \<Rightarrow> time \<Rightarrow> task_row" where
  "nl_row tid uid userName message req createTime =
     (pending_row tid uid userName req createTime)
       \<lparr>tk_name := ''NL: '' @ truncate_to message 100, tk_status_info := reason_nl,
        tk_request_params := \<lparr>rq_name = [], rq_type = 0, rq_profiler_type = 0, rq_target_ip = [],
          rq_pid = rq_pid req, rq_duration = rq_duration req, rq_hz = 99, rq_event = ''cpu''\<rparr>\<rparr>"

definition profiler_name :: "int \<Rightarrow> string" where
  "profiler_name t =
     (if t = 1 then ''Java-async-profiler'' else if t = 2 then ''Go-pprof''
      else if t = 3 then ''eBPF-offCPU'' else ''CPU-perf'')"

definition created_text :: "string \<Rightarrow> create_task_req \<Rightarrow> string" where
  "created_text tid req =
     msg_created @ tid @ msg_created_type @ profiler_name (rq_profiler_type req)
     @ msg_created_target @ rq_target_ip req @ '' (PID: '' @ show_int (rq_pid req)
     @ msg_created_duration @ show_int (rq_duration req) @ msg_created_end"

definition intent_req :: "go_map \<Rightarrow> create_task_req" where
  "intent_req intent =
     (let targetIP = as_string intent ''target_ip''; duration = as_float intent ''duration''
      in \<lparr>rq_name = [], rq_type = 0, rq_profiler_type = go_int (as_float intent ''profiler_type''),
          rq_target_ip = (if targetIP = [] then ''127.0.0.1'' else targetIP),
          rq_pid = go_int (as_float intent ''pid''),
          rq_duration = go_int (if duration = 0 then 10 else duration), rq_hz = 99, rq_event = []\<rparr>)"

text \<open>
  A message that is empty is already refused by the binding of the request, \<open>None\<close>.
\<close>

definition NLChat ::
  "pq_env \<Rightarrow> nl_env \<Rightarrow> suggestion_row list \<Rightarrow> bool \<Rightarrow> pgconn \<Rightarrow> string \<Rightarrow> string \<Rightarrow> nl_chat_req option \<Rightarrow>
   8 word list \<Rightarrow> time \<Rightarrow> nl_reply \<times> (string \<times> create_task_req) option \<times> pgconn" where
  "NLChat env nl sugs grpc c uid userName body randBytes createTime =
     (case body of
        None \<Rightarrow> (NL_Error 4000200, None, c)
      | Some q \<Rightarrow>
          if nq_message q = [] \<or> length (nq_message q) > 1000 then (NL_Error 4000202, None, c)
          else
            let (agents, c1) = getAvailableAgents env c;
                intent = parseNLIntent (nl_parser nl) (nl_lower nl) (nq_message q) agents
            in if nq_tid q \<noteq> []
               then (let (reply, c2) = nlAnswerAboutTask env (nl_json nl) sugs c1 (nq_tid q) in (reply, None, c2))
               else
                 let req = intent_req intent; tid = genTID randBytes;
                     (ok, c2) = insert_task env (nl_row tid uid userName (nq_message q) req createTime) c1
                 in if \<not> ok then (nlTextReply msg_create_failed, None, c2)
                    else (NL_Resp \<lparr>nr_type = NL_task_created, nr_content = created_text tid req, nr_tid = tid\<rparr>,
                          if grpc then Some (tid, req) else None, c2))"

definition NLChatFollowup ::
  "pq_env \<Rightarrow> nl_env \<Rightarrow> suggestion_row list \<Rightarrow> pgconn \<Rightarrow> string \<Rightarrow> nl_chat_req option \<Rightarrow> nl_reply \<times> pgconn" where
  "NLChatFollowup env nl sugs c tid body =
     (case body of
        None \<Rightarrow> (NL_Error 4000201, c)
      | Some q \<Rightarrow>
          if nq_message q = [] \<or> length (nq_message q) > 1000 then (NL_Error 4000202, c)
          else nlAnswerAboutTask env (nl_json nl) sugs c tid)"

section \<open>The event stream\<close>

datatype sse_event = Sse_status int string int | Sse_complete "suggestion_row list" | Sse_error string

text \<open>
  What a turn of the loop selects: the client has gone, or a tick, with the nanoseconds since the
  start and the task the query returns.
\<close>

datatype sse_input = Sse_gone | Sse_tick nat "task_row option"

text \<open>The events sent, and whether the handler has returned.\<close>

fun NLStreamSSE :: "suggestion_row list \<Rightarrow> string \<Rightarrow> sse_input list \<Rightarrow> sse_event list \<times> bool" where
  "NLStreamSSE sugs tid [] = ([], False)"
| "NLStreamSSE sugs tid (Sse_gone # _) = ([], True)"
| "NLStreamSSE sugs tid (Sse_tick elapsed row # rest) =
     (if elapsed > 300 * 10 ^ 9 then ([Sse_error ''timeout waiting for analysis''], True)
      else
        (case row of
           None \<Rightarrow> ([Sse_error ''task not found''], True)
         | Some task \<Rightarrow>
             let st = Sse_status (tk_status task) (tk_status_info task) (tk_analysis_status task)
             in if tk_analysis_status task = AnalysisStatusSuccess
                then ([st, Sse_complete (find_suggestions ''tid'' tid sugs)], True)
                else if tk_analysis_status task = AnalysisStatusFailed
                then ([st, Sse_error (''analysis failed: '' @ tk_status_info task)], True)
                else if tk_status task = kFailed
                then ([st, Sse_error (''task failed: '' @ tk_status_info task)], True)
                else (let (es, done) = NLStreamSSE sugs tid rest in (st # es, done))))"

end
