(* ===== verification/ApiProofs.thy ===== *)
theory ApiProofs
  imports HotmethodAnalyzer NLChat
begin

text \<open>
  Correctness of the API server's task operations.  Its status machine and its status update are
  those of \<^verbatim>\<open>drop_server\<close>: both programs perform the same checked transition on the shared
  tables.  Whatever its handlers do to the tables is a sequence of three kinds of write, which keep
  the invariant of the task tables.
\<close>

section \<open>The status update\<close>

lemma isTransitionAllowed_eq: "isTransitionAllowed = IsTransitionAllowed"
  by (intro ext) (simp add: isTransitionAllowed_def IsTransitionAllowed_def)

lemma status_columns_eq: "status_columns new reason now r = updated_row new reason now r"
  by (simp add: status_columns_def updated_row_def Let_def)

definition tids_distinct :: "pg_db \<Rightarrow> bool" where
  "tids_distinct d \<longleftrightarrow> distinct (map tk_tid (hotmethod_task_tbl d))"

text \<open>A task that gorm's queries see.\<close>

definition live :: "pg_db \<Rightarrow> string \<Rightarrow> bool" where
  "live d tid \<longleftrightarrow> (\<exists>r \<in> set (hotmethod_task_tbl d). tk_tid r = tid \<and> \<not> tk_deleted r)"

lemma live_update:
  assumes "tids_distinct d" and "live d tid"
  shows "fst (gorm_update (\<lambda>r. tk_tid r = tid) (status_columns new reason now) t d)
           = fst (sql_update_task tid new reason now d)"
proof -
  obtain r where r: "r \<in> set (hotmethod_task_tbl d)" "tk_tid r = tid" "\<not> tk_deleted r"
    using assms(2) by (auto simp: live_def)
  have "\<not> tk_deleted q" if "q \<in> set (hotmethod_task_tbl d)" "tk_tid q = tid" for q
    using that r assms(1) by (metis tids_distinct_def distinct_map inj_onD)
  then have "map (\<lambda>r. if \<not> tk_deleted r \<and> tk_tid r = tid then status_columns new reason now r else r) (hotmethod_task_tbl d)
     = map (\<lambda>r. if tk_tid r = tid then updated_row new reason now r else r) (hotmethod_task_tbl d)"
    by (auto simp: status_columns_eq)
  then show ?thesis
    by (simp add: gorm_update_def sql_update_task_def updated_row_def Let_def cong: map_cong if_cong)
qed

lemma first_live:
  assumes "tids_distinct d" and "snd (gorm_first (\<lambda>r. tk_tid r = tid) t d) = task # rest"
  shows "live d tid" and "status_of d tid = Some (tk_status task)"
proof -
  have "task \<in> set (snd (gorm_first (\<lambda>r. tk_tid r = tid) t d))" using assms(2) by simp
  then have task: "task \<in> set (hotmethod_task_tbl d)" "tk_tid task = tid" "\<not> tk_deleted task"
    by (auto simp: gorm_first_def dest!: in_set_takeD)
  then show "live d tid" by (auto simp: live_def)
  show "status_of d tid = Some (tk_status task)"
    using status_of_iff [of d tid] assms(1) task by (auto simp: tids_distinct_def)
qed

lemma gorm_transaction_settled:
  assumes "txn c = None"
    and "\<And>c1 t ok c2. txn c1 = Some (db c, t) \<Longrightarrow> db c1 = db c \<Longrightarrow> fn c1 = (ok, c2) \<Longrightarrow>
           txn c2 = Some (db c, t) \<and> (ok \<longrightarrow> db c2 = d')"
  shows "settled (db c) d' (snd (gorm_transaction env fn c))"
    and "fst (gorm_transaction env fn c) \<Longrightarrow> db (snd (gorm_transaction env fn c)) = d'"
proof -
  let ?t = "clock env (stmt_no c)"
  let ?c1 = "c\<lparr>stmt_no := Suc (stmt_no c), txn := Some (db c, ?t)\<rparr>"
  obtain ok c2 where fn: "fn ?c1 = (ok, c2)" by fastforce
  have c2: "txn c2 = Some (db c, ?t)" "ok \<Longrightarrow> db c2 = d'"
    using assms(2) [of ?c1 ?t ok c2] fn by simp_all
  have run: "gorm_transaction env fn c =
      (if outcome env (stmt_no c) = PQ_ok
       then if ok then pg_commit env c2 else (False, pg_rollback c2)
       else (False, c\<lparr>stmt_no := Suc (stmt_no c)\<rparr>))"
    by (simp add: gorm_transaction_def pg_begin_def Let_def fn)
  show "settled (db c) d' (snd (gorm_transaction env fn c))"
    using c2 assms(1) by (simp add: run settled_def pg_commit_def split: pq_outcome.split)
  show "db (snd (gorm_transaction env fn c)) = d'" if "fst (gorm_transaction env fn c)"
    using that c2 by (simp add: run pg_commit_def split: pq_outcome.splits if_splits)
qed

lemma gorm_transaction_ran:
  assumes "fst (gorm_transaction env fn c)"
  shows "\<exists>c1 t c2. txn c1 = Some (db c, t) \<and> db c1 = db c \<and> fn c1 = (True, c2)"
proof -
  let ?c1 = "c\<lparr>stmt_no := Suc (stmt_no c), txn := Some (db c, clock env (stmt_no c))\<rparr>"
  have "fst (fn ?c1)"
    using assms by (auto simp: gorm_transaction_def pg_begin_def Let_def split: prod.splits if_splits)
  then show ?thesis
    by (intro exI [of _ ?c1] exI [of _ "clock env (stmt_no c)"] exI [of _ "snd (fn ?c1)"])
      (simp add: prod_eq_iff)
qed

lemma updateTaskStatus_tx_done:
  assumes "tids_distinct d" and "txn c = Some (d, t)" and "db c = d"
    and "updateTaskStatus_tx env tid new reason now c = (ok, c')"
  shows "txn c' = Some (d, t)"
    and "ok \<Longrightarrow> live d tid \<and> (\<exists>old. status_of d tid = Some old \<and> IsTransitionAllowed old new)
           \<and> db c' = spec_update tid new reason now d"
proof -
  obtain r1 c1 where e1: "exec_stmt env (gorm_first (\<lambda>r. tk_tid r = tid)) c = (r1, c1)" by fastforce
  have c1: "txn c1 = Some (d, t)" "db c1 = d"
    using exec_stmt_frame(1) [OF e1] exec_stmt_reads [OF e1] assms(2,3) by (simp_all add: gorm_first_def)
  show "txn c' = Some (d, t)"
    using assms(4) c1 by (auto simp: updateTaskStatus_tx_def e1 dest!: exec_stmt_frame(1)
        split: option.splits list.splits prod.splits if_splits)
  assume ok
  then obtain task rest c2 c3 where
    r1: "r1 = Some (task # rest)" and al: "isTransitionAllowed (tk_status task) new"
    and e2: "exec_stmt env (gorm_update (\<lambda>r. tk_tid r = tid) (status_columns new reason now)) c1 = (Some c2, c3)"
    and e3: "exec_stmt env (\<lambda>_. sql_insert_history tid (tk_status task) new reason now) c3 = (Some (), c')"
    using assms(4) by (auto simp: updateTaskStatus_tx_def e1
        split: option.splits list.splits prod.splits if_splits)
  have "snd (gorm_first (\<lambda>r. tk_tid r = tid) (sql_now env c) d) = task # rest"
    using exec_stmt_frame(4) [OF e1 r1] assms(3) by simp
  note fl = first_live [OF assms(1) this]
  have "db c' = transition tid (tk_status task) new reason now d"
    using exec_stmt_frame(4) [OF e2 refl] exec_stmt_frame(4) [OF e3 refl] live_update [OF assms(1) fl(1)]
    by (simp add: c1 transition_def)
  then show "live d tid \<and> (\<exists>old. status_of d tid = Some old \<and> IsTransitionAllowed old new)
      \<and> db c' = spec_update tid new reason now d"
    using fl al by (simp add: spec_update_def isTransitionAllowed_eq)
qed

lemma updateTaskStatus_settled:
  assumes "tids_distinct (db c)" and "txn c = None"
  shows "settled (db c) (spec_update tid new (default_reason reason) now (db c))
           (snd (updateTaskStatus env c tid new reason now))"
    and "fst (updateTaskStatus env c tid new reason now) \<Longrightarrow>
         db (snd (updateTaskStatus env c tid new reason now)) = spec_update tid new (default_reason reason) now (db c)"
proof -
  let ?fn = "updateTaskStatus_tx env tid new (default_reason reason) now"
  have fn: "txn c2 = Some (db c, t) \<and> (ok \<longrightarrow> db c2 = spec_update tid new (default_reason reason) now (db c))"
    if "txn c1 = Some (db c, t)" "db c1 = db c" "?fn c1 = (ok, c2)" for c1 t ok c2
    using updateTaskStatus_tx_done [OF assms(1) that] by simp
  show "settled (db c) (spec_update tid new (default_reason reason) now (db c))
           (snd (updateTaskStatus env c tid new reason now))"
    unfolding updateTaskStatus_def by (rule gorm_transaction_settled(1) [OF assms(2) fn])
  show "db (snd (updateTaskStatus env c tid new reason now)) = spec_update tid new (default_reason reason) now (db c)"
    if "fst (updateTaskStatus env c tid new reason now)"
    using that unfolding updateTaskStatus_def by (rule gorm_transaction_settled(2) [OF assms(2) fn, rotated 3])
qed

lemma updateTaskStatus_true:
  assumes "tids_distinct (db c)" and "fst (updateTaskStatus env c tid new reason now)"
  shows "live (db c) tid" and "\<exists>old. status_of (db c) tid = Some old \<and> IsTransitionAllowed old new"
proof -
  let ?fn = "updateTaskStatus_tx env tid new (default_reason reason) now"
  obtain c1 t c2 where fn: "txn c1 = Some (db c, t)" "db c1 = db c" "?fn c1 = (True, c2)"
    using gorm_transaction_ran [OF assms(2) [unfolded updateTaskStatus_def]] by (elim exE conjE)
  show "live (db c) tid" "\<exists>old. status_of (db c) tid = Some old \<and> IsTransitionAllowed old new"
    using updateTaskStatus_tx_done(2) [OF assms(1) fn] by simp_all
qed

lemma updateTaskStatus_dead:
  assumes "tids_distinct (db c)" and "txn c = None" and "\<not> live (db c) tid"
  shows "db (snd (updateTaskStatus env c tid new reason now)) = db c"
proof -
  let ?fn = "updateTaskStatus_tx env tid new (default_reason reason) now"
  have fn: "txn c2 = Some (db c, t) \<and> (ok \<longrightarrow> db c2 = db c)"
    if "txn c1 = Some (db c, t)" "db c1 = db c" "?fn c1 = (ok, c2)" for c1 t ok c2
    using updateTaskStatus_tx_done [OF assms(1) that] assms(3) by auto
  have "settled (db c) (db c) (snd (updateTaskStatus env c tid new reason now))"
    unfolding updateTaskStatus_def by (rule gorm_transaction_settled(1) [OF assms(2) fn])
  then show ?thesis by (simp add: settled_def)
qed

lemma updateTaskStatus_ok:
  assumes "tids_distinct (db c)" and "txn c = None" and "all_ok env" and "live (db c) tid"
  shows "db (snd (updateTaskStatus env c tid new reason now)) = spec_update tid new (default_reason reason) now (db c)"
    and "fst (updateTaskStatus env c tid new reason now)
           \<longleftrightarrow> (\<exists>old. status_of (db c) tid = Some old \<and> IsTransitionAllowed old new)"
proof -
  have ok: "outcome env n = PQ_ok" for n using assms(3) by (simp add: all_ok_def)
  obtain task rest where first: "snd (gorm_first (\<lambda>r. tk_tid r = tid) t (db c)) = task # rest" for t
    using assms(4)
    by (cases "filter (\<lambda>r. \<not> tk_deleted r \<and> tk_tid r = tid) (hotmethod_task_tbl (db c))")
      (auto simp: gorm_first_def live_def filter_empty_conv)
  have same: "fst (gorm_first wh t d) = d" for wh t d by (simp add: gorm_first_def)
  note fl = first_live [OF assms(1) first]
  show 1: "db (snd (updateTaskStatus env c tid new reason now)) = spec_update tid new (default_reason reason) now (db c)"
    by (simp add: updateTaskStatus_def gorm_transaction_def pg_begin_def pg_commit_def pg_rollback_def
        updateTaskStatus_tx_def exec_stmt_ok [OF assms(3)] ok first same Let_def isTransitionAllowed_eq
        spec_update_def fl(2) transition_def live_update [OF assms(1,4)])
  show "fst (updateTaskStatus env c tid new reason now)
           \<longleftrightarrow> (\<exists>old. status_of (db c) tid = Some old \<and> IsTransitionAllowed old new)"
    by (simp add: updateTaskStatus_def gorm_transaction_def pg_begin_def pg_commit_def pg_rollback_def
        updateTaskStatus_tx_def exec_stmt_ok [OF assms(3)] ok first same Let_def isTransitionAllowed_eq fl(2))
qed

section \<open>What the API server writes\<close>

text \<open>
  Three kinds of write: a new pending task, with or without the row that logs its creation; a
  checked transition to FAILED or to PENDING; and a change of the columns that only the API server
  and the analysis use.
\<close>

definition same_status :: "task_row \<Rightarrow> task_row \<Rightarrow> bool" where
  "same_status r r' \<longleftrightarrow> tk_tid r' = tk_tid r \<and> tk_status r' = tk_status r
     \<and> tk_begin_time r' = tk_begin_time r \<and> tk_end_time r' = tk_end_time r"

inductive api_write :: "pg_db \<Rightarrow> pg_db \<Rightarrow> bool" where
  new_task:
    "tk_tid row \<notin> tk_tid ` set (hotmethod_task_tbl d) \<Longrightarrow> tk_status row = kPending \<Longrightarrow>
     api_write d (d\<lparr>hotmethod_task_tbl := hotmethod_task_tbl d @ [row]\<rparr>)"
| log_task:
    "r \<in> set (hotmethod_task_tbl d) \<Longrightarrow> tk_tid r = tid \<Longrightarrow> tk_status r = kPending \<Longrightarrow> log_of d tid = [] \<Longrightarrow>
     api_write d (fst (sql_insert_history tid (-1) kPending reason now d))"
| status: "new \<in> {kPending, kFailed} \<Longrightarrow> api_write d (spec_update tid new reason now d)"
| columns:
    "list_all2 same_status (hotmethod_task_tbl d) rows \<Longrightarrow> api_write d (d\<lparr>hotmethod_task_tbl := rows\<rparr>)"

definition api_writes :: "pg_db \<Rightarrow> pg_db \<Rightarrow> bool" where
  "api_writes = api_write\<^sup>*\<^sup>*"

lemma task_inv_distinct [intro]: "task_inv d \<Longrightarrow> tids_distinct d"
  by (simp add: task_inv_def tids_distinct_def)

lemma history_of_cong: "task_status_history_tbl d' = task_status_history_tbl d \<Longrightarrow> history_of d' = history_of d"
  by (intro ext) (simp add: history_of_def log_of_def)

lemma no_task_no_log:
  assumes "task_inv d" and "tid \<notin> tk_tid ` set (hotmethod_task_tbl d)"
  shows "log_of d tid = []" and "history_of d tid = []"
proof -
  show "log_of d tid = []"
    using assms by (auto simp: task_inv_def log_of_def filter_empty_conv)
  then show "history_of d tid = []" by (simp add: history_of_def)
qed

lemma task_inv_new_task:
  assumes "task_inv d" and "tk_tid row \<notin> tk_tid ` set (hotmethod_task_tbl d)" and "tk_status row = kPending"
  shows "task_inv (d\<lparr>hotmethod_task_tbl := hotmethod_task_tbl d @ [row]\<rparr>)"
proof -
  have h: "history_of (d\<lparr>hotmethod_task_tbl := hotmethod_task_tbl d @ [row]\<rparr>) = history_of d"
    by (rule history_of_cong) simp
  show ?thesis
    using assms no_task_no_log [OF assms(1,2)] unfolding task_inv_def h by (auto simp: row_times_def)
qed

lemma task_inv_log_task:
  assumes "task_inv d" and "r \<in> set (hotmethod_task_tbl d)" "tk_tid r = tid" "log_of d tid = []"
  shows "task_inv (fst (sql_insert_history tid (-1) kPending reason now d))" (is "task_inv ?d")
proof -
  have "log_of ?d t = (if t = tid then [\<lparr>hs_tid = tid, hs_old_status = -1, hs_new_status = kPending,
      hs_reason = reason, hs_timestamp = now\<rparr>] else log_of d t)" for t
    using assms(4) by (simp add: log_of_def sql_insert_history_def)
  then have h: "history_of ?d t = history_of d t" for t
    using assms(4) by (simp add: history_of_def is_creation_def)
  have tbl: "hotmethod_task_tbl ?d = hotmethod_task_tbl d"
    "hs_tid ` set (task_status_history_tbl ?d) = insert tid (hs_tid ` set (task_status_history_tbl d))"
    by (simp_all add: sql_insert_history_def)
  have "tid \<in> tk_tid ` set (hotmethod_task_tbl d)" using assms(2,3) by blast
  then show ?thesis using assms(1) unfolding task_inv_def h tbl by simp
qed

lemma list_all2_same_status:
  assumes "list_all2 same_status rows rows'"
  shows "map tk_tid rows' = map tk_tid rows" and "map tk_status rows' = map tk_status rows"
    and "\<And>r'. r' \<in> set rows' \<Longrightarrow> \<exists>r \<in> set rows. same_status r r'"
    and "map tk_status (filter (\<lambda>r. tk_tid r = tid) rows') = map tk_status (filter (\<lambda>r. tk_tid r = tid) rows)"
  using assms by (induction rule: list_all2_induct) (auto simp: same_status_def)

lemma task_inv_columns:
  assumes "task_inv d" and "list_all2 same_status (hotmethod_task_tbl d) rows"
  shows "task_inv (d\<lparr>hotmethod_task_tbl := rows\<rparr>)"
proof -
  have h: "history_of (d\<lparr>hotmethod_task_tbl := rows\<rparr>) = history_of d" by (rule history_of_cong) simp
  have rows: "replay kPending (history_of d (tk_tid r')) = Some (tk_status r') \<and> row_times r'" if r': "r' \<in> set rows" for r'
    using list_all2_same_status(3) [OF assms(2) r'] assms(1)
    by (auto simp: task_inv_def same_status_def row_times_def)
  have "tk_tid ` set rows = tk_tid ` set (hotmethod_task_tbl d)"
    using list_all2_same_status(1) [OF assms(2)] by (metis set_map)
  then show ?thesis
    using assms(1) rows list_all2_same_status(1) [OF assms(2)] unfolding task_inv_def h by simp
qed

lemma api_write_inv: "api_write d d' \<Longrightarrow> task_inv d \<Longrightarrow> task_inv d'"
  by (induction rule: api_write.induct)
    (simp_all add: task_inv_new_task task_inv_log_task task_inv_spec_update task_inv_columns)

lemma api_write_status:
  assumes "api_write d d'" and "status_of d' tid = Some s" and "s \<notin> {kPending, kFailed}"
  shows "status_of d tid = Some s"
  using assms
proof (induction rule: api_write.induct)
  case (new_task row d)
  then show ?case
    by (cases "filter (\<lambda>r. tk_tid r = tid) (hotmethod_task_tbl d)")
      (auto simp: status_of_def sql_select_status_def split: if_splits)
next
  case (status new d tid' reason now)
  then show ?case
    by (auto simp: status_of_spec_update split: if_splits option.splits)
qed (simp_all add: status_of_def sql_select_status_def sql_insert_history_def list_all2_same_status(4))

definition agent_tables :: "pg_db \<Rightarrow> agent_row list \<times> nat \<times> audit_row list" where
  "agent_tables d = (agent_info_tbl d, agent_id_seq d, agent_audit_log_tbl d)"

lemma agent_tables_spec_update [simp]: "agent_tables (spec_update tid new reason now d) = agent_tables d"
  by (simp add: agent_tables_def spec_update_def transition_def sql_insert_history_def sql_update_task_def
      split: option.splits)

lemma api_write_agents: "api_write d d' \<Longrightarrow> agent_tables d' = agent_tables d"
  by (induction rule: api_write.induct) (simp_all, simp_all add: agent_tables_def sql_insert_history_def)

section \<open>The operations only write that way\<close>

definition wrote :: "pgconn \<Rightarrow> pgconn \<Rightarrow> bool" where
  "wrote c c' \<longleftrightarrow> (txn c = None \<and> task_inv (db c) \<longrightarrow> txn c' = None \<and> api_writes (db c) (db c'))"

lemma api_writes_inv: "api_writes d d' \<Longrightarrow> task_inv d \<Longrightarrow> task_inv d'"
  unfolding api_writes_def by (induction rule: rtranclp_induct) (auto intro: api_write_inv)

lemma api_writes_status:
  "api_writes d d' \<Longrightarrow> status_of d' tid = Some s \<Longrightarrow> s \<notin> {kPending, kFailed} \<Longrightarrow> status_of d tid = Some s"
  unfolding api_writes_def
  by (induction rule: converse_rtranclp_induct) (auto dest: api_write_status)

lemma api_writes_agents: "api_writes d d' \<Longrightarrow> agent_tables d' = agent_tables d"
  unfolding api_writes_def by (induction rule: rtranclp_induct) (auto dest: api_write_agents)

lemma api_write_one: "api_write d d' \<Longrightarrow> api_writes d d'"
  by (simp add: api_writes_def)

lemma api_writes_refl [simp]: "api_writes d d"
  by (simp add: api_writes_def)

lemma wrote_refl [simp]: "wrote c c"
  by (simp add: wrote_def)

lemma wrote_trans [trans]: "wrote c1 c2 \<Longrightarrow> wrote c2 c3 \<Longrightarrow> wrote c1 c3"
  using api_writes_inv unfolding wrote_def api_writes_def by (auto intro: rtranclp_trans)

lemma wrote_exec:
  assumes "exec_stmt env f c = (x, c')" and "task_inv (db c) \<Longrightarrow> api_writes (db c) (fst (f (sql_now env c) (db c)))"
  shows "wrote c c'"
  using exec_stmt_frame(1,3) [OF assms(1)] assms(2) by (auto simp: wrote_def)

lemma wrote_read: "exec_stmt env f c = (x, c') \<Longrightarrow> (\<And>t d. fst (f t d) = d) \<Longrightarrow> wrote c c'"
  by (erule wrote_exec) simp

lemma wrote_first: "exec_stmt env (gorm_first wh) c = (x, c') \<Longrightarrow> wrote c c'"
  by (erule wrote_read) (simp add: gorm_first_def)

lemma columns_map:
  "(\<And>r. same_status r (f r)) \<Longrightarrow>
   api_writes d (d\<lparr>hotmethod_task_tbl := map (\<lambda>r. if wh r then f r else r) (hotmethod_task_tbl d)\<rparr>)"
  by (intro api_write_one columns)
    (auto simp: list.rel_map same_status_def intro!: list.rel_refl_strong)

lemma wrote_update:
  assumes "exec_stmt env (gorm_update wh f) c = (x, c')" and "\<And>r. same_status r (f r)"
  shows "wrote c c'"
  by (rule wrote_exec [OF assms(1)]) (simp add: gorm_update_def columns_map [OF assms(2)])

lemma same_status_sets [simp]:
  "same_status r (tk_cos_key_update f r)" "same_status r (tk_deleted_update g r)"
  "same_status r (analysis_columns st reason r)"
  by (simp_all add: same_status_def analysis_columns_def)

lemma wrote_updateTaskStatus:
  assumes "new \<in> {kPending, kFailed}"
  shows "wrote c (snd (updateTaskStatus env c tid new reason now))"
proof (unfold wrote_def, intro impI, elim conjE)
  assume c: "txn c = None" "task_inv (db c)"
  have "api_writes (db c) (spec_update tid new (default_reason reason) now (db c))"
    by (rule api_write_one [OF status [OF assms]])
  with updateTaskStatus_settled(1) [OF task_inv_distinct [OF c(2)] c(1), of tid new reason now env]
  show "txn (snd (updateTaskStatus env c tid new reason now)) = None
      \<and> api_writes (db c) (db (snd (updateTaskStatus env c tid new reason now)))"
    by (auto simp: settled_def)
qed

lemma wrote_dispatch_done: "wrote c (dispatch_done env c tid result now)"
  by (simp add: dispatch_done_def wrote_updateTaskStatus split: sum.split)

lemma wrote_insert_task:
  assumes "tk_status task = kPending" and "insert_task env task c = (ok, c')"
  shows "wrote c c'"
proof -
  let ?log = "sql_insert_history (tk_tid task) (-1) kPending (tk_status_info task) (tk_create_time task)"
  obtain x c1 where e1: "exec_stmt env (gorm_create_task task) c = (x, c1)" by fastforce
  obtain y c2 where e2: "exec_stmt env (\<lambda>_. ?log) c1 = (y, c2)" by fastforce
  have w1: "wrote c c1"
    using e1 by (rule wrote_exec) (auto simp: gorm_create_task_def assms(1) intro!: api_write_one new_task)
  have w2: "wrote c c2" if x: "x = Some True"
  proof (unfold wrote_def, intro impI, elim conjE)
    assume c: "txn c = None" "task_inv (db c)"
    have d1: "tk_tid task \<notin> tk_tid ` set (hotmethod_task_tbl (db c))"
      "db c1 = (db c)\<lparr>hotmethod_task_tbl := hotmethod_task_tbl (db c) @ [task]\<rparr>"
      using exec_stmt_frame(4) [OF e1 x] by (auto simp: gorm_create_task_def split: if_splits)
    have log: "log_of (db c1) (tk_tid task) = []"
      using no_task_no_log(1) [OF c(2) d1(1)] by (simp add: log_of_def d1(2))
    have "api_write (db c1) (fst (?log (db c1)))"
      by (rule log_task [of task]) (simp_all add: d1(2) assms(1) log [unfolded d1(2)])
    then have "wrote c1 c2" by (intro wrote_exec [OF e2]) (simp add: api_write_one)
    from wrote_trans [OF w1 this] show "txn c2 = None \<and> api_writes (db c) (db c2)"
      using c by (simp add: wrote_def)
  qed
  show ?thesis
    using assms(2) w1 w2 by (auto simp: insert_task_def e1 e2 split: option.splits bool.splits)
qed

lemma pending_row_sel [simp]:
  "tk_tid (pending_row tid uid nm req ct) = tid" "tk_status (pending_row tid uid nm req ct) = kPending"
  "tk_status_info (pending_row tid uid nm req ct) = reason_created"
  "tk_create_time (pending_row tid uid nm req ct) = ct" "\<not> tk_deleted (pending_row tid uid nm req ct)"
  "tk_request_params (pending_row tid uid nm req ct) = req"
  by (simp_all add: pending_row_def)

lemma wrote_CreateTask: "wrote c (snd (snd (APIServer_CreateTask env grpc c uid nm body rnd ct now)))"
proof (cases body)
  case (Some req)
  obtain ok c1 where e1: "insert_task env (pending_row (genTID rnd) uid nm req ct) c = (ok, c1)" by fastforce
  have w1: "wrote c c1" by (rule wrote_insert_task [OF _ e1]) simp
  show ?thesis
    using w1 wrote_trans [OF w1 wrote_updateTaskStatus [of kFailed c1 env "genTID rnd" reason_no_grpc now]]
    by (simp add: APIServer_CreateTask_def Some Let_def e1)
qed (simp add: APIServer_CreateTask_def)

lemma wrote_getAvailableAgents: "wrote c (snd (getAvailableAgents env c))"
proof -
  obtain x c1 where e: "exec_stmt env (gorm_find_agents ag_online) c = (x, c1)" by fastforce
  then have "wrote c c1" by (rule wrote_read) (simp add: gorm_find_agents_def)
  then show ?thesis by (simp add: getAvailableAgents_def e Let_def)
qed

lemma wrote_nlAnswerAboutTask: "wrote c (snd (nlAnswerAboutTask env parse sugs c tid))"
proof -
  obtain x c1 where e: "exec_stmt env (gorm_first (\<lambda>r. tk_tid r = tid)) c = (x, c1)" by fastforce
  from wrote_first [OF e] show ?thesis
    by (simp add: nlAnswerAboutTask_def e Let_def split: option.split list.split)
qed

lemma nl_row_sel [simp]:
  "tk_tid (nl_row tid uid nm msg req ct) = tid" "tk_status (nl_row tid uid nm msg req ct) = kPending"
  "\<not> tk_deleted (nl_row tid uid nm msg req ct)" "tk_uid (nl_row tid uid nm msg req ct) = uid"
  by (simp_all add: nl_row_def pending_row_def)

lemma wrote_NLChat: "wrote c (snd (snd (NLChat env nl sugs grpc c uid nm body rnd ct)))"
proof (cases body)
  case (Some q)
  obtain agents c1 where a: "getAvailableAgents env c = (agents, c1)" by fastforce
  let ?req = "intent_req (parseNLIntent (nl_parser nl) (nl_lower nl) (nq_message q) agents)"
  obtain ok c2 where i: "insert_task env (nl_row (genTID rnd) uid nm (nq_message q) ?req ct) c1 = (ok, c2)" by fastforce
  obtain r c3 where n: "nlAnswerAboutTask env (nl_json nl) sugs c1 (nq_tid q) = (r, c3)" by fastforce
  have w1: "wrote c c1" using wrote_getAvailableAgents [of c env] a by simp
  have "wrote c1 c2" by (rule wrote_insert_task [OF _ i]) simp
  moreover have "wrote c1 c3" using wrote_nlAnswerAboutTask [of c1 env "nl_json nl" sugs "nq_tid q"] n by simp
  ultimately show ?thesis
    using w1 wrote_trans [OF w1] by (simp add: NLChat_def Some a Let_def i n)
qed (simp add: NLChat_def)

lemma wrote_RetryTask: "wrote c (snd (snd (APIServer_RetryTask env grpc c uid tid now)))"
proof -
  obtain x c1 where
    e1: "exec_stmt env (gorm_first (\<lambda>r. tk_tid r = tid \<and> tk_uid r = uid \<and> tk_status r = kFailed)) c = (x, c1)"
    by fastforce
  note w1 = wrote_first [OF e1]
  have "wrote c (snd (updateTaskStatus env c1 tid kPending reason_retry now))"
    by (rule wrote_trans [OF w1 wrote_updateTaskStatus]) simp
  with w1 show ?thesis
    by (simp add: APIServer_RetryTask_def e1 split_beta Let_def split: option.split list.split)
qed

lemma wrote_UploadTaskFile: "wrote c (snd (snd (UploadTaskFile env sto c store tid filename file)))"
proof -
  obtain x c1 where e1: "exec_stmt env (gorm_first (\<lambda>r. tk_tid r = tid)) c = (x, c1)" by fastforce
  note w1 = wrote_first [OF e1]
  have w2: "wrote c (snd (exec_stmt env (gorm_update (\<lambda>r. tk_tid r = tid) (tk_cos_key_update (\<lambda>_. key))) c1))" for key
    by (rule wrote_trans [OF w1 wrote_update [OF surjective_pairing]]) simp
  show ?thesis
    using w1 w2 by (simp add: UploadTaskFile_def e1 Let_def split: option.split list.split)
qed

lemma wrote_DeleteTask: "wrote c (snd (snd (DeleteTask env sto members c store uid tid)))"
proof -
  obtain x c1 where e1: "exec_stmt env (gorm_update (\<lambda>r. tk_tid r = tid \<and> visible members uid r)
      (tk_deleted_update (\<lambda>_. True))) c = (x, c1)" by fastforce
  have "wrote c c1" by (rule wrote_update [OF e1]) simp
  then show ?thesis by (simp add: DeleteTask_def e1 Let_def)
qed

lemma wrote_updateAnalysisStatus: "wrote c (snd (updateAnalysisStatus env c tid st reason))"
proof -
  obtain x c1 where e1: "exec_stmt env (gorm_update (\<lambda>r. tk_tid r = tid) (analysis_columns st reason)) c = (x, c1)"
    by fastforce
  have "wrote c c1" by (rule wrote_update [OF e1]) simp
  then show ?thesis by (simp add: updateAnalysisStatus_def e1)
qed

section \<open>The analysis program\<close>

text \<open>What the scheduler relies on: the program it starts leaves the columns of the status machine alone.\<close>

locale analysis_program =
  fixes run :: analysis_run
  assumes run_writes: "task_inv d \<Longrightarrow> api_writes d (snd (run tid profiler_type d))"
begin

lemma wrote_spawnAnalysis: "wrote c (spawnAnalysis env run tid p c)"
proof -
  obtain ok c1 where u1: "updateAnalysisStatus env c tid AnalysisStatusRunning reason_analysis = (ok, c1)" by fastforce
  have w1: "wrote c c1" using wrote_updateAnalysisStatus [of c env tid AnalysisStatusRunning reason_analysis] u1 by simp
  obtain failure d where r: "run tid p (db c1) = (failure, d)" by fastforce
  have "wrote c1 (c1\<lparr>db := d\<rparr>)" using run_writes [of "db c1" tid p] r by (simp add: wrote_def)
  note w2 = wrote_trans [OF w1 this]
  show ?thesis
    using w1 w2 wrote_trans [OF w2 wrote_updateAnalysisStatus]
    by (simp add: spawnAnalysis_def u1 r Let_def split: option.split prod.split)
qed

lemma wrote_runAnalysisTick: "wrote c (runAnalysisTick env run c)"
proof -
  have each: "wrote c' (fold (\<lambda>t c'. if tk_cos_key t = [] then c'
      else spawnAnalysis env run (tk_tid t) (tk_profiler_type t) c') ts c')" for ts :: "task_row list" and c'
    by (induction ts arbitrary: c') (auto intro: wrote_trans wrote_spawnAnalysis)
  obtain x c1 where
    e1: "exec_stmt env (gorm_find (\<lambda>r. tk_status r = kDone \<and> tk_analysis_status r = AnalysisStatusPending)) c = (x, c1)"
    by fastforce
  have w1: "wrote c c1" using e1 by (rule wrote_read) (simp add: gorm_find_def)
  show ?thesis
    using w1 wrote_trans [OF w1 each] by (simp add: runAnalysisTick_def e1 split: option.split)
qed

end

lemma wrote_py_update:
  "exec_stmt env (py_update_analysis_status tid st reason) c = (x, c') \<Longrightarrow> wrote c c'"
  by (erule wrote_exec) (simp add: py_update_analysis_status_def columns_map)

lemma wrote_analysis_body: "wrote c (snd (analysis_body env tid c))"
proof -
  obtain x c1 where e1: "exec_stmt (an_pg env) (py_get_task_info tid) c = (x, c1)" by fastforce
  obtain y c2 where
    e2: "exec_stmt (an_pg env) (py_update_analysis_status tid AnalysisStatusSuccess reason_analyzed) c1 = (y, c2)"
    by fastforce
  have w1: "wrote c c1" using e1 by (rule wrote_read) (simp add: py_get_task_info_def)
  show ?thesis
    using w1 wrote_trans [OF w1 wrote_py_update [OF e2]]
    by (simp add: analysis_body_def e1 e2 Let_def split: option.split list.split sum.split)
qed

lemma wrote_analysis_main: "wrote c (snd (analysis_main env tid c))"
proof -
  obtain x c1 where
    e1: "exec_stmt (an_pg env) (py_update_analysis_status tid AnalysisStatusRunning reason_analysis) c = (x, c1)"
    by fastforce
  obtain r c2 where b: "analysis_body env tid c1 = (r, c2)" by fastforce
  note w1 = wrote_py_update [OF e1]
  have w2: "wrote c c2" using wrote_trans [OF w1 wrote_analysis_body [of c1 env tid]] b by simp
  have w3: "wrote c (snd (exec_stmt (an_pg env) (py_update_analysis_status tid st m) c2))" for st m
    by (rule wrote_trans [OF w2 wrote_py_update [OF surjective_pairing]])
  show ?thesis
    using w1 w2 w3 by (simp add: analysis_main_def e1 b split: option.split sum.split)
qed

interpretation hotmethod: analysis_program "analysis_process env errors" for env errors
proof unfold_locales
  fix d tid p assume "task_inv d"
  then show "api_writes d (snd (analysis_process env errors tid p d))"
    using wrote_analysis_main [of "\<lparr>db = d, txn = None, stmt_no = 0\<rparr>" env tid]
    by (simp add: analysis_process_def wrote_def split_beta)
qed

section \<open>Calls of the API server\<close>

text \<open>
  One call, with everything its environment decides, as a function on the shared tables.  The call of
  \<^verbatim>\<open>dispatchTask\<close> that a handler starts is a call of its own, made when the answer of
  \<^verbatim>\<open>drop_server\<close> is there.
\<close>

datatype api_call =
    Api_CreateTask pq_env bool string string "create_task_req option" "8 word list" time time
  | Api_RetryTask pq_env bool string string time
  | Api_Dispatched pq_env string "string + create_task_response" time
  | Api_UploadTaskFile pq_env storage_env "objects option" string string "string option"
  | Api_DeleteTask pq_env storage_env "(nat \<times> string) list" "objects option" string string
  | Api_AnalysisTick pq_env analysis_env "string \<times> string"
  | Api_NLChat pq_env nl_env "suggestion_row list" bool string string "nl_chat_req option" "8 word list" time

fun api_run :: "api_call \<Rightarrow> pgconn \<Rightarrow> pgconn" where
  "api_run (Api_CreateTask env grpc uid nm body rnd ct now) c =
     snd (snd (APIServer_CreateTask env grpc c uid nm body rnd ct now))"
| "api_run (Api_RetryTask env grpc uid tid now) c = snd (snd (APIServer_RetryTask env grpc c uid tid now))"
| "api_run (Api_Dispatched env tid result now) c = dispatch_done env c tid result now"
| "api_run (Api_UploadTaskFile env sto store tid filename file) c =
     snd (snd (UploadTaskFile env sto c store tid filename file))"
| "api_run (Api_DeleteTask env sto members store uid tid) c =
     snd (snd (DeleteTask env sto members c store uid tid))"
| "api_run (Api_AnalysisTick env an errors) c = runAnalysisTick env (analysis_process an errors) c"
| "api_run (Api_NLChat env nl sugs grpc uid nm body rnd ct) c =
     snd (snd (NLChat env nl sugs grpc c uid nm body rnd ct))"

definition api_effect :: "api_call \<Rightarrow> pg_db \<Rightarrow> pg_db" where
  "api_effect call d = db (api_run call \<lparr>db = d, txn = None, stmt_no = 0\<rparr>)"

lemma api_run_wrote: "wrote c (api_run call c)"
  by (cases call)
    (simp_all add: wrote_CreateTask wrote_RetryTask wrote_dispatch_done wrote_UploadTaskFile
      wrote_DeleteTask hotmethod.wrote_runAnalysisTick wrote_NLChat)

lemma api_effect_writes: "task_inv d \<Longrightarrow> api_writes d (api_effect call d)"
  using api_run_wrote [of "\<lparr>db = d, txn = None, stmt_no = 0\<rparr>" call] by (simp add: wrote_def api_effect_def)

lemma api_effect_inv: "task_inv d \<Longrightarrow> task_inv (api_effect call d)"
  using api_effect_writes api_writes_inv by blast

lemma api_effect_status:
  "task_inv d \<Longrightarrow> status_of (api_effect call d) tid = Some s \<Longrightarrow> s \<notin> {kPending, kFailed} \<Longrightarrow> status_of d tid = Some s"
  by (rule api_writes_status [OF api_effect_writes])

lemma api_effect_agents: "task_inv d \<Longrightarrow> agent_tables (api_effect call d) = agent_tables d"
  by (rule api_writes_agents [OF api_effect_writes])

text \<open>A sample: the first task of an empty database.\<close>

definition sample_req :: create_task_req where
  "sample_req = \<lparr>rq_name = ''demo'', rq_type = 0, rq_profiler_type = 3, rq_target_ip = ''10.0.0.1'',
     rq_pid = 42, rq_duration = 5, rq_hz = 99, rq_event = []\<rparr>"

definition sample_bytes :: "8 word list" where
  "sample_bytes = [19, 0, 18, 10, 26, 26, 26, 26, 26, 26, 26, 27]"

definition sample_env :: pq_env where
  "sample_env = \<lparr>outcome = (\<lambda>_. PQ_ok), clock = (\<lambda>n. int n * 1000000)\<rparr>"

lemma sample_env_ok: "all_ok sample_env" "mono (clock sample_env)"
  by (simp_all add: all_ok_def sample_env_def mono_def)

definition sample_create_call :: api_call where
  "sample_create_call = Api_CreateTask sample_env True ''u'' ''user'' (Some sample_req) sample_bytes 0 0"

lemma sample_tid: "genTID sample_bytes = ''task00000001''"
  by code_simp

lemma sample_created:
  "api_effect sample_create_call empty_db =
     empty_db\<lparr>hotmethod_task_tbl := [pending_row ''task00000001'' ''u'' ''user'' sample_req 0],
       task_status_history_tbl := [\<lparr>hs_tid = ''task00000001'', hs_old_status = -1, hs_new_status = kPending,
         hs_reason = reason_created, hs_timestamp = 0\<rparr>]\<rparr>"
  by (simp add: api_effect_def sample_create_call_def APIServer_CreateTask_def insert_task_def sample_tid Let_def
      exec_stmt_ok [OF sample_env_ok(1)] gorm_create_task_def sql_insert_history_def empty_db_def pending_row_def)

text \<open>
  A retry makes a failed task PENDING again.  Without a connection to \<^verbatim>\<open>drop_server\<close> it still
  answers with success, and nothing will dispatch the task.
\<close>

lemma retry_effect:
  assumes inv: "task_inv (db c)" and notx: "txn c = None" and ok: "all_ok env"
    and r: "r \<in> set (hotmethod_task_tbl (db c))" "tk_tid r = tid" "tk_uid r = uid" "tk_status r = kFailed" "\<not> tk_deleted r"
    and run: "APIServer_RetryTask env grpc c uid tid now = (reply, dispatch, c')"
  shows "reply = Api_Ok tid \<and> dispatch = (if grpc then Some (tid, tk_request_params r) else None)
    \<and> status_of (db c') tid = Some kPending"
proof -
  let ?wh = "\<lambda>r. tk_tid r = tid \<and> tk_uid r = uid \<and> tk_status r = kFailed"
  have dist: "tids_distinct (db c)" using inv by blast
  have "set (filter (\<lambda>r. \<not> tk_deleted r \<and> ?wh r) (hotmethod_task_tbl (db c))) \<subseteq> {r}"
    using r dist by (auto simp: tids_distinct_def distinct_map inj_on_def)
  moreover have "r \<in> set (filter (\<lambda>r. \<not> tk_deleted r \<and> ?wh r) (hotmethod_task_tbl (db c)))" using r by simp
  ultimately obtain rest where first: "snd (gorm_first ?wh t (db c)) = r # rest" for t
    by (cases "filter (\<lambda>r. \<not> tk_deleted r \<and> ?wh r) (hotmethod_task_tbl (db c))") (auto simp: gorm_first_def)
  let ?c1 = "c\<lparr>stmt_no := Suc (stmt_no c)\<rparr>"
  have e1: "exec_stmt env (gorm_first ?wh) c = (Some (r # rest), ?c1)"
    by (simp add: exec_stmt_ok [OF ok] first) (simp add: gorm_first_def)
  have st: "status_of (db c) tid = Some kFailed"
    using r(1,2,4) status_of_iff [of "db c" tid] dist by (auto simp: tids_distinct_def)
  have live: "live (db c) tid" using r by (auto simp: live_def)
  obtain u c2 where u: "updateTaskStatus env ?c1 tid kPending reason_retry now = (u, c2)" by fastforce
  have "u" "db c2 = spec_update tid kPending (default_reason reason_retry) now (db c)"
    using updateTaskStatus_ok [of ?c1 env tid kPending reason_retry now] dist notx ok live u st
    by (simp_all add: IsTransitionAllowed_def)
  then show ?thesis
    using run u st by (auto simp: APIServer_RetryTask_def e1 status_of_spec_update IsTransitionAllowed_def)
qed

section \<open>Properties\<close>

text \<open>
  C11. The two programs that write task statuses agree.  The status machine of the API server is that
  of drop_server.  Its status update of a task that is not deleted leaves no transaction open and,
  whatever the database does, either changes nothing or performs one allowed transition with its
  history row; it reports success only for the latter.  When the database answers and both programs
  read the same time, it leaves exactly the tables that PGStore::UpdateTaskStatus leaves.
\<close>

theorem api_update_equivalent:
  assumes "task_inv (db c)" and "txn c = None" and "live (db c) tid"
  shows "isTransitionAllowed = IsTransitionAllowed
    \<and> txn (snd (updateTaskStatus env c tid new reason now)) = None
    \<and> (db (snd (updateTaskStatus env c tid new reason now)) = db c
       \<or> (\<exists>old. status_of (db c) tid = Some old \<and> IsTransitionAllowed old new
            \<and> db (snd (updateTaskStatus env c tid new reason now))
              = transition tid old new (default_reason reason) now (db c)))
    \<and> (fst (updateTaskStatus env c tid new reason now) \<longrightarrow>
         status_of (db (snd (updateTaskStatus env c tid new reason now))) tid = Some new)
    \<and> (all_ok env \<and> all_ok env' \<and> now = clock env' (stmt_no c) \<and> reason \<noteq> [] \<longrightarrow>
         db (snd (updateTaskStatus env c tid new reason now)) = db (UpdateTaskStatus_conn env' c tid new reason))"
proof -
  have dist: "tids_distinct (db c)" using assms(1) by blast
  note st = updateTaskStatus_settled [OF dist assms(2), where tid = tid and new = new and reason = reason and now = now and env = env]
  have "status_of (db (snd (updateTaskStatus env c tid new reason now))) tid = Some new"
    if ok: "fst (updateTaskStatus env c tid new reason now)"
    using updateTaskStatus_true(2) [OF dist ok] st(2) [OF ok] by (auto simp: status_of_spec_update)
  moreover have "db (snd (updateTaskStatus env c tid new reason now)) = db c
       \<or> (\<exists>old. status_of (db c) tid = Some old \<and> IsTransitionAllowed old new
            \<and> db (snd (updateTaskStatus env c tid new reason now))
              = transition tid old new (default_reason reason) now (db c))"
    using st(1) by (auto simp: settled_def spec_update_def split: option.splits if_splits)
  ultimately show ?thesis
    using st(1) updateTaskStatus_ok(1) [OF dist assms(2) _ assms(3)] UpdateTaskStatus_ok [OF assms(2)]
    by (simp add: isTransitionAllowed_eq settled_def default_reason_def)
qed

definition sample_conn :: pgconn where
  "sample_conn = fresh_conn\<lparr>db := api_effect sample_create_call empty_db\<rparr>"

lemma sample_conn_sel:
  "txn sample_conn = None" "stmt_no sample_conn = 0" "task_inv (db sample_conn)"
  "live (db sample_conn) ''task00000001''" "status_of (db sample_conn) ''task00000001'' = Some kPending"
proof -
  have "task_inv empty_db" by (simp add: task_inv_def empty_db_def)
  then show "task_inv (db sample_conn)" by (simp add: sample_conn_def api_effect_inv)
qed (simp_all add: sample_conn_def fresh_conn_def live_def sample_created pending_row_def status_of_def sql_select_status_def)

theorem api_update_equivalent_witness:
  "db (snd (updateTaskStatus sample_env sample_conn ''task00000001'' kFailed ''rejected'' 0))
     = db (UpdateTaskStatus_conn sample_env sample_conn ''task00000001'' kFailed ''rejected'')
   \<and> status_of (db (snd (updateTaskStatus sample_env sample_conn ''task00000001'' kFailed ''rejected'' 0)))
       ''task00000001'' = Some kFailed"
proof -
  have "fst (updateTaskStatus sample_env sample_conn ''task00000001'' kFailed ''rejected'' 0)"
    using updateTaskStatus_ok(2) [OF task_inv_distinct [OF sample_conn_sel(3)] sample_conn_sel(1) sample_env_ok(1) sample_conn_sel(4),
        of kFailed "''rejected''" 0]
    by (simp add: sample_conn_sel(5) IsTransitionAllowed_def)
  then show ?thesis
    using api_update_equivalent [OF sample_conn_sel(3,1,4), of sample_env kFailed "''rejected''" 0 sample_env] sample_env_ok
    by (simp add: sample_conn_sel(2)) (simp add: sample_env_def)
qed

lemma insert_task_ok:
  assumes inv: "task_inv (db c)" and notx: "txn c = None" and ok: "all_ok env"
    and new: "tk_tid task \<notin> tk_tid ` set (hotmethod_task_tbl (db c))"
    and task: "tk_status task = kPending" "\<not> tk_deleted task"
  shows "\<exists>c'. insert_task env task c = (True, c') \<and> txn c' = None \<and> task_inv (db c') \<and> live (db c') (tk_tid task)
    \<and> hotmethod_task_tbl (db c') = hotmethod_task_tbl (db c) @ [task]
    \<and> (\<forall>t. status_of (db c') t = (if t = tk_tid task then Some kPending else status_of (db c) t))
    \<and> map hs_new_status (log_of (db c') (tk_tid task)) = [kPending]"
proof -
  let ?d1 = "(db c)\<lparr>hotmethod_task_tbl := hotmethod_task_tbl (db c) @ [task]\<rparr>"
  let ?d2 = "fst (sql_insert_history (tk_tid task) (-1) kPending (tk_status_info task) (tk_create_time task) ?d1)"
  define c2 where "c2 = c\<lparr>stmt_no := Suc (Suc (stmt_no c)), db := ?d2\<rparr>"
  have run: "insert_task env task c = (True, c2)"
    using new by (simp add: insert_task_def exec_stmt_ok [OF ok] gorm_create_task_def c2_def)
  have "wrote c c2" using wrote_insert_task [OF task(1) run] .
  then have "txn c2 = None" "task_inv (db c2)"
    using inv notx by (auto simp: wrote_def intro: api_writes_inv)
  moreover have "status_of (db c) (tk_tid task) = None"
    using new by (simp add: status_of_def sql_select_status_def split: list.split)
      (auto simp: filter_empty_conv dest!: filter_eq_ConsD)
  then have "status_of ?d2 t = (if t = tk_tid task then Some kPending else status_of (db c) t)" for t
    using task(1) by (cases "filter (\<lambda>r. tk_tid r = t) (hotmethod_task_tbl (db c))")
      (auto simp: status_of_def sql_select_status_def sql_insert_history_def)
  moreover have "map hs_new_status (log_of ?d2 (tk_tid task)) = [kPending]"
    using no_task_no_log(1) [OF inv new] by (simp add: log_of_def sql_insert_history_def)
  ultimately show ?thesis
    using run task(2) by (intro exI [of _ c2]) (simp add: c2_def live_def sql_insert_history_def)
qed

lemma fail_pending:
  assumes inv: "task_inv (db c)" and notx: "txn c = None" and ok: "all_ok env" and "live (db c) tid"
    and "status_of (db c) tid = Some kPending" and "reason \<noteq> []"
  shows "db (snd (updateTaskStatus env c tid kFailed reason now)) = transition tid kPending kFailed reason now (db c)"
    and "task_inv (db (snd (updateTaskStatus env c tid kFailed reason now)))"
proof -
  show "db (snd (updateTaskStatus env c tid kFailed reason now)) = transition tid kPending kFailed reason now (db c)"
    using updateTaskStatus_ok(1) [OF task_inv_distinct [OF inv] notx ok assms(4), of kFailed reason now] assms(5,6)
    by (simp add: default_reason_def spec_update_def IsTransitionAllowed_def)
  show "task_inv (db (snd (updateTaskStatus env c tid kFailed reason now)))"
    using wrote_updateTaskStatus [of kFailed c env tid reason now] inv notx
    by (auto simp: wrote_def intro: api_writes_inv)
qed

lemma genTID_safe:
  "length (genTID rnd) = length rnd" "set (genTID rnd) \<subseteq> set charset"
proof -
  have "charset ! (unat b mod length charset) \<in> set charset" for b :: "8 word"
    by (rule nth_mem) (simp add: charset_def)
  then show "set (genTID rnd) \<subseteq> set charset" by (auto simp: genTID_def)
qed (simp add: genTID_def)

text \<open>
  C22. Creating a task.  When the database answers and the random identifier is new, the request
  succeeds with that identifier, which has only lower case letters and digits.  The task is stored
  and its creation logged; with a connection to drop_server it is PENDING and its dispatch is
  started with the same request, and without one it is FAILED through a logged transition.  No other
  task changes its status, and the history invariant of the tables is kept.
\<close>

theorem create_task_effect:
  assumes inv: "task_inv (db c)" and notx: "txn c = None" and ok: "all_ok env"
    and new: "genTID rnd \<notin> tk_tid ` set (hotmethod_task_tbl (db c))"
    and run: "APIServer_CreateTask env grpc c uid nm (Some req) rnd ct now = (reply, dispatch, c')"
  shows "reply = Api_Ok (genTID rnd) \<and> set (genTID rnd) \<subseteq> set charset \<and> task_inv (db c')
    \<and> dispatch = (if grpc then Some (genTID rnd, req) else None)
    \<and> status_of (db c') (genTID rnd) = Some (if grpc then kPending else kFailed)
    \<and> map hs_new_status (log_of (db c') (genTID rnd)) = (if grpc then [kPending] else [kPending, kFailed])
    \<and> (\<forall>tid. tid = genTID rnd \<or> status_of (db c') tid = status_of (db c) tid)"
proof -
  let ?tid = "genTID rnd"
  obtain c1 where e1: "insert_task env (pending_row ?tid uid nm req ct) c = (True, c1)"
    and c1: "txn c1 = None" "task_inv (db c1)" "live (db c1) ?tid"
      "\<And>t. status_of (db c1) t = (if t = ?tid then Some kPending else status_of (db c) t)"
      "map hs_new_status (log_of (db c1) ?tid) = [kPending]"
    using insert_task_ok [of c env "pending_row ?tid uid nm req ct"] inv notx ok new by auto
  show ?thesis
  proof (cases grpc)
    case True
    then show ?thesis using run e1 c1 genTID_safe(2) by (auto simp: APIServer_CreateTask_def Let_def)
  next
    case False
    then have "c' = snd (updateTaskStatus env c1 ?tid kFailed reason_no_grpc now)"
      using run e1 by (auto simp: APIServer_CreateTask_def Let_def)
    then have eff: "db c' = transition ?tid kPending kFailed reason_no_grpc now (db c1)" "task_inv (db c')"
      using fail_pending [of c1 env ?tid reason_no_grpc now] c1 ok by (simp_all add: reason_no_grpc_def)
    then show ?thesis
      using run False e1 c1 genTID_safe(2)
      by (auto simp: APIServer_CreateTask_def Let_def status_of_transition log_of_transition)
  qed
qed

theorem create_task_effect_witness:
  "set (genTID sample_bytes) \<subseteq> set charset
   \<and> status_of (db (snd (snd (APIServer_CreateTask sample_env False fresh_conn ''u'' ''user'' (Some sample_req) sample_bytes 0 0))))
       (genTID sample_bytes) = Some kFailed"
proof -
  have "task_inv (db fresh_conn)" "txn fresh_conn = None"
    "genTID sample_bytes \<notin> tk_tid ` set (hotmethod_task_tbl (db fresh_conn))"
    by (simp_all add: task_inv_def fresh_conn_def empty_db_def)
  from create_task_effect [OF this(1,2) sample_env_ok(1) this(3), of False "''u''" "''user''" sample_req 0 0]
  show ?thesis by (metis prod.collapse)
qed

end
