(* ===== verification/PGStoreProofs.thy ===== *)
theory PGStoreProofs
  imports ApiProofs
begin

text \<open>
  Correctness of \<^verbatim>\<open>PGStore\<close>: \<^verbatim>\<open>UpdateTaskStatus\<close> is atomic under every
  failure of the database, the status history replays to the current status in every reachable
  database, and the agent audit log replays to the online flags.
\<close>

section \<open>Frames of the agent operations\<close>

lemma sql_keeps_tasks:
  "task_tables (fst (sql_select_agent ip t d)) = task_tables d"
  "task_tables (fst (sql_upsert_agent hostname ip uid version t d)) = task_tables d"
  "task_tables (fst (sql_audit i event_type reason t d)) = task_tables d"
  "task_tables (fst (sql_select_stale timeout t d)) = task_tables d"
  "task_tables (fst (sql_select_recovered timeout t d)) = task_tables d"
  "task_tables (fst (sql_set_online b i t d)) = task_tables d"
  by (simp_all add: task_tables_def sql_defs Let_def)

lemmas exec_keeps_tasks = sql_keeps_tasks [THEN exec_stmt_keeps [where g = task_tables]]

lemma UpsertAgent_eq:
  "UpsertAgent_conn env c ip hostname uid version =
     (let e1 = exec_stmt env (sql_select_agent ip) c;
          c2 = snd (exec_stmt env (sql_upsert_agent hostname ip uid version) (snd e1))
      in case fst e1 of
           Some ((i, onl) # _) \<Rightarrow>
             if \<not> onl then snd (exec_stmt env (sql_audit i ''online'' ''heartbeat recovered'') c2) else c2
         | _ \<Rightarrow> c2)"
  by (simp add: UpsertAgent_conn_def Let_def split: prod.splits option.splits list.splits)

lemma UpsertAgent_keeps:
  "task_tables (db (UpsertAgent_conn env c ip hostname uid version)) = task_tables (db c)"
  "txn (UpsertAgent_conn env c ip hostname uid version) = txn c"
  by (simp_all add: UpsertAgent_eq exec_keeps_tasks Let_def split: option.splits list.splits prod.splits)

lemma mark_agents_keeps:
  "task_tables (db (mark_agents env b event_type reason is c)) = task_tables (db c)"
  "txn (mark_agents env b event_type reason is c) = txn c"
  by (induction "is" arbitrary: c) (simp_all add: exec_keeps_tasks Let_def split_beta)

lemma ScanAgentHeartbeats_eq:
  "ScanAgentHeartbeats_conn env c timeout =
     (let e1 = exec_stmt env (sql_select_stale timeout) c
      in case fst e1 of
           None \<Rightarrow> (0, snd e1)
         | Some stale \<Rightarrow>
             (let e2 = exec_stmt env (sql_select_recovered timeout)
                         (mark_agents env False ''offline'' (offline_reason timeout) stale (snd e1))
              in case fst e2 of
                   None \<Rightarrow> (length stale, snd e2)
                 | Some back \<Rightarrow>
                     (length stale, mark_agents env True ''online'' ''heartbeat recovered'' back (snd e2))))"
  by (simp add: ScanAgentHeartbeats_conn_def Let_def split: prod.splits option.splits)

lemma ScanAgentHeartbeats_keeps:
  "task_tables (db (snd (ScanAgentHeartbeats_conn env c timeout))) = task_tables (db c)"
  "txn (snd (ScanAgentHeartbeats_conn env c timeout)) = txn c"
  by (simp_all add: ScanAgentHeartbeats_eq exec_keeps_tasks mark_agents_keeps Let_def split: option.splits)

section \<open>Sequences of calls\<close>

text \<open>
  What happens to the tables over time: the three writing calls of the store, and the calls of the
  API server, each between two calls of the store.
\<close>

datatype pg_call =
    Call_Upsert string string string string
  | Call_Update string int string
  | Call_Scan int
  | Call_Api api_call

fun pg_step :: "pq_env \<Rightarrow> pg_call \<Rightarrow> pgconn \<Rightarrow> pgconn" where
  "pg_step env (Call_Upsert ip hostname uid version) c = UpsertAgent_conn env c ip hostname uid version"
| "pg_step env (Call_Update tid new reason) c = UpdateTaskStatus_conn env c tid new reason"
| "pg_step env (Call_Scan timeout) c = snd (ScanAgentHeartbeats_conn env c timeout)"
| "pg_step env (Call_Api call) c = c\<lparr>db := api_effect call (db c)\<rparr>"

lemma pg_step_inv:
  assumes "txn c = None" and "task_inv (db c)"
  shows "txn (pg_step env call c) = None \<and> task_inv (db (pg_step env call c))"
proof (cases call)
  case (Call_Update tid new reason)
  then show ?thesis
    using assms UpdateTaskStatus_settled [of c tid new reason env] task_inv_UpdateTaskStatus
    by (simp add: settled_def)
next
  case (Call_Scan timeout)
  then show ?thesis
    using assms task_inv_tables [OF ScanAgentHeartbeats_keeps(1) [of env c timeout]]
    by (simp add: ScanAgentHeartbeats_keeps(2))
next
  case (Call_Upsert ip hostname uid version)
  then show ?thesis
    using assms task_inv_tables [OF UpsertAgent_keeps(1) [of env c ip hostname uid version]]
    by (simp add: UpsertAgent_keeps(2))
qed (use assms api_effect_inv in simp)

lemma pg_run_inv:
  "txn c = None \<Longrightarrow> task_inv (db c) \<Longrightarrow>
   txn (fold (pg_step env) calls c) = None \<and> task_inv (db (fold (pg_step env) calls c))"
  by (induction calls arbitrary: c) (simp_all add: pg_step_inv)

lemma task_inv_fresh [simp]: "task_inv (db fresh_conn)" "txn fresh_conn = None"
  by (simp_all add: task_inv_def fresh_conn_def empty_db_def)

section \<open>The audit log replays to the online flag\<close>

definition events_of :: "pg_db \<Rightarrow> nat \<Rightarrow> string list" where
  "events_of d i = map au_event_type (filter (\<lambda>a. au_agent_id a = i) (agent_audit_log_tbl d))"

fun audit_replay :: "bool \<Rightarrow> string list \<Rightarrow> bool option" where
  "audit_replay b [] = Some b"
| "audit_replay b (e # es) =
     (if e = ''offline'' \<and> b then audit_replay False es
      else if e = ''online'' \<and> \<not> b then audit_replay True es
      else None)"

definition agent_inv :: "pg_db \<Rightarrow> bool" where
  "agent_inv d \<longleftrightarrow>
     distinct (map ag_id (agent_info_tbl d)) \<and> distinct (map ag_ip_addr (agent_info_tbl d))
     \<and> (\<forall>r \<in> set (agent_info_tbl d). ag_id r < agent_id_seq d)
     \<and> (\<forall>a \<in> set (agent_audit_log_tbl d). au_agent_id a < agent_id_seq d)"

definition audit_inv :: "pg_db \<Rightarrow> bool" where
  "audit_inv d \<longleftrightarrow> agent_inv d \<and>
     (\<forall>r \<in> set (agent_info_tbl d). audit_replay True (events_of d (ag_id r)) = Some (ag_online r))"

lemma audit_replay_snoc:
  "audit_replay b (es @ [e]) =
     (case audit_replay b es of
        Some u \<Rightarrow> if e = ''offline'' \<and> u then Some False
                  else if e = ''online'' \<and> \<not> u then Some True else None
      | None \<Rightarrow> None)"
  by (induction b es rule: audit_replay.induct) auto

lemma events_of_audit:
  "events_of (fst (sql_audit i e reason t d)) j = (if j = i then events_of d i @ [e] else events_of d j)"
  by (simp add: events_of_def sql_audit_def)

lemma agents_audit [simp]:
  "agent_info_tbl (fst (sql_audit i e reason t d)) = agent_info_tbl d"
  "agent_id_seq (fst (sql_audit i e reason t d)) = agent_id_seq d"
  by (simp_all add: sql_audit_def)

lemma set_online_sel [simp]:
  "agent_info_tbl (fst (sql_set_online b i t d)) =
     map (\<lambda>r. if ag_id r = i then r\<lparr>ag_online := b\<rparr> else r) (agent_info_tbl d)"
  "agent_id_seq (fst (sql_set_online b i t d)) = agent_id_seq d"
  "agent_audit_log_tbl (fst (sql_set_online b i t d)) = agent_audit_log_tbl d"
  by (simp_all add: sql_set_online_def)

text \<open>Rows changed in place, keeping their keys, with a log that accounts for the new flags.\<close>

lemma audit_inv_map:
  assumes inv: "audit_inv d" and tbl: "agent_info_tbl d' = map u (agent_info_tbl d)"
    and keys: "\<And>r. ag_id (u r) = ag_id r" "\<And>r. ag_ip_addr (u r) = ag_ip_addr r"
    and seq: "agent_id_seq d \<le> agent_id_seq d'"
    and log: "\<And>a. a \<in> set (agent_audit_log_tbl d') \<Longrightarrow> au_agent_id a < agent_id_seq d'"
    and ev: "\<And>r. r \<in> set (agent_info_tbl d) \<Longrightarrow>
      audit_replay True (events_of d' (ag_id r)) = Some (ag_online (u r))"
  shows "audit_inv d'"
proof -
  have "map ag_id (agent_info_tbl d') = map ag_id (agent_info_tbl d)"
    "map ag_ip_addr (agent_info_tbl d') = map ag_ip_addr (agent_info_tbl d)"
    using keys by (simp_all add: tbl)
  moreover have "ag_id r < agent_id_seq d'" if "r \<in> set (agent_info_tbl d')" for r
    using that inv seq by (auto simp: tbl keys audit_inv_def agent_inv_def intro: less_le_trans)
  ultimately have "agent_inv d'"
    using inv log by (simp add: audit_inv_def agent_inv_def)
  moreover have "audit_replay True (events_of d' (ag_id r)) = Some (ag_online r)"
    if "r \<in> set (agent_info_tbl d')" for r
    using that ev by (auto simp: tbl keys)
  ultimately show ?thesis by (simp add: audit_inv_def)
qed

lemma agent_unique_id:
  "audit_inv d \<Longrightarrow> r \<in> set (agent_info_tbl d) \<Longrightarrow> q \<in> set (agent_info_tbl d) \<Longrightarrow> ag_id q = ag_id r \<Longrightarrow> q = r"
  unfolding audit_inv_def agent_inv_def by (metis distinct_map inj_onD)

lemma agent_unique_ip:
  "audit_inv d \<Longrightarrow> r \<in> set (agent_info_tbl d) \<Longrightarrow> q \<in> set (agent_info_tbl d) \<Longrightarrow>
   ag_ip_addr q = ag_ip_addr r \<Longrightarrow> q = r"
  unfolding audit_inv_def agent_inv_def by (metis distinct_map inj_onD)

lemma audit_invD:
  assumes "audit_inv d"
  shows "r \<in> set (agent_info_tbl d) \<Longrightarrow> audit_replay True (events_of d (ag_id r)) = Some (ag_online r)"
    and "r \<in> set (agent_info_tbl d) \<Longrightarrow> ag_id r < agent_id_seq d"
    and "a \<in> set (agent_audit_log_tbl d) \<Longrightarrow> au_agent_id a < agent_id_seq d"
  using assms by (simp_all add: audit_inv_def agent_inv_def)

text \<open>Flipping the flag of one agent and writing the matching event keeps the log in step.\<close>

lemma audit_inv_flip:
  assumes inv: "audit_inv d" and r: "r \<in> set (agent_info_tbl d)" "ag_id r = i" "ag_online r = (\<not> b)"
  shows "audit_inv (fst (sql_audit i (if b then ''online'' else ''offline'') reason t'
                          (fst (sql_set_online b i t d))))"
proof (rule audit_inv_map [OF inv, where u = "\<lambda>r. if ag_id r = i then r\<lparr>ag_online := b\<rparr> else r"])
  have same: "events_of (fst (sql_set_online b i t d)) j = events_of d j" for j
    by (simp add: events_of_def)
  fix q assume q: "q \<in> set (agent_info_tbl d)"
  show "audit_replay True (events_of (fst (sql_audit i (if b then ''online'' else ''offline'') reason t'
            (fst (sql_set_online b i t d)))) (ag_id q))
        = Some (ag_online (if ag_id q = i then q\<lparr>ag_online := b\<rparr> else q))"
    using audit_invD(1) [OF inv q] agent_unique_id [OF inv r(1) q] r(2,3)
    by (cases "ag_id q = i") (auto simp: events_of_audit same audit_replay_snoc)
qed (use audit_invD(2,3) [OF inv] r(1,2) in \<open>auto simp: sql_audit_def\<close>)

lemma sql_now_db [simp]: "sql_now env (c\<lparr>db := d\<rparr>) = sql_now env c"
  by (simp add: sql_now_def split: option.splits)

lemma mark_agents_ok_Cons:
  assumes "all_ok env"
  shows "db (mark_agents env b e reason (i # is) c) = db (mark_agents env b e reason is
     (c\<lparr>stmt_no := Suc (Suc (stmt_no c)),
        db := fst (sql_audit i e reason (sql_now env (c\<lparr>stmt_no := Suc (stmt_no c)\<rparr>))
                    (fst (sql_set_online b i (sql_now env c) (db c))))\<rparr>))"
  by (simp add: exec_stmt_ok [OF assms])

lemma mark_agents_table:
  assumes "all_ok env"
  shows "agent_info_tbl (db (mark_agents env b e reason is c)) =
     map (\<lambda>r. if ag_id r \<in> set is then r\<lparr>ag_online := b\<rparr> else r) (agent_info_tbl (db c))"
proof (induction "is" arbitrary: c)
  case (Cons i "is")
  show ?case unfolding mark_agents_ok_Cons [OF assms] Cons.IH by (auto simp: comp_def)
qed simp

lemma mark_agents_audit_inv:
  assumes "all_ok env"
  shows "audit_inv (db c) \<Longrightarrow> distinct is \<Longrightarrow>
     (\<And>i. i \<in> set is \<Longrightarrow> \<exists>r \<in> set (agent_info_tbl (db c)). ag_id r = i \<and> ag_online r = (\<not> b)) \<Longrightarrow>
     audit_inv (db (mark_agents env b (if b then ''online'' else ''offline'') reason is c))"
proof (induction "is" arbitrary: c)
  case (Cons i "is")
  let ?d = "fst (sql_audit i (if b then ''online'' else ''offline'') reason
                    (sql_now env (c\<lparr>stmt_no := Suc (stmt_no c)\<rparr>))
                    (fst (sql_set_online b i (sql_now env c) (db c))))"
  obtain r where r: "r \<in> set (agent_info_tbl (db c))" "ag_id r = i" "ag_online r = (\<not> b)"
    using Cons.prems(3) [of i] by auto
  have "audit_inv ?d" by (rule audit_inv_flip [OF Cons.prems(1) r])
  moreover have "\<exists>r \<in> set (agent_info_tbl ?d). ag_id r = j \<and> ag_online r = (\<not> b)"
    if "j \<in> set is" for j
    using Cons.prems(2,3) that by (auto simp: image_iff)
  ultimately show ?case
    unfolding mark_agents_ok_Cons [OF assms] using Cons.prems(2) by (intro Cons.IH) auto
qed simp

definition refreshed :: "string \<Rightarrow> string \<Rightarrow> string \<Rightarrow> string \<Rightarrow> time \<Rightarrow> agent_row \<Rightarrow> agent_row" where
  "refreshed hostname ip uid version t r =
     (if ag_ip_addr r = ip
      then r\<lparr>ag_hostname := hostname, ag_online := True, ag_uid := uid, ag_version := version,
             ag_last_hb := t\<rparr>
      else r)"

lemma refreshed_sel [simp]:
  "ag_id (refreshed hostname ip uid version t r) = ag_id r"
  "ag_ip_addr (refreshed hostname ip uid version t r) = ag_ip_addr r"
  "ag_online (refreshed hostname ip uid version t r) = (ag_ip_addr r = ip \<or> ag_online r)"
  by (simp_all add: refreshed_def)

lemma upsert_known:
  "r \<in> set (agent_info_tbl d) \<Longrightarrow> ag_ip_addr r = ip \<Longrightarrow>
   fst (sql_upsert_agent hostname ip uid version t d) =
     d\<lparr>agent_info_tbl := map (refreshed hostname ip uid version t) (agent_info_tbl d),
       agent_id_seq := Suc (agent_id_seq d)\<rparr>"
  by (auto simp: sql_upsert_agent_def refreshed_def [abs_def] Let_def)

lemma audit_inv_upsert_new:
  assumes inv: "audit_inv d" and new: "\<forall>r \<in> set (agent_info_tbl d). ag_ip_addr r \<noteq> ip"
  shows "audit_inv (fst (sql_upsert_agent hostname ip uid version t d))"
proof -
  have "events_of d (agent_id_seq d) = []"
    using audit_invD(3) [OF inv] by (fastforce simp: events_of_def filter_empty_conv)
  then show ?thesis
    using inv new by (auto simp: audit_inv_def agent_inv_def sql_upsert_agent_def events_of_def Let_def
        less_SucI)
qed

lemma audit_inv_upsert_known:
  assumes inv: "audit_inv d" and r: "r \<in> set (agent_info_tbl d)" "ag_ip_addr r = ip"
    and d'_def: "d' = fst (sql_upsert_agent hostname ip uid version t d)"
  shows "ag_online r \<Longrightarrow> audit_inv d'"
    and "\<not> ag_online r \<Longrightarrow> audit_inv (fst (sql_audit (ag_id r) ''online'' reason t' d'))"
proof -
  have d': "agent_info_tbl d' = map (refreshed hostname ip uid version t) (agent_info_tbl d)"
    "agent_id_seq d' = Suc (agent_id_seq d)" "agent_audit_log_tbl d' = agent_audit_log_tbl d"
    "events_of d' = events_of d"
    unfolding d'_def upsert_known [OF r] by (simp_all add: events_of_def fun_eq_iff)
  note ids = agent_unique_id [OF inv r(1)] and ips = agent_unique_ip [OF inv r(1)]
  show "audit_inv d'" if "ag_online r"
    using audit_invD [OF inv] ips r(2) that
    by (intro audit_inv_map [OF inv d'(1)]) (auto simp: d' less_SucI)
  show "audit_inv (fst (sql_audit (ag_id r) ''online'' reason t' d'))" if "\<not> ag_online r"
  proof (rule audit_inv_map [OF inv, where u = "refreshed hostname ip uid version t"])
    fix q assume q: "q \<in> set (agent_info_tbl d)"
    show "audit_replay True (events_of (fst (sql_audit (ag_id r) ''online'' reason t' d')) (ag_id q))
            = Some (ag_online (refreshed hostname ip uid version t q))"
      using audit_invD(1) [OF inv q] ids [OF q] ips [OF q] r(2) that
      by (cases "ag_id q = ag_id r") (auto simp: events_of_audit d' audit_replay_snoc)
  qed (use audit_invD(2,3) [OF inv] r(1) in \<open>auto simp: d' sql_audit_def less_SucI\<close>)
qed

lemma select_agent_result:
  "snd (sql_select_agent ip t d) = (i, onl) # rest \<Longrightarrow>
     \<exists>r \<in> set (agent_info_tbl d). ag_ip_addr r = ip \<and> ag_id r = i \<and> ag_online r = onl"
  "snd (sql_select_agent ip t d) = [] \<longleftrightarrow> (\<forall>r \<in> set (agent_info_tbl d). ag_ip_addr r \<noteq> ip)"
  by (auto simp: sql_select_agent_def map_eq_Cons_conv filter_eq_Cons_iff filter_empty_conv)

lemma UpsertAgent_audit_inv:
  assumes ok: "all_ok env" and inv: "audit_inv (db c)"
  shows "audit_inv (db (UpsertAgent_conn env c ip hostname uid version))"
proof -
  let ?sel = "snd (sql_select_agent ip (sql_now env c) (db c))"
  have reads: "fst (sql_select_agent ip t d) = d" for t d by (simp add: sql_select_agent_def)
  show ?thesis
  proof (cases ?sel)
    case Nil
    then show ?thesis
      using select_agent_result(2) [of ip "sql_now env c" "db c"] audit_inv_upsert_new [OF inv]
      by (simp add: UpsertAgent_eq exec_stmt_ok [OF ok] reads)
  next
    case (Cons p rest)
    obtain i onl where p: "p = (i, onl)" by force
    from select_agent_result(1) [OF Cons [unfolded p]] obtain r
      where r: "r \<in> set (agent_info_tbl (db c))" "ag_ip_addr r = ip" "ag_id r = i" "ag_online r = onl"
      by blast
    show ?thesis
      using audit_inv_upsert_known [OF inv r(1,2) refl] r(3,4)
      by (cases onl) (simp_all add: UpsertAgent_eq exec_stmt_ok [OF ok] reads Cons p)
  qed
qed

text \<open>What a scan does to the table when every statement succeeds.\<close>

lemma id_in_filter:
  assumes "audit_inv d" and "r \<in> set (agent_info_tbl d)"
  shows "ag_id r \<in> ag_id ` set (filter Q (agent_info_tbl d)) \<longleftrightarrow> Q r"
proof
  assume "ag_id r \<in> ag_id ` set (filter Q (agent_info_tbl d))"
  then obtain q where "q \<in> set (agent_info_tbl d)" "Q q" "ag_id q = ag_id r" by auto
  with agent_unique_id [OF assms] show "Q r" by blast
qed (use assms(2) in auto)

lemma distinct_ids_filter:
  "audit_inv d \<Longrightarrow> distinct (map ag_id (filter Q (agent_info_tbl d)))"
  by (simp add: audit_inv_def agent_inv_def distinct_map_filter)

lemma mark_agents_stmt_no: "stmt_no c \<le> stmt_no (mark_agents env b e reason is c)"
proof (induction "is" arbitrary: c)
  case (Cons i "is")
  show ?case
    using Cons.IH [of "snd (exec_stmt env (sql_audit i e reason) (snd (exec_stmt env (sql_set_online b i) c)))"]
    by (simp add: Let_def split_beta)
qed simp

text \<open>Marking the agents a query selected, when the query asks for the opposite flag.\<close>

lemma mark_filtered:
  assumes ok: "all_ok env" and inv: "audit_inv (db c)" and Q: "\<And>r. Q r \<Longrightarrow> ag_online r = (\<not> b)"
    and ids: "ids = map ag_id (filter Q (agent_info_tbl (db c)))"
    and e: "e = (if b then ''online'' else ''offline'')"
  shows "audit_inv (db (mark_agents env b e reason ids c))"
    and "agent_info_tbl (db (mark_agents env b e reason ids c))
           = map (\<lambda>r. if Q r then r\<lparr>ag_online := b\<rparr> else r) (agent_info_tbl (db c))"
proof -
  show "audit_inv (db (mark_agents env b e reason ids c))"
    unfolding e by (rule mark_agents_audit_inv [OF ok inv]) (use Q inv distinct_ids_filter in \<open>auto simp: ids\<close>)
  show "agent_info_tbl (db (mark_agents env b e reason ids c))
           = map (\<lambda>r. if Q r then r\<lparr>ag_online := b\<rparr> else r) (agent_info_tbl (db c))"
    unfolding mark_agents_table [OF ok] using id_in_filter [OF inv] by (simp add: ids)
qed

definition is_stale :: "time \<Rightarrow> int \<Rightarrow> agent_row \<Rightarrow> bool" where
  "is_stale now timeout r \<longleftrightarrow> ag_online r \<and> ag_last_hb r < now - timeout * 1000000"

definition is_recovered :: "time \<Rightarrow> int \<Rightarrow> agent_row \<Rightarrow> bool" where
  "is_recovered now timeout r \<longleftrightarrow> \<not> ag_online r \<and> now - timeout * 1000000 \<le> ag_last_hb r"

lemma exec_select_ok:
  assumes "all_ok env" and "txn c = None"
  shows "exec_stmt env (sql_select_stale timeout) c
      = (Some (map ag_id (filter (is_stale (clock env (stmt_no c)) timeout) (agent_info_tbl (db c)))),
         c\<lparr>stmt_no := Suc (stmt_no c)\<rparr>)"
    and "exec_stmt env (sql_select_recovered timeout) c
      = (Some (map ag_id (filter (is_recovered (clock env (stmt_no c)) timeout) (agent_info_tbl (db c)))),
         c\<lparr>stmt_no := Suc (stmt_no c)\<rparr>)"
  using assms
  by (simp_all add: exec_stmt_ok sql_now_def sql_select_stale_def sql_select_recovered_def
      is_stale_def [abs_def] is_recovered_def [abs_def])

text \<open>The flag of a row after a scan whose two queries ran at times \<open>now\<close> and \<open>t\<close>.\<close>

definition scanned :: "time \<Rightarrow> time \<Rightarrow> int \<Rightarrow> agent_row \<Rightarrow> agent_row" where
  "scanned now t timeout r =
     r\<lparr>ag_online := (if ag_online r then \<not> is_stale now timeout r else is_recovered t timeout r)\<rparr>"

lemma ScanAgentHeartbeats_ok:
  assumes ok: "all_ok env" and inv: "audit_inv (db c)" and notx: "txn c = None" and clk: "mono (clock env)"
  shows "\<exists>t \<ge> clock env (stmt_no c).
     fst (ScanAgentHeartbeats_conn env c timeout)
       = length (filter (is_stale (clock env (stmt_no c)) timeout) (agent_info_tbl (db c)))
     \<and> audit_inv (db (snd (ScanAgentHeartbeats_conn env c timeout)))
     \<and> agent_info_tbl (db (snd (ScanAgentHeartbeats_conn env c timeout)))
       = map (scanned (clock env (stmt_no c)) t timeout) (agent_info_tbl (db c))"
proof -
  let ?now = "clock env (stmt_no c)" and ?c1 = "c\<lparr>stmt_no := Suc (stmt_no c)\<rparr>"
  define stale where "stale = map ag_id (filter (is_stale ?now timeout) (agent_info_tbl (db c)))"
  define m where "m = mark_agents env False ''offline'' (offline_reason timeout) stale ?c1"
  define t where "t = clock env (stmt_no m)"
  define rec where "rec = map ag_id (filter (is_recovered t timeout) (agent_info_tbl (db m)))"
  let ?final = "mark_agents env True ''online'' ''heartbeat recovered'' rec (m\<lparr>stmt_no := Suc (stmt_no m)\<rparr>)"
  have m: "audit_inv (db m)"
      "agent_info_tbl (db m) = map (\<lambda>r. if is_stale ?now timeout r then r\<lparr>ag_online := False\<rparr> else r)
         (agent_info_tbl (db c))"
    unfolding m_def
    using mark_filtered [OF ok, where c = ?c1 and b = False and Q = "is_stale ?now timeout" and ids = stale]
      inv by (simp_all add: stale_def is_stale_def)
  have final: "audit_inv (db ?final)"
      "agent_info_tbl (db ?final) = map (\<lambda>r. if is_recovered t timeout r then r\<lparr>ag_online := True\<rparr> else r)
         (agent_info_tbl (db m))"
    using mark_filtered [OF ok, where c = "m\<lparr>stmt_no := Suc (stmt_no m)\<rparr>" and b = True
        and Q = "is_recovered t timeout" and ids = rec] m(1)
    by (simp_all add: rec_def is_recovered_def)
  have "txn m = None" using notx by (simp add: m_def mark_agents_keeps)
  then have scan: "ScanAgentHeartbeats_conn env c timeout = (length stale, ?final)"
    using exec_select_ok(1) [OF ok notx, of timeout] exec_select_ok(2) [OF ok, of m timeout]
    by (simp add: ScanAgentHeartbeats_conn_def m_def [symmetric] stale_def [symmetric] t_def [symmetric]
        rec_def [symmetric])
  have "Suc (stmt_no c) \<le> stmt_no m"
    using mark_agents_stmt_no [of ?c1 env False "''offline''" "offline_reason timeout" stale]
    by (simp add: m_def)
  then have le: "?now \<le> t" unfolding t_def by (intro monoD [OF clk]) simp
  then have "agent_info_tbl (db ?final) = map (scanned ?now t timeout) (agent_info_tbl (db c))"
    by (auto simp: final(2) m(2) scanned_def is_stale_def is_recovered_def)
  with final(1) scan le show ?thesis by (intro exI [of _ t]) (simp add: stale_def)
qed

section \<open>The contract the server relies on\<close>

text \<open>
  A store of task statuses whose updates are checked against the status machine: each update
  either does nothing or performs an allowed transition of the one task it names.
\<close>

locale task_store =
  fixes update :: "'s \<Rightarrow> string \<Rightarrow> int \<Rightarrow> string \<Rightarrow> 's"
    and status :: "'s \<Rightarrow> string \<Rightarrow> int option"
    and ready :: "'s \<Rightarrow> bool"
  assumes ready_update: "ready s \<Longrightarrow> ready (update s tid n reason)"
    and update_checked: "ready s \<Longrightarrow> status (update s tid n reason) tid = status s tid
        \<or> (\<exists>old. status s tid = Some old \<and> IsTransitionAllowed old n
             \<and> status (update s tid n reason) tid = Some n)"
    and update_other: "ready s \<Longrightarrow> tid' \<noteq> tid \<Longrightarrow> status (update s tid n reason) tid' = status s tid'"
begin

lemma ready_updates: "ready s \<Longrightarrow> ready (fold (\<lambda>(tid, n, reason) s. update s tid n reason) us s)"
  by (induction us arbitrary: s) (auto simp: ready_update)

lemma done_stays_done:
  assumes "ready s" and "status s tid = Some kDone"
  shows "status (fold (\<lambda>(tid, n, reason) s. update s tid n reason) us s) tid = Some kDone"
  using assms
proof (induction us arbitrary: s)
  case (Cons u us)
  obtain t n reason where u: "u = (t, n, reason)" by (cases u)
  have "status (update s t n reason) tid = Some kDone"
  proof (cases "t = tid")
    case True
    then show ?thesis using update_checked [OF Cons.prems(1), of tid n reason] Cons.prems(2) by auto
  next
    case False
    then show ?thesis using update_other [OF Cons.prems(1), of tid t n reason] Cons.prems(2) by simp
  qed
  then show ?case using Cons.IH [of "update s t n reason"] Cons.prems(1) by (simp add: u ready_update)
qed simp

lemma unknown_stays_unknown:
  assumes "ready s" and "status s tid = None"
  shows "status (update s t n reason) tid = None"
  using assms update_checked [of s tid n reason] update_other [of s tid t n reason]
  by (cases "t = tid") auto

end

locale reliable_task_store = task_store +
  assumes update_exact: "ready s \<Longrightarrow> status (update s tid n reason) tid =
      (case status s tid of
         None \<Rightarrow> None
       | Some old \<Rightarrow> if IsTransitionAllowed old n then Some n else Some old)"
begin

text \<open>The two updates of a successful result: RUNNING ends DONE, so does UPLOADING, the rest stays.\<close>

lemma upload_then_done:
  assumes "ready s"
  shows "status (update (update s tid kUploading r1) tid kDone r2) tid =
     (case status s tid of
        None \<Rightarrow> None
      | Some old \<Rightarrow> if old = kRunning \<or> old = kUploading then Some kDone else Some old)"
  using assms update_exact ready_update
  by (auto simp: IsTransitionAllowed_def split: option.splits)

lemma dispatch_then_finish:
  assumes "ready s" and "status s tid = Some kPending"
  shows "status (update (update (update s tid kRunning r0) tid kUploading r1) tid kDone r2) tid = Some kDone"
  using assms update_exact ready_update by (simp add: IsTransitionAllowed_def)

end

definition store_status :: "pg_store \<Rightarrow> string \<Rightarrow> int option" where
  "store_status st tid = (case st of None \<Rightarrow> None | Some c \<Rightarrow> status_of (db c) tid)"

definition store_ready :: "pg_store \<Rightarrow> bool" where
  "store_ready st \<longleftrightarrow> (case st of None \<Rightarrow> True | Some c \<Rightarrow> txn c = None \<and> task_inv (db c))"

text \<open>The same environment with a database that never fails.\<close>

definition reliable :: "pq_env \<Rightarrow> pq_env" where
  "reliable env = env\<lparr>outcome := (\<lambda>_. PQ_ok)\<rparr>"

lemma all_ok_reliable [simp]: "all_ok (reliable env)"
  by (simp add: all_ok_def reliable_def)

lemma reliable_id: "all_ok env \<Longrightarrow> reliable env = env"
  by (simp add: all_ok_def reliable_def fun_eq_iff)

interpretation pg: task_store "UpdateTaskStatus env" store_status store_ready for env
proof unfold_locales
  fix s :: pg_store and tid tid' n reason
  assume rdy: "store_ready s"
  show "store_ready (UpdateTaskStatus env s tid n reason)"
    using rdy UpdateTaskStatus_settled [of _ tid n reason env] task_inv_UpdateTaskStatus [of _ env tid n reason]
    by (auto simp: store_ready_def UpdateTaskStatus_def settled_def split: option.splits)
  show "store_status (UpdateTaskStatus env s tid n reason) tid = store_status s tid \<or>
     (\<exists>old. store_status s tid = Some old \<and> IsTransitionAllowed old n \<and>
        store_status (UpdateTaskStatus env s tid n reason) tid = Some n)"
  proof (cases s)
    case (Some c)
    with rdy have "txn c = None" by (simp add: store_ready_def)
    from UpdateTaskStatus_settled [OF this, of tid n reason env] Some show ?thesis
      by (auto simp: settled_def store_status_def UpdateTaskStatus_def status_of_spec_update
          split: option.splits)
  qed (simp add: store_status_def UpdateTaskStatus_def)
  show "store_status (UpdateTaskStatus env s tid n reason) tid' = store_status s tid'" if "tid' \<noteq> tid"
  proof (cases s)
    case (Some c)
    with rdy have "txn c = None" by (simp add: store_ready_def)
    from UpdateTaskStatus_settled [OF this, of tid n reason env] Some that show ?thesis
      by (auto simp: settled_def store_status_def UpdateTaskStatus_def status_of_spec_update)
  qed (simp add: store_status_def UpdateTaskStatus_def)
qed

interpretation pg_ok: reliable_task_store "UpdateTaskStatus (reliable env)" store_status store_ready for env
proof unfold_locales
  fix s :: pg_store and tid n reason
  assume "store_ready s"
  then show "store_status (UpdateTaskStatus (reliable env) s tid n reason) tid =
      (case store_status s tid of
         None \<Rightarrow> None
       | Some old \<Rightarrow> if IsTransitionAllowed old n then Some n else Some old)"
    by (cases s)
      (simp_all add: store_ready_def store_status_def UpdateTaskStatus_def UpdateTaskStatus_ok
        status_of_spec_update)
qed

section \<open>Call sequences\<close>

lemma agent_tables_UpdateTaskStatus:
  assumes "txn c = None"
  shows "agent_info_tbl (db (UpdateTaskStatus_conn env c tid new reason)) = agent_info_tbl (db c)
       \<and> agent_id_seq (db (UpdateTaskStatus_conn env c tid new reason)) = agent_id_seq (db c)
       \<and> agent_audit_log_tbl (db (UpdateTaskStatus_conn env c tid new reason)) = agent_audit_log_tbl (db c)"
proof -
  have "agent_info_tbl (spec_update tid new reason t d) = agent_info_tbl d
      \<and> agent_id_seq (spec_update tid new reason t d) = agent_id_seq d
      \<and> agent_audit_log_tbl (spec_update tid new reason t d) = agent_audit_log_tbl d" for t d
    by (simp add: spec_update_def transition_def sql_insert_history_def sql_update_task_def
        split: option.splits)
  with UpdateTaskStatus_settled [OF assms, of tid new reason env] show ?thesis
    by (auto simp: settled_def)
qed

lemma audit_inv_tables:
  assumes "agent_info_tbl d' = agent_info_tbl d" "agent_id_seq d' = agent_id_seq d"
    "agent_audit_log_tbl d' = agent_audit_log_tbl d" "audit_inv d"
  shows "audit_inv d'"
  using assms by (simp add: audit_inv_def agent_inv_def events_of_def)

lemma pg_step_audit_inv:
  assumes ok: "all_ok env" and clk: "mono (clock env)"
    and notx: "txn c = None" and tasks: "task_inv (db c)" and inv: "audit_inv (db c)"
  shows "audit_inv (db (pg_step env call c))"
proof (cases call)
  case (Call_Upsert ip hostname uid version)
  then show ?thesis using UpsertAgent_audit_inv [OF ok inv] by simp
next
  case (Call_Update tid new reason)
  then show ?thesis
    using audit_inv_tables [OF _ _ _ inv] agent_tables_UpdateTaskStatus [OF notx] by simp
next
  case (Call_Scan timeout)
  then show ?thesis using ScanAgentHeartbeats_ok [OF ok inv notx clk, of timeout] by auto
next
  case (Call_Api api)
  then show ?thesis
    using audit_inv_tables [OF _ _ _ inv] api_effect_agents [OF tasks, of api] by (simp add: agent_tables_def)
qed

lemma pg_run_audit_inv:
  assumes "all_ok env" and "mono (clock env)"
    and "txn c = None" and "task_inv (db c)" and "audit_inv (db c)"
  shows "audit_inv (db (fold (pg_step env) calls c))"
  using assms(3-)
proof (induction calls arbitrary: c)
  case (Cons call calls)
  then show ?case
    using pg_step_inv [of c env call] pg_step_audit_inv [OF assms(1,2), of c call] by simp
qed simp

lemma audit_inv_fresh: "audit_inv (db fresh_conn)"
  by (simp add: audit_inv_def agent_inv_def fresh_conn_def empty_db_def)

lemma history_done:
  assumes "replay kPending hs = Some kDone"
  shows "\<exists>pre. map hs_new_status hs = pre @ [kRunning, kUploading, kDone]"
proof -
  have "kPending # map hs_new_status hs
      = butlast (kPending # map hs_new_status hs) @ [last (kPending # map hs_new_status hs)]"
    by (rule append_butlast_last_id [symmetric]) simp
  then obtain xs where xs: "kPending # map hs_new_status hs = xs @ [kDone]"
    unfolding replay_last [OF assms] by blast
  then have "\<exists>pre. xs = pre @ [kPending, kRunning, kUploading]"
    using status_run_reach_done [of xs] replay_status_run [OF assms] by (metis list.sel(1))
  then obtain pre where "kPending # map hs_new_status hs = pre @ [kPending, kRunning, kUploading, kDone]"
    using xs by auto
  then show ?thesis
    by (cases pre) (auto intro: exI [of _ "[]"] exI [of _ "tl pre @ [kPending]"])
qed

section \<open>Properties\<close>

text \<open>
  C3. UpdateTaskStatus is atomic whatever PostgreSQL does: with every statement of the transaction
  free to succeed, fail, or lose its reply, the call leaves no transaction open and either changes
  nothing or performs exactly one allowed transition of the named task together with its history
  row, stamped with the transaction's start time.  When no statement fails it performs the
  transition exactly when the status machine allows it.
\<close>

theorem UpdateTaskStatus_atomic:
  assumes "txn c = None"
  shows "txn (UpdateTaskStatus_conn env c tid new reason) = None
    \<and> (db (UpdateTaskStatus_conn env c tid new reason) = db c
       \<or> (\<exists>old. status_of (db c) tid = Some old \<and> IsTransitionAllowed old new
            \<and> db (UpdateTaskStatus_conn env c tid new reason)
              = transition tid old new reason (clock env (stmt_no c)) (db c)))
    \<and> (all_ok env \<longrightarrow> db (UpdateTaskStatus_conn env c tid new reason)
              = spec_update tid new reason (clock env (stmt_no c)) (db c))"
  using UpdateTaskStatus_settled [OF assms, of tid new reason env] UpdateTaskStatus_ok [OF assms]
  by (auto simp: settled_def spec_update_def split: option.splits if_splits)

text \<open>The history insert of this environment fails.\<close>

definition faulty_env :: pq_env where
  "faulty_env = \<lparr>outcome = (\<lambda>n. if n = 3 then PQ_error else PQ_ok), clock = int\<rparr>"

definition one_pending :: pgconn where
  "one_pending = fresh_conn\<lparr>db := api_effect sample_create_call empty_db\<rparr>"

theorem UpdateTaskStatus_atomic_witness:
  "db (UpdateTaskStatus_conn sample_env one_pending ''task00000001'' kRunning ''go'')
     = spec_update ''task00000001'' kRunning ''go'' 0 (db one_pending)
   \<and> status_of (db (UpdateTaskStatus_conn sample_env one_pending ''task00000001'' kRunning ''go'')) ''task00000001'' = Some kRunning
   \<and> db (UpdateTaskStatus_conn faulty_env one_pending ''task00000001'' kRunning ''go'') = db one_pending"
proof -
  have notx: "txn one_pending = None" and n: "stmt_no one_pending = 0"
    by (simp_all add: one_pending_def fresh_conn_def)
  have st: "status_of (db one_pending) ''task00000001'' = Some kPending"
    by (simp add: one_pending_def sample_created pending_row_def status_of_def sql_select_status_def)
  have 1: "db (UpdateTaskStatus_conn sample_env one_pending ''task00000001'' kRunning ''go'')
     = spec_update ''task00000001'' kRunning ''go'' 0 (db one_pending)"
    using UpdateTaskStatus_atomic [OF notx, of sample_env "''task00000001''" kRunning "''go''"] sample_env_ok
    by (simp add: n sample_env_def)
  have 2: "db (UpdateTaskStatus_conn faulty_env one_pending ''task00000001'' kRunning ''go'') = db one_pending"
    by (simp add: UpdateTaskStatus_conn_def pg_begin_def exec_stmt_def pg_rollback_def faulty_env_def
        one_pending_def fresh_conn_def sample_created pending_row_def sql_select_status_def Let_def
        IsTransitionAllowed_def sql_now_def sql_update_task_def sql_insert_history_def)
  show ?thesis using 1 2 st by (simp add: status_of_spec_update IsTransitionAllowed_def)
qed

text \<open>
  C9. The status history is a faithful log.  After any sequence of UpsertAgent, UpdateTaskStatus
  and ScanAgentHeartbeats calls, interleaved with the calls of the API server and of the analysis
  and under any statement failures, replaying the history rows that follow a task's creation row
  from PENDING gives its current status along allowed transitions only; a DONE task's history ends RUNNING, UPLOADING, DONE; a task that has
  run has a begin time and a finished one an end time.
\<close>

theorem task_history_sound:
  assumes "d = db (fold (pg_step env) calls fresh_conn)" and "r \<in> set (hotmethod_task_tbl d)"
  shows "replay kPending (history_of d (tk_tid r)) = Some (tk_status r)
    \<and> status_run (kPending # map hs_new_status (history_of d (tk_tid r)))
    \<and> (tk_status r = kDone \<longrightarrow>
         (\<exists>pre. map hs_new_status (history_of d (tk_tid r)) = pre @ [kRunning, kUploading, kDone]))
    \<and> (tk_status r \<in> {kRunning, kUploading, kDone} \<longrightarrow> tk_begin_time r \<noteq> None)
    \<and> (tk_status r \<in> {kDone, kFailed} \<longrightarrow> tk_end_time r \<noteq> None)"
proof -
  have "task_inv d" using pg_run_inv [of fresh_conn env calls] assms(1) by simp
  then have r: "replay kPending (history_of d (tk_tid r)) = Some (tk_status r)" "row_times r"
    using assms(2) by (auto simp: task_inv_def)
  show ?thesis
    using r replay_status_run [OF r(1)] history_done [of "history_of d (tk_tid r)"]
    by (auto simp: row_times_def)
qed

definition sample_calls :: "pg_call list" where
  "sample_calls = [Call_Api sample_create_call, Call_Upsert ''10.0.0.1'' ''h'' ''u'' ''1'',
     Call_Update ''task00000001'' kRunning ''go'', Call_Update ''task00000001'' kUploading ''up'', Call_Update ''task00000001'' kDone ''ok'']"

definition sample_row :: task_row where
  "sample_row = (pending_row ''task00000001'' ''u'' ''user'' sample_req 0)\<lparr>tk_status := kDone, tk_status_info := ''ok'',
     tk_begin_time := Some 2000000, tk_end_time := Some 12000000\<rparr>"

theorem task_history_sound_witness:
  "\<exists>pre. map hs_new_status (history_of (db (fold (pg_step sample_env) sample_calls fresh_conn)) ''task00000001'')
      = pre @ [kRunning, kUploading, kDone]"
proof -
  have "sample_row \<in> set (hotmethod_task_tbl (db (fold (pg_step sample_env) sample_calls fresh_conn)))"
    by code_simp
  from task_history_sound [OF refl this] show ?thesis by (simp add: sample_row_def pending_row_def)
qed

text \<open>
  C18. The heartbeat scan is exact.  With a database that answers and a clock that does not run
  backwards, ScanAgentHeartbeats returns the number of online agents whose last heartbeat is older
  than the timeout, marks exactly those offline, marks exactly the offline agents whose heartbeat
  is fresh again online, and changes nothing else of the agent table; it never reverts its own
  marks in the same scan.
\<close>

theorem heartbeat_scan_exact:
  assumes "all_ok env" and "mono (clock env)" and "txn c = None" and "audit_inv (db c)"
  shows "\<exists>t \<ge> clock env (stmt_no c).
     fst (ScanAgentHeartbeats_conn env c timeout)
       = length (filter (is_stale (clock env (stmt_no c)) timeout) (agent_info_tbl (db c)))
     \<and> agent_info_tbl (db (snd (ScanAgentHeartbeats_conn env c timeout)))
       = map (\<lambda>r. r\<lparr>ag_online := (if ag_online r then \<not> is_stale (clock env (stmt_no c)) timeout r
                                   else is_recovered t timeout r)\<rparr>) (agent_info_tbl (db c))"
  using ScanAgentHeartbeats_ok [OF assms(1,4,3,2), of timeout]
  unfolding scanned_def [abs_def] by blast

theorem heartbeat_scan_exact_witness:
  "fst (ScanAgentHeartbeats_conn sample_env
      (fold (pg_step sample_env) (sample_calls @ [Call_Scan 60]) fresh_conn) 10) = 1"
proof -
  let ?c = "fold (pg_step sample_env) (sample_calls @ [Call_Scan 60]) fresh_conn"
  have "audit_inv (db ?c)"
    by (rule pg_run_audit_inv) (simp_all add: sample_env_ok audit_inv_fresh)
  moreover have "txn ?c = None" by (rule conjunct1 [OF pg_run_inv]) simp_all
  ultimately have "fst (ScanAgentHeartbeats_conn sample_env ?c 10)
      = length (filter (is_stale (clock sample_env (stmt_no ?c)) 10) (agent_info_tbl (db ?c)))"
    using heartbeat_scan_exact [OF sample_env_ok, of ?c 10] by blast
  also have "\<dots> = 1" by code_simp
  finally show ?thesis .
qed

text \<open>
  C17. The audit log explains the online flag.  After any sequence of store calls that the database
  carries out, an agent's audit rows alternate offline and online starting from online, and their
  replay is its current online flag, so no state change is missing from the log and none is logged
  twice; agent ids and addresses stay unique.
\<close>

theorem audit_log_sound:
  assumes "all_ok env" and "mono (clock env)" and "d = db (fold (pg_step env) calls fresh_conn)"
    and "r \<in> set (agent_info_tbl d)"
  shows "audit_replay True (events_of d (ag_id r)) = Some (ag_online r)
    \<and> distinct (map ag_id (agent_info_tbl d)) \<and> distinct (map ag_ip_addr (agent_info_tbl d))"
proof -
  have "audit_inv d"
    using pg_run_audit_inv [OF assms(1,2), of fresh_conn calls] by (simp add: assms(3) audit_inv_fresh)
  then show ?thesis using assms(4) by (auto simp: audit_inv_def agent_inv_def)
qed

theorem audit_log_sound_witness:
  "audit_replay True (events_of (db (fold (pg_step sample_env)
      (sample_calls @ [Call_Scan 5, Call_Upsert ''10.0.0.1'' ''h'' ''u'' ''1'']) fresh_conn)) 1) = Some True"
proof -
  let ?d = "db (fold (pg_step sample_env)
      (sample_calls @ [Call_Scan 5, Call_Upsert ''10.0.0.1'' ''h'' ''u'' ''1'']) fresh_conn)"
  let ?r = "hd (agent_info_tbl ?d)"
  have "?r \<in> set (agent_info_tbl ?d)" by code_simp
  from audit_log_sound [OF sample_env_ok refl this]
  have "audit_replay True (events_of ?d (ag_id ?r)) = Some (ag_online ?r)" by simp
  moreover have "ag_id ?r = 1" "ag_online ?r" by code_simp+
  ultimately show ?thesis by simp
qed

end
