(* ===== verification/DropServer.thy ===== *)
theory DropServer
  imports TaskQueue HeartbeatTracker PGStoreProofs
begin

text \<open>
  The gRPC server of \<^verbatim>\<open>src/drop/server/main.cpp\<close>: the four services' handlers,
  each with its early returns, the heartbeat scanner's loop body and the start-up of
  \<^verbatim>\<open>main\<close>.  gRPC itself is outside the sources; what a handler reads from its
  \<^verbatim>\<open>ServerContext\<close> and from the clocks is part of the call.
\<close>

section \<open>State\<close>

text \<open>\<^verbatim>\<open>g_pg\<close> is a \<^verbatim>\<open>unique_ptr\<close>: \<open>None\<close> is the null pointer.\<close>

record server_state =
  g_task_queue :: task_queue
  g_hb_tracker :: heartbeat_tracker
  g_pg :: "pg_store option"

record server_flags =
  FLAGS_port :: int
  FLAGS_pg_dsn :: string
  FLAGS_hb_timeout :: int
  FLAGS_hb_scan_interval :: int

definition default_flags :: server_flags where
  "default_flags = \<lparr>FLAGS_port = 50051, FLAGS_pg_dsn = [], FLAGS_hb_timeout = 30, FLAGS_hb_scan_interval = 10\<rparr>"

datatype status_code = OK | CANCELLED | DEADLINE_EXCEEDED | UNIMPLEMENTED

type_synonym grpc_status = "status_code \<times> string"

record server_context =
  ctx_cancelled :: bool
  ctx_deadline :: time
  ctx_now :: time

definition CheckDeadline :: "server_context \<Rightarrow> grpc_status" where
  "CheckDeadline ctx =
     (if ctx_cancelled ctx then (CANCELLED, ''request cancelled by client'')
      else if ctx_deadline ctx > 0 \<and> ctx_deadline ctx < ctx_now ctx
           then (DEADLINE_EXCEEDED, ''request deadline exceeded'')
      else (OK, []))"

text \<open>The guard \<^verbatim>\<open>if (g_pg && g_pg->Connected())\<close> around a call that changes the store.\<close>

definition pg_available :: "server_state \<Rightarrow> bool" where
  "pg_available s = (case g_pg s of None \<Rightarrow> False | Some st \<Rightarrow> Connected st)"

definition with_pg :: "(pg_store \<Rightarrow> pg_store) \<Rightarrow> server_state \<Rightarrow> server_state" where
  "with_pg f s = (if pg_available s then s\<lparr>g_pg := map_option f (g_pg s)\<rparr> else s)"

section \<open>HealthCheckService and HotmethodService\<close>

definition reason_running :: string where
  "reason_running = ''Agent'' @ [CHR 0xE5, CHR 0xBC, CHR 0x80, CHR 0xE5, CHR 0xA7, CHR 0x8B,
     CHR 0xE6, CHR 0x89, CHR 0xA7, CHR 0xE8, CHR 0xA1, CHR 0x8C, CHR 0xE9, CHR 0x87, CHR 0x87,
     CHR 0xE9, CHR 0x9B, CHR 0x86]"

definition HealthCheck_Do ::
  "pq_env \<Rightarrow> time \<Rightarrow> server_context \<Rightarrow> health_check_request \<Rightarrow> server_state \<Rightarrow>
   grpc_status \<times> health_check_response \<times> server_state" where
  "HealthCheck_Do env hb_now ctx req s =
     (let st = CheckDeadline ctx
      in if fst st \<noteq> OK then (st, default_health_check_response, s)
         else
           (let ip = hcq_ip_addr req;
                s1 = s\<lparr>g_hb_tracker := Update (g_hb_tracker s) ip hb_now\<rparr>;
                s2 = with_pg (\<lambda>p. UpsertAgent env p ip (hcq_host_name req) (hcq_uid req)
                                    (hcq_agent_version req)) s1;
                (resp, s3) =
                  (case Pop (g_task_queue s2) ip of
                     Some (desc, q) \<Rightarrow>
                       (default_health_check_response\<lparr>hcr_pending := True, hcr_task_desc := Some desc\<rparr>,
                        with_pg (\<lambda>p. UpdateTaskStatus env p (td_task_id desc) kRunning reason_running)
                          (s2\<lparr>g_task_queue := q\<rparr>))
                   | None \<Rightarrow> (default_health_check_response\<lparr>hcr_pending := False\<rparr>, s2))
            in ((OK, []), resp\<lparr>hcr_status := SERVING\<rparr>, s3)))"

definition Collect :: "server_context \<Rightarrow> target \<Rightarrow> server_state \<Rightarrow> grpc_status \<times> server_state" where
  "Collect ctx req s =
     (let st = CheckDeadline ctx
      in if fst st \<noteq> OK then (st, s)
         else ((UNIMPLEMENTED, ''use HealthCheck.Do for task dispatch''), s))"

definition reason_uploading :: string where
  "reason_uploading = [CHR 0xE9, CHR 0x87, CHR 0x87, CHR 0xE9, CHR 0x9B, CHR 0x86, CHR 0xE5,
     CHR 0xAE, CHR 0x8C, CHR 0xE6, CHR 0x88, CHR 0x90, CHR 0xEF, CHR 0xBC, CHR 0x8C, CHR 0xE5,
     CHR 0xBC, CHR 0x80, CHR 0xE5, CHR 0xA7, CHR 0x8B, CHR 0xE4, CHR 0xB8, CHR 0x8A, CHR 0xE4,
     CHR 0xBC, CHR 0xA0, CHR 0xE7, CHR 0xBB, CHR 0x93, CHR 0xE6, CHR 0x9E, CHR 0x9C]"

definition reason_uploaded :: "string \<Rightarrow> string" where
  "reason_uploaded cos_key = ''Agent'' @ [CHR 0xE4, CHR 0xB8, CHR 0x8A, CHR 0xE4, CHR 0xBC,
     CHR 0xA0, CHR 0xE5, CHR 0xAE, CHR 0x8C, CHR 0xE6, CHR 0x88, CHR 0x90, CHR 0xEF, CHR 0xBC,
     CHR 0x8C] @ ''cos_key='' @ cos_key"

definition reason_no_file :: string where
  "reason_no_file = ''Agent'' @ [CHR 0xE4, CHR 0xB8, CHR 0x8A, CHR 0xE6, CHR 0x8A, CHR 0xA5,
     CHR 0xE5, CHR 0xAE, CHR 0x8C, CHR 0xE6, CHR 0x88, CHR 0x90, CHR 0xEF, CHR 0xBC, CHR 0x88,
     CHR 0xE6, CHR 0x97, CHR 0xA0, CHR 0xE4, CHR 0xBA, CHR 0xA7, CHR 0xE5, CHR 0x87, CHR 0xBA,
     CHR 0xE6, CHR 0x96, CHR 0x87, CHR 0xE4, CHR 0xBB, CHR 0xB6, CHR 0xEF, CHR 0xBC, CHR 0x89]"

definition reason_file :: "string \<Rightarrow> string" where
  "reason_file name = ''Agent'' @ [CHR 0xE4, CHR 0xB8, CHR 0x8A, CHR 0xE6, CHR 0x8A, CHR 0xA5,
     CHR 0xE6, CHR 0x96, CHR 0x87, CHR 0xE4, CHR 0xBB, CHR 0xB6] @ '': '' @ name"

definition NotifyResult ::
  "pq_env \<Rightarrow> server_context \<Rightarrow> task_result \<Rightarrow> server_state \<Rightarrow> grpc_status \<times> server_state" where
  "NotifyResult env ctx req s =
     (let st = CheckDeadline ctx
      in if fst st \<noteq> OK then (st, s)
         else
           (let tid = tr_task_id req
            in if tr_error_message req = []
               then
                 (let s1 = with_pg (\<lambda>p. UpdateTaskStatus env p tid kUploading reason_uploading) s;
                      s2 = (if tr_cos_key req \<noteq> []
                            then with_pg (\<lambda>p. UpdateTaskStatus env p tid kDone
                                                (reason_uploaded (tr_cos_key req))) s1
                            else if file_name (tr_file req) = []
                            then with_pg (\<lambda>p. UpdateTaskStatus env p tid kDone reason_no_file) s1
                            else with_pg (\<lambda>p. UpdateTaskStatus env p tid kDone
                                                (reason_file (file_name (tr_file req)))) s1)
                  in ((OK, []), s2))
               else ((OK, []),
                     with_pg (\<lambda>p. UpdateTaskStatus env p tid kFailed (tr_error_message req)) s)))"

section \<open>ControlService and InitService\<close>

definition CreateTask ::
  "server_context \<Rightarrow> create_task_request \<Rightarrow> server_state \<Rightarrow>
   grpc_status \<times> create_task_response \<times> server_state" where
  "CreateTask ctx req s =
     (let st = CheckDeadline ctx
      in if fst st \<noteq> OK then (st, \<lparr>ctr_success = False, ctr_message = []\<rparr>, s)
         else ((OK, []), \<lparr>ctr_success = True, ctr_message = ''task queued''\<rparr>,
               s\<lparr>g_task_queue := Push (g_task_queue s) (ctq_target_ip req) (ctq_task_desc req)\<rparr>))"

definition FetchData ::
  "server_context \<Rightarrow> fetch_data_request \<Rightarrow> server_state \<Rightarrow>
   grpc_status \<times> fetch_data_response \<times> server_state" where
  "FetchData ctx req s =
     (let st = CheckDeadline ctx; none = \<lparr>fdr_success = False, fdr_cos_key = [], fdr_error_message = []\<rparr>
      in if fst st \<noteq> OK then (st, none, s)
         else if pg_available s
         then ((OK, []), none\<lparr>fdr_error_message :=
                  ''FetchData not yet fully implemented - use MinIO presign''\<rparr>, s)
         else ((OK, []), none\<lparr>fdr_error_message := ''no PG connection''\<rparr>, s))"

definition info_of_record :: "agent_record \<Rightarrow> agent_info" where
  "info_of_record a =
     \<lparr>ai_host_name = rec_hostname a, ai_ip_addr = rec_ip a, ai_online = rec_online a,
      ai_uid = rec_uid a, ai_agent_version = rec_version a\<rparr>"

definition info_of_tracker :: "string \<times> bool \<Rightarrow> agent_info" where
  "info_of_tracker p =
     \<lparr>ai_host_name = [], ai_ip_addr = fst p, ai_online = snd p, ai_uid = [], ai_agent_version = []\<rparr>"

definition StatAgent ::
  "pq_env \<Rightarrow> server_flags \<Rightarrow> (nat \<Rightarrow> time) \<Rightarrow> server_context \<Rightarrow> stat_agent_request \<Rightarrow>
   server_state \<Rightarrow> grpc_status \<times> stat_agent_response \<times> server_state" where
  "StatAgent env flags now ctx req s =
     (let st = CheckDeadline ctx
      in if fst st \<noteq> OK then (st, \<lparr>sar_agents = []\<rparr>, s)
         else
           (let filter_ip = saq_target_ip req
            in case g_pg s of
                 Some (Some c) \<Rightarrow>
                   (let (agents, pg') = ListAgents env (Some c)
                    in ((OK, []),
                        \<lparr>sar_agents = map info_of_record
                           (filter (\<lambda>a. \<not> (filter_ip \<noteq> [] \<and> rec_ip a \<noteq> filter_ip)) agents)\<rparr>,
                        s\<lparr>g_pg := Some pg'\<rparr>))
               | _ \<Rightarrow>
                   (let agents = AllAgents (g_hb_tracker s) (FLAGS_hb_timeout flags) now
                    in ((OK, []),
                        \<lparr>sar_agents = map info_of_tracker
                           (filter (\<lambda>p. \<not> (filter_ip \<noteq> [] \<and> fst p \<noteq> filter_ip)) agents)\<rparr>, s))))"

definition RegisterAgent ::
  "pq_env \<Rightarrow> server_context \<Rightarrow> register_agent_request \<Rightarrow> server_state \<Rightarrow>
   grpc_status \<times> register_agent_response \<times> server_state" where
  "RegisterAgent env ctx req s =
     (let st = CheckDeadline ctx
      in if fst st \<noteq> OK then (st, \<lparr>rar_success = False, rar_message = [], rar_uid = []\<rparr>, s)
         else
           (let s1 = with_pg (\<lambda>p. UpsertAgent env p (raq_ip_addr req) (raq_host_name req) (raq_uid req)
                                    (raq_agent_version req)) s
            in ((OK, []),
                \<lparr>rar_success = True, rar_message = ''registered'',
                 rar_uid = (if raq_uid req = [] then raq_ip_addr req else raq_uid req)\<rparr>, s1)))"

definition FetchConfig ::
  "server_context \<Rightarrow> fetch_config_request \<Rightarrow> server_state \<Rightarrow>
   grpc_status \<times> fetch_config_response \<times> server_state" where
  "FetchConfig ctx req s =
     (let st = CheckDeadline ctx
      in if fst st \<noteq> OK
         then (st, \<lparr>fcr_cos_config = default_cos_config, fcr_log_level = []\<rparr>, s)
         else ((OK, []),
               \<lparr>fcr_cos_config = default_cos_config\<lparr>cos_region := ''default'', cos_bucket := ''drop-data''\<rparr>,
                fcr_log_level = ''INFO''\<rparr>, s))"

section \<open>HeartbeatScanner and main\<close>

text \<open>One iteration of the scanner's endless loop, after its sleep.\<close>

definition HeartbeatScanner_body :: "pq_env \<Rightarrow> server_flags \<Rightarrow> server_state \<Rightarrow> server_state" where
  "HeartbeatScanner_body env flags s =
     with_pg (\<lambda>p. snd (ScanAgentHeartbeats env p (FLAGS_hb_timeout flags))) s"

text \<open>
  \<^verbatim>\<open>main\<close> up to \<^verbatim>\<open>server->Wait()\<close>: a store is kept only when a DSN was given
  and the connection succeeded.  \<open>connect\<close> is the result of \<^verbatim>\<open>PQconnectdb\<close>, the
  connection and whether its status is \<^verbatim>\<open>CONNECTION_OK\<close>.
\<close>

definition server_main_init ::
  "(string \<Rightarrow> bool \<times> pgconn) \<Rightarrow> server_flags \<Rightarrow> server_state \<times> string" where
  "server_main_init connect flags =
     (let pg = (if FLAGS_pg_dsn flags \<noteq> []
                then (let (ok, c) = connect (FLAGS_pg_dsn flags); st = PGStore_ctor ok c
                      in if \<not> Connected st then None else Some st)
                else None)
      in (\<lparr>g_task_queue = empty_task_queue, g_hb_tracker = empty_tracker, g_pg = pg\<rparr>,
          ''0.0.0.0:'' @ show_int (FLAGS_port flags)))"

end
