(* ===== verification/DropServerProofs.thy ===== *)
theory DropServerProofs
  imports DropServer
begin

text \<open>
  Runs of the server: any sequence of RPCs, scanner ticks and task insertions by the API server,
  with any failures of the database.  The runs are connected to the queue's contract through the
  queue operations they perform, and to the store's contract through the updates they request.
\<close>

section \<open>Rejected calls\<close>

definition accepted :: "server_context \<Rightarrow> bool" where
  "accepted ctx \<longleftrightarrow> fst (CheckDeadline ctx) = OK"

lemma accepted_iff:
  "accepted ctx \<longleftrightarrow> \<not> ctx_cancelled ctx \<and> (ctx_deadline ctx \<le> 0 \<or> ctx_now ctx \<le> ctx_deadline ctx)"
  by (auto simp: accepted_def CheckDeadline_def)

lemma with_pg_frame [simp]:
  "g_task_queue (with_pg f s) = g_task_queue s" "g_hb_tracker (with_pg f s) = g_hb_tracker s"
  by (simp_all add: with_pg_def)

section \<open>Runs\<close>

datatype rpc =
    Rpc_Do time server_context health_check_request
  | Rpc_Collect server_context target
  | Rpc_NotifyResult server_context task_result
  | Rpc_CreateTask server_context create_task_request
  | Rpc_FetchData server_context fetch_data_request
  | Rpc_StatAgent "nat \<Rightarrow> time" server_context stat_agent_request
  | Rpc_RegisterAgent server_context register_agent_request
  | Rpc_FetchConfig server_context fetch_config_request
  | Scanner_Tick
  | Api_Call api_call

text \<open>The tasks a heartbeat response hands to the agent.\<close>

definition dispatched_in :: "health_check_response \<Rightarrow> task_desc list" where
  "dispatched_in resp = (case hcr_task_desc resp of None \<Rightarrow> [] | Some d \<Rightarrow> [d])"

fun server_step ::
  "pq_env \<Rightarrow> server_flags \<Rightarrow> rpc \<Rightarrow> server_state \<Rightarrow> server_state \<times> (string \<times> task_desc) list" where
  "server_step env flags (Rpc_Do now ctx req) s =
     (let (_, resp, s') = HealthCheck_Do env now ctx req s
      in (s', map (\<lambda>d. (hcq_ip_addr req, d)) (dispatched_in resp)))"
| "server_step env flags (Rpc_Collect ctx req) s = (snd (Collect ctx req s), [])"
| "server_step env flags (Rpc_NotifyResult ctx req) s = (snd (NotifyResult env ctx req s), [])"
| "server_step env flags (Rpc_CreateTask ctx req) s = (snd (snd (CreateTask ctx req s)), [])"
| "server_step env flags (Rpc_FetchData ctx req) s = (snd (snd (FetchData ctx req s)), [])"
| "server_step env flags (Rpc_StatAgent now ctx req) s = (snd (snd (StatAgent env flags now ctx req s)), [])"
| "server_step env flags (Rpc_RegisterAgent ctx req) s = (snd (snd (RegisterAgent env ctx req s)), [])"
| "server_step env flags (Rpc_FetchConfig ctx req) s = (snd (snd (FetchConfig ctx req s)), [])"
| "server_step env flags Scanner_Tick s = (HeartbeatScanner_body env flags s, [])"
| "server_step env flags (Api_Call call) s =
     (with_pg (map_option (\<lambda>c. c\<lparr>db := api_effect call (db c)\<rparr>)) s, [])"

fun server_run ::
  "pq_env \<Rightarrow> server_flags \<Rightarrow> rpc list \<Rightarrow> server_state \<Rightarrow> server_state \<times> (string \<times> task_desc) list" where
  "server_run env flags [] s = (s, [])"
| "server_run env flags (r # rs) s =
     (let (s1, out1) = server_step env flags r s; (s2, out2) = server_run env flags rs s1
      in (s2, out1 @ out2))"

text \<open>The tasks accepted for each target, and the queue operations of a call.\<close>

fun created_by :: "rpc \<Rightarrow> (string \<times> task_desc) list" where
  "created_by (Rpc_CreateTask ctx req) =
     (if accepted ctx then [(ctq_target_ip req, ctq_task_desc req)] else [])"
| "created_by _ = []"

fun queue_ops_of :: "rpc \<Rightarrow> (string, task_desc) queue_op list" where
  "queue_ops_of (Rpc_CreateTask ctx req) =
     (if accepted ctx then [Enqueue (ctq_target_ip req) (ctq_task_desc req)] else [])"
| "queue_ops_of (Rpc_Do now ctx req) = (if accepted ctx then [Dequeue (hcq_ip_addr req)] else [])"
| "queue_ops_of _ = []"

lemma enqueued_queue_ops: "enqueued (queue_ops_of r) = created_by r"
  by (cases r) auto

lemma enqueued_append [simp]: "enqueued (xs @ ys) = enqueued xs @ enqueued ys"
  by (induction xs rule: enqueued.induct) auto

lemma enqueued_concat: "enqueued (concat (map queue_ops_of rs)) = concat (map created_by rs)"
  by (induction rs) (simp_all add: enqueued_queue_ops)

lemma run_queue_append:
  "run_queue enq deq (xs @ ys) q =
     (let (q1, o1) = run_queue enq deq xs q; (q2, o2) = run_queue enq deq ys q1 in (q2, o1 @ o2))"
  by (induction enq deq xs q rule: run_queue.induct) (auto simp: split_beta Let_def split: option.splits)

lemma handler_queue [simp]:
  "g_task_queue (snd (Collect ctx tgt s)) = g_task_queue s"
  "g_task_queue (snd (NotifyResult env ctx res s)) = g_task_queue s"
  "g_task_queue (snd (snd (FetchData ctx fdq s))) = g_task_queue s"
  "g_task_queue (snd (snd (StatAgent env flags now ctx saq s))) = g_task_queue s"
  "g_task_queue (snd (snd (RegisterAgent env ctx raq s))) = g_task_queue s"
  "g_task_queue (snd (snd (FetchConfig ctx fcq s))) = g_task_queue s"
  "g_task_queue (HeartbeatScanner_body env flags s) = g_task_queue s"
  by (simp_all add: Collect_def NotifyResult_def FetchData_def StatAgent_def RegisterAgent_def
      FetchConfig_def HeartbeatScanner_body_def Let_def split_beta split: option.split)

lemma CreateTask_queue:
  "g_task_queue (snd (snd (CreateTask ctx req s))) =
     (if accepted ctx then Push (g_task_queue s) (ctq_target_ip req) (ctq_task_desc req) else g_task_queue s)"
  by (simp add: CreateTask_def accepted_def Let_def)

lemma Do_queue:
  assumes "HealthCheck_Do env now ctx req s = (st, resp, s')"
  shows "(g_task_queue s', dispatched_in resp) =
     (if accepted ctx
      then (case Pop (g_task_queue s) (hcq_ip_addr req) of
              None \<Rightarrow> (g_task_queue s, []) | Some (d, q) \<Rightarrow> (q, [d]))
      else (g_task_queue s, []))"
proof (cases "Pop (g_task_queue s) (hcq_ip_addr req)")
  case None
  then show ?thesis
    using assms
    by (auto simp: HealthCheck_Do_def Let_def accepted_def dispatched_in_def
        default_health_check_response_def split: if_splits)
next
  case (Some p)
  then show ?thesis
    using assms
    by (cases p) (auto simp: HealthCheck_Do_def Let_def accepted_def dispatched_in_def
        default_health_check_response_def split: if_splits)
qed

lemma step_queue:
  "run_queue Push Pop (queue_ops_of r) (g_task_queue s) =
     (g_task_queue (fst (server_step env flags r s)), snd (server_step env flags r s))"
proof (cases r)
  case (Rpc_Do now ctx req)
  obtain st resp s' where eq: "HealthCheck_Do env now ctx req s = (st, resp, s')" by (metis prod_cases3)
  show ?thesis using Rpc_Do eq Do_queue [OF eq] by (auto split: option.splits if_splits)
qed (simp_all add: CreateTask_queue)

lemma run_queue_server:
  "run_queue Push Pop (concat (map queue_ops_of rs)) (g_task_queue s) =
     (g_task_queue (fst (server_run env flags rs s)), snd (server_run env flags rs s))"
  by (induction rs arbitrary: s) (simp_all add: run_queue_append step_queue [of _ _ env flags] split_beta Let_def)

section \<open>No task is active without having been dispatched\<close>

definition is_active :: "int option \<Rightarrow> bool" where
  "is_active st \<longleftrightarrow> st \<in> {Some kRunning, Some kUploading, Some kDone}"

text \<open>The statuses by which a task can enter a set of statuses, given as a predicate.\<close>

definition entry :: "(int option \<Rightarrow> bool) \<Rightarrow> int \<Rightarrow> bool" where
  "entry P n \<longleftrightarrow> P (Some n) \<and> (\<exists>old. \<not> P (Some old) \<and> IsTransitionAllowed old n)"

lemma entry_active: "entry is_active n \<longleftrightarrow> n = kRunning"
  by (auto simp: entry_def is_active_def IsTransitionAllowed_def split: if_splits)

lemma entry_done: "entry (\<lambda>st. st = Some kDone) n \<longleftrightarrow> n = kDone"
  by (auto simp: entry_def IsTransitionAllowed_def split: if_splits)

context task_store
begin

lemma update_enters:
  assumes "ready s" and "P (status (update s tid n reason) t)"
  shows "P (status s t) \<or> (t = tid \<and> entry P n)"
proof (cases "t = tid")
  case True
  then show ?thesis
    using update_checked [OF assms(1), of tid n reason] assms(2) by (auto simp: entry_def)
next
  case False
  then show ?thesis using update_other [OF assms(1)] assms(2) by simp
qed

end

definition server_in :: "(int option \<Rightarrow> bool) \<Rightarrow> server_state \<Rightarrow> string \<Rightarrow> bool" where
  "server_in P s tid = (case g_pg s of None \<Rightarrow> False | Some st \<Rightarrow> P (store_status st tid))"

definition server_active :: "server_state \<Rightarrow> string \<Rightarrow> bool" where
  "server_active s tid = server_in is_active s tid"

definition server_ready :: "server_state \<Rightarrow> bool" where
  "server_ready s = (case g_pg s of None \<Rightarrow> True | Some st \<Rightarrow> store_ready st)"

lemma g_pg_with_pg: "g_pg (with_pg f s) = (if pg_available s then map_option f (g_pg s) else g_pg s)"
  by (simp add: with_pg_def)

text \<open>What a call that changes the store may do to the tasks in a set of statuses.\<close>

definition harmless :: "(int option \<Rightarrow> bool) \<Rightarrow> (pg_store \<Rightarrow> pg_store) \<Rightarrow> string set \<Rightarrow> bool" where
  "harmless P f started \<longleftrightarrow>
     (\<forall>st. store_ready st \<longrightarrow> store_ready (f st)
        \<and> (\<forall>tid. P (store_status (f st) tid) \<longrightarrow> P (store_status st tid) \<or> tid \<in> started))"

lemma with_pg_harmless:
  assumes "server_ready s" and "harmless P f started"
  shows "server_ready (with_pg f s)
    \<and> (\<forall>tid. server_in P (with_pg f s) tid \<longrightarrow> server_in P s tid \<or> tid \<in> started)"
  using assms
  by (auto simp: server_ready_def server_in_def harmless_def g_pg_with_pg split: option.splits)

lemma harmless_UpdateTaskStatus:
  "harmless P (\<lambda>p. UpdateTaskStatus env p tid n reason) (if entry P n then {tid} else {})"
  unfolding harmless_def
proof (intro allI impI conjI)
  fix st t assume rdy: "store_ready st"
  show "store_ready (UpdateTaskStatus env st tid n reason)" by (rule pg.ready_update [OF rdy])
  show "P (store_status st t) \<or> t \<in> (if entry P n then {tid} else {})"
    if "P (store_status (UpdateTaskStatus env st tid n reason) t)"
    using pg.update_enters [of st P env tid n reason t] rdy that by auto
qed

lemma status_of_tables: "task_tables d' = task_tables d \<Longrightarrow> status_of d' = status_of d"
  by (rule ext) (simp add: task_tables_def status_of_def sql_select_status_def)

lemma harmless_tables:
  assumes "f None = None"
    and "\<And>c. \<exists>c'. f (Some c) = Some c' \<and> task_tables (db c') = task_tables (db c) \<and> txn c' = txn c"
  shows "harmless P f {}"
  unfolding harmless_def
proof (intro allI impI conjI)
  fix st tid assume rdy: "store_ready st"
  show "store_ready (f st)"
  proof (cases st)
    case (Some c)
    then obtain c' where c': "f st = Some c'" "txn c' = txn c" "task_tables (db c') = task_tables (db c)"
      using assms(2) by blast
    then show ?thesis using rdy Some task_inv_tables [OF c'(3)] by (simp add: store_ready_def)
  qed (simp add: assms(1) store_ready_def)
  show "P (store_status st tid) \<or> tid \<in> {}" if "P (store_status (f st) tid)"
  proof (cases st)
    case None
    then show ?thesis using that assms(1) by simp
  next
    case (Some c)
    then obtain c' where c': "f st = Some c'" "task_tables (db c') = task_tables (db c)" using assms(2) by blast
    show ?thesis using that Some c'(1) status_of_tables [OF c'(2)] by (simp add: store_status_def)
  qed
qed

lemma harmless_UpsertAgent: "harmless P (\<lambda>p. UpsertAgent env p ip hostname uid version) {}"
  by (rule harmless_tables) (simp_all add: UpsertAgent_def UpsertAgent_keeps)

lemma harmless_Scan: "harmless P (\<lambda>p. snd (ScanAgentHeartbeats env p timeout)) {}"
  by (rule harmless_tables) (simp_all add: ScanAgentHeartbeats_def ScanAgentHeartbeats_keeps split_beta)

text \<open>A set of statuses that no call of the API server moves a task into.\<close>

definition api_closed :: "(int option \<Rightarrow> bool) \<Rightarrow> bool" where
  "api_closed P \<longleftrightarrow> \<not> P None \<and> \<not> P (Some kPending) \<and> \<not> P (Some kFailed)"

lemma harmless_api:
  assumes "api_closed P"
  shows "harmless P (map_option (\<lambda>c. c\<lparr>db := api_effect call (db c)\<rparr>)) {}"
  unfolding harmless_def
proof (intro allI impI conjI)
  fix st t assume rdy: "store_ready st"
  show "store_ready (map_option (\<lambda>c. c\<lparr>db := api_effect call (db c)\<rparr>) st)"
    using rdy by (cases st) (simp_all add: store_ready_def api_effect_inv)
  assume P: "P (store_status (map_option (\<lambda>c. c\<lparr>db := api_effect call (db c)\<rparr>) st) t)"
  show "P (store_status st t) \<or> t \<in> {}"
  proof (cases st)
    case (Some c)
    then obtain x where x: "status_of (api_effect call (db c)) t = Some x" "x \<notin> {kPending, kFailed}" "P (Some x)"
      using P assms
      by (cases "status_of (api_effect call (db c)) t") (auto simp: store_status_def api_closed_def)
    then show ?thesis
      using rdy Some api_effect_status [OF _ x(1,2)] by (simp add: store_ready_def store_status_def)
  qed (use P in simp)
qed

definition safe_step :: "(int option \<Rightarrow> bool) \<Rightarrow> server_state \<Rightarrow> server_state \<Rightarrow> string set \<Rightarrow> bool" where
  "safe_step P s s' started \<longleftrightarrow>
     (server_ready s \<longrightarrow> server_ready s'
        \<and> (\<forall>tid. server_in P s' tid \<longrightarrow> server_in P s tid \<or> tid \<in> started))"

lemma safe_step_refl: "g_pg s' = g_pg s \<Longrightarrow> safe_step P s s' T"
  by (simp add: safe_step_def server_ready_def server_in_def)

lemma safe_step_trans: "safe_step P s s1 T \<Longrightarrow> safe_step P s1 s2 U \<Longrightarrow> safe_step P s s2 (T \<union> U)"
  by (auto simp: safe_step_def)

lemma safe_step_mono: "safe_step P s s' T \<Longrightarrow> T \<subseteq> U \<Longrightarrow> safe_step P s s' U"
  by (auto simp: safe_step_def)

lemma safe_step_with_pg: "harmless P f T \<Longrightarrow> g_pg s1 = g_pg s \<Longrightarrow> safe_step P s (with_pg f s1) T"
  using with_pg_harmless [of s1 P f T] by (simp add: safe_step_def server_ready_def server_in_def)

lemmas safe_update = safe_step_with_pg [OF harmless_UpdateTaskStatus]

lemma safe_two_updates:
  "safe_step P s (with_pg (\<lambda>p. UpdateTaskStatus env p tid n' r')
     (with_pg (\<lambda>p. UpdateTaskStatus env p tid n r) s)) (if entry P n \<or> entry P n' then {tid} else {})"
proof -
  let ?s1 = "with_pg (\<lambda>p. UpdateTaskStatus env p tid n r) s"
  have "safe_step P s ?s1 (if entry P n then {tid} else {})" by (rule safe_update) simp
  moreover have "safe_step P ?s1 (with_pg (\<lambda>p. UpdateTaskStatus env p tid n' r') ?s1) (if entry P n' then {tid} else {})"
    by (rule safe_update) simp
  ultimately show ?thesis by (rule safe_step_mono [OF safe_step_trans]) auto
qed

lemma safe_NotifyResult:
  "safe_step P s (snd (NotifyResult env ctx req s))
     (if tr_error_message req = [] then (if entry P kUploading \<or> entry P kDone then {tr_task_id req} else {})
      else (if entry P kFailed then {tr_task_id req} else {}))"
proof (cases "accepted ctx")
  case False
  then show ?thesis by (simp add: NotifyResult_def Let_def accepted_def safe_step_refl)
next
  case True
  show ?thesis
  proof (cases "tr_error_message req = []")
    case err: True
    define r where "r = (if tr_cos_key req \<noteq> [] then reason_uploaded (tr_cos_key req)
        else if file_name (tr_file req) = [] then reason_no_file else reason_file (file_name (tr_file req)))"
    have "snd (NotifyResult env ctx req s) = with_pg (\<lambda>p. UpdateTaskStatus env p (tr_task_id req) kDone r)
        (with_pg (\<lambda>p. UpdateTaskStatus env p (tr_task_id req) kUploading reason_uploading) s)"
      using True err by (simp add: NotifyResult_def Let_def accepted_def r_def)
    then show ?thesis
      using err safe_two_updates [of P s env "tr_task_id req" kDone r kUploading reason_uploading] by simp
  next
    case False
    then have "snd (NotifyResult env ctx req s) =
        with_pg (\<lambda>p. UpdateTaskStatus env p (tr_task_id req) kFailed (tr_error_message req)) s"
      using True by (simp add: NotifyResult_def Let_def accepted_def)
    then show ?thesis
      using False safe_update [of s s P env "tr_task_id req" kFailed "tr_error_message req"] by simp
  qed
qed

lemma safe_StatAgent: "safe_step P s (snd (snd (StatAgent env flags now ctx req s))) {}"
proof -
  have "task_tables (db (snd (exec_stmt env sql_list_agents c))) = task_tables (db c)"
    and "txn (snd (exec_stmt env sql_list_agents c)) = txn c" for c
    by (simp_all add: exec_stmt_def sql_list_agents_def Let_def split: pq_outcome.split)
  then have "harmless P (\<lambda>p. snd (ListAgents env p)) {}"
    by (intro harmless_tables) (auto simp: ListAgents_def split_beta split: option.split)
  from safe_step_with_pg [OF this refl, of s] show ?thesis
    by (auto simp: StatAgent_def Let_def split_beta with_pg_def pg_available_def Connected_def
        safe_step_refl split: option.splits)
qed

lemma safe_Do:
  assumes "HealthCheck_Do env now ctx req s = (st, resp, s')"
  shows "safe_step P s s' (if entry P kRunning then td_task_id ` set (dispatched_in resp) else {})"
proof (cases "accepted ctx")
  case False
  then show ?thesis using assms by (auto simp: HealthCheck_Do_def Let_def accepted_def safe_step_refl)
next
  case True
  let ?up = "\<lambda>p. UpsertAgent env p (hcq_ip_addr req) (hcq_host_name req) (hcq_uid req) (hcq_agent_version req)"
  let ?s2 = "with_pg ?up (s\<lparr>g_hb_tracker := Update (g_hb_tracker s) (hcq_ip_addr req) now\<rparr>)"
  have up: "safe_step P s ?s2 {}" by (rule safe_step_with_pg [OF harmless_UpsertAgent]) simp
  show ?thesis
  proof (cases "Pop (g_task_queue s) (hcq_ip_addr req)")
    case None
    then have "s' = ?s2" using assms True by (auto simp: HealthCheck_Do_def Let_def accepted_def)
    then show ?thesis using safe_step_mono [OF up] by simp
  next
    case (Some p)
    then obtain d q where dq: "Pop (g_task_queue s) (hcq_ip_addr req) = Some (d, q)" by (cases p) auto
    have resp: "dispatched_in resp = [d]" using Do_queue [OF assms] dq True by simp
    have "s' = with_pg (\<lambda>p. UpdateTaskStatus env p (td_task_id d) kRunning reason_running)
        (?s2\<lparr>g_task_queue := q\<rparr>)"
      using assms True dq by (auto simp: HealthCheck_Do_def Let_def accepted_def)
    then have "safe_step P ?s2 s' (if entry P kRunning then {td_task_id d} else {})"
      using safe_update [of "?s2\<lparr>g_task_queue := q\<rparr>" ?s2 P env "td_task_id d" kRunning reason_running] by simp
    from safe_step_trans [OF up this] show ?thesis by (cases "entry P kRunning") (simp_all add: resp)
  qed
qed

text \<open>The tasks that a call may bring into the set: those it dispatches, or the one it reports.\<close>

fun entered_by :: "(int option \<Rightarrow> bool) \<Rightarrow> rpc \<Rightarrow> (string \<times> task_desc) list \<Rightarrow> string set" where
  "entered_by P (Rpc_NotifyResult ctx req) out =
     (if tr_error_message req = [] then (if entry P kUploading \<or> entry P kDone then {tr_task_id req} else {})
      else (if entry P kFailed then {tr_task_id req} else {}))"
| "entered_by P r out = (if entry P kRunning then (td_task_id \<circ> snd) ` set out else {})"

lemma step_safe:
  assumes "api_closed P"
  shows "safe_step P s (fst (server_step env flags r s)) (entered_by P r (snd (server_step env flags r s)))"
proof (cases r)
  case (Rpc_Do now ctx req)
  obtain st resp s' where eq: "HealthCheck_Do env now ctx req s = (st, resp, s')" by (metis prod_cases3)
  show ?thesis using Rpc_Do eq safe_Do [OF eq, of P] by (cases "entry P kRunning") (simp_all add: image_image)
next
  case (Rpc_RegisterAgent ctx req)
  then show ?thesis
    using safe_step_with_pg [OF harmless_UpsertAgent, of s s]
    by (simp add: RegisterAgent_def Let_def safe_step_refl)
next
  case (Rpc_NotifyResult ctx req)
  then show ?thesis using safe_NotifyResult by simp
qed (use safe_step_with_pg [OF harmless_Scan, of s s] safe_step_with_pg [OF harmless_api [OF assms], of s s] in
  \<open>simp_all add: safe_StatAgent safe_step_refl Collect_def CreateTask_def FetchData_def
     FetchConfig_def HeartbeatScanner_body_def Let_def\<close>)

lemma step_safe_active:
  "safe_step is_active s (fst (server_step env flags r s)) ((td_task_id \<circ> snd) ` set (snd (server_step env flags r s)))"
proof -
  have "api_closed is_active" by (simp add: api_closed_def is_active_def)
  moreover have "entered_by is_active r out \<subseteq> (td_task_id \<circ> snd) ` set out" for out
    by (cases r) (auto simp: entry_active)
  ultimately show ?thesis using safe_step_mono [OF step_safe] by blast
qed

lemma run_safe:
  "safe_step is_active s (fst (server_run env flags rs s))
     ((td_task_id \<circ> snd) ` set (snd (server_run env flags rs s)))"
proof (induction rs arbitrary: s)
  case (Cons r rs)
  show ?case
    using safe_step_trans [OF step_safe_active [of s env flags r] Cons.IH]
    by (simp add: split_beta Let_def image_Un)
qed (simp add: safe_step_refl)

section \<open>Properties\<close>

text \<open>
  C5. Task dispatch is exactly once and in order.  Over any sequence of RPCs and scanner ticks,
  with any database failures, the tasks handed to an agent in heartbeat responses, followed by
  those still queued for it, are the tasks queued for it at the start followed by the tasks of
  the CreateTask calls for its IP that were not rejected, in that order.
\<close>

theorem dispatch_exactly_once:
  assumes "server_run env flags rs s = (s', out)"
  shows "for_key ip out @ queued (g_task_queue s') ip
       = queued (g_task_queue s) ip @ for_key ip (concat (map created_by rs))"
  using tq.run_conserves [OF run_queue_server [of rs s env flags], of ip] assms
  by (simp add: enqueued_concat)

definition sample_ctx :: server_context where
  "sample_ctx = \<lparr>ctx_cancelled = False, ctx_deadline = 100, ctx_now = 50\<rparr>"

definition sample_hcq :: "string \<Rightarrow> health_check_request" where
  "sample_hcq ip = \<lparr>hcq_host_name = ''h'', hcq_ip_addr = ip, hcq_uid = ''u'', hcq_agent_version = ''1'',
     hcq_self_pstats = None, hcq_children_pstats = None\<rparr>"

definition sample_create :: "string \<Rightarrow> string \<Rightarrow> rpc" where
  "sample_create ip tid = Rpc_CreateTask sample_ctx
     \<lparr>ctq_target_ip = ip, ctq_service = [], ctq_task_desc = sample_task tid\<rparr>"

definition sample_server :: server_state where
  "sample_server = \<lparr>g_task_queue = empty_task_queue, g_hb_tracker = empty_tracker, g_pg = Some (Some fresh_conn)\<rparr>"

theorem dispatch_exactly_once_witness:
  "let (s', out) = server_run sample_env default_flags
       [sample_create ''10.0.0.1'' ''task00000001'', sample_create ''10.0.0.1'' ''t2'',
        Rpc_Do 0 sample_ctx (sample_hcq ''10.0.0.1'')] sample_server
   in for_key ''10.0.0.1'' out @ queued (g_task_queue s') ''10.0.0.1'' = [sample_task ''task00000001'', sample_task ''t2'']"
  using dispatch_exactly_once [of sample_env default_flags
      "[sample_create ''10.0.0.1'' ''task00000001'', sample_create ''10.0.0.1'' ''t2'',
        Rpc_Do 0 sample_ctx (sample_hcq ''10.0.0.1'')]" sample_server _ _ "''10.0.0.1''"]
  by (auto simp: sample_create_def sample_server_def accepted_iff sample_ctx_def)

text \<open>
  C4. No task is active without a dispatch.  Starting with an empty queue and a store in which no
  task is active, after any sequence of RPCs, scanner ticks and task insertions under any
  database failures, a task whose stored status is RUNNING, UPLOADING or DONE was handed to an
  agent in a heartbeat response, and was created by an accepted CreateTask for that agent: a
  result reported for a task that was never dispatched, or a failed statement, cannot make it so.
\<close>

theorem active_task_was_dispatched:
  assumes "server_ready s" and "\<And>tid. \<not> server_active s tid" and "g_task_queue s = empty_task_queue"
    and "server_run env flags rs s = (s', out)" and "server_active s' tid"
  shows "\<exists>ip d. (ip, d) \<in> set out \<and> td_task_id d = tid \<and> (ip, d) \<in> set (concat (map created_by rs))"
proof -
  have "tid \<in> (td_task_id \<circ> snd) ` set out"
    using run_safe [of s env flags rs] assms(1,2,4,5) by (auto simp: safe_step_def server_active_def)
  then obtain ip d where d: "(ip, d) \<in> set out" "td_task_id d = tid" by auto
  have "for_key ip out @ queued (g_task_queue s') ip = for_key ip (concat (map created_by rs))"
    using tq.run_conserves [OF run_queue_server [of rs s env flags], of ip] assms(3,4)
    by (simp add: enqueued_concat)
  moreover have "d \<in> set (for_key ip out)" using d(1) by (force simp: for_key_def)
  ultimately have "d \<in> set (for_key ip (concat (map created_by rs)))"
    by (metis Un_iff set_append)
  then have "(ip, d) \<in> set (concat (map created_by rs))" by (auto simp: for_key_def)
  with d show ?thesis by blast
qed

definition sample_rpcs :: "rpc list" where
  "sample_rpcs = [Api_Call sample_create_call, sample_create ''10.0.0.1'' ''task00000001'',
     Rpc_Do 0 sample_ctx (sample_hcq ''10.0.0.1''),
     Rpc_NotifyResult sample_ctx (default_task_result\<lparr>tr_task_id := ''task00000001''\<rparr>)]"

theorem active_task_was_dispatched_witness:
  "\<exists>ip d. (ip, d) \<in> set (snd (server_run sample_env default_flags sample_rpcs sample_server))
     \<and> td_task_id d = ''task00000001'' \<and> (ip, d) \<in> set (concat (map created_by sample_rpcs))"
proof -
  let ?r = "server_run sample_env default_flags sample_rpcs sample_server"
  have "server_ready sample_server" and "\<not> server_active sample_server tid"
    and "g_task_queue sample_server = empty_task_queue" for tid
    by (simp_all add: server_ready_def server_active_def server_in_def sample_server_def store_ready_def is_active_def
        store_status_def) (simp add: fresh_conn_def empty_db_def status_of_def sql_select_status_def)
  moreover have "server_active (fst ?r) ''task00000001''" by code_simp
  ultimately show ?thesis
    using active_task_was_dispatched [of sample_server sample_env default_flags sample_rpcs
        "fst ?r" "snd ?r" "''task00000001''"] by simp
qed

definition server_status :: "server_state \<Rightarrow> string \<Rightarrow> int option" where
  "server_status s tid = (case g_pg s of None \<Rightarrow> None | Some st \<Rightarrow> store_status st tid)"

definition after_result :: "bool \<Rightarrow> int \<Rightarrow> int" where
  "after_result success old =
     (if success then (if old = kRunning \<or> old = kUploading then kDone else old)
      else (if old = kPending \<or> old = kRunning \<or> old = kUploading then kFailed else old))"

lemma notify_pg:
  assumes "accepted ctx" and "g_pg s = Some (Some c)"
  shows "\<exists>r. g_pg (snd (NotifyResult env ctx req s)) =
     Some (if tr_error_message req = []
           then UpdateTaskStatus env
                  (UpdateTaskStatus env (Some c) (tr_task_id req) kUploading reason_uploading)
                  (tr_task_id req) kDone r
           else UpdateTaskStatus env (Some c) (tr_task_id req) kFailed (tr_error_message req))"
  using assms
  by (auto simp: NotifyResult_def Let_def accepted_def g_pg_with_pg pg_available_def Connected_def
      UpdateTaskStatus_def)

lemma update_status_ok:
  assumes "all_ok env" and "store_ready st"
  shows "store_status (UpdateTaskStatus env st tid n r) t =
    (if t = tid
     then map_option (\<lambda>old. if IsTransitionAllowed old n then n else old) (store_status st t)
     else store_status st t)"
  using pg_ok.update_exact [of st env tid n r] pg.update_other [of st t tid env n r] assms
  by (auto simp: reliable_id split: option.splits)

lemma two_updates_status_ok:
  assumes "all_ok env" and "store_ready st"
  shows "store_status (UpdateTaskStatus env (UpdateTaskStatus env st tid kUploading r) tid kDone r') t =
    (if t = tid then map_option (after_result True) (store_status st t) else store_status st t)"
  using update_status_ok [OF assms, of tid kUploading r t]
    update_status_ok [OF assms(1) pg.ready_update [OF assms(2)], of env tid kUploading r tid kDone r' t]
  by (cases "store_status st t") (auto simp: after_result_def IsTransitionAllowed_def)

lemma NotifyResult_status:
  assumes "all_ok env" and "server_ready s"
  shows "server_status (snd (NotifyResult env ctx req s)) t =
    (if accepted ctx \<and> t = tr_task_id req
     then map_option (after_result (tr_error_message req = [])) (server_status s t)
     else server_status s t)"
proof (cases "accepted ctx \<and> (\<exists>c. g_pg s = Some (Some c))")
  case True
  then obtain c where acc: "accepted ctx" and c: "g_pg s = Some (Some c)" by blast
  from c assms(2) have rdy: "store_ready (Some c)" by (simp add: server_ready_def)
  obtain r where "g_pg (snd (NotifyResult env ctx req s)) =
     Some (if tr_error_message req = []
           then UpdateTaskStatus env
                  (UpdateTaskStatus env (Some c) (tr_task_id req) kUploading reason_uploading)
                  (tr_task_id req) kDone r
           else UpdateTaskStatus env (Some c) (tr_task_id req) kFailed (tr_error_message req))"
    using notify_pg [OF acc c] by blast
  then show ?thesis
    using acc c two_updates_status_ok [OF assms(1) rdy] update_status_ok [OF assms(1) rdy]
    by (cases "store_status (Some c) t")
      (auto simp: server_status_def after_result_def IsTransitionAllowed_def)
next
  case False
  then have "g_pg (snd (NotifyResult env ctx req s)) = g_pg s" and
    "server_status s t = None \<or> \<not> accepted ctx"
    by (auto simp: NotifyResult_def Let_def accepted_def with_pg_def pg_available_def Connected_def
        server_status_def store_status_def split: option.splits)
  then show ?thesis by (auto simp: server_status_def)
qed

text \<open>
  C10. What NotifyResult does to a task, when the database answers.  A call that is not rejected
  and carries no error message takes a task from RUNNING or UPLOADING to DONE and leaves a task
  in any other status alone, whichever of the three success branches it takes; with an error
  message it takes a PENDING, RUNNING or UPLOADING task to FAILED and leaves the others alone;
  it never creates a task and never touches another one.  A rejected call changes nothing.
\<close>

theorem NotifyResult_effect:
  assumes "all_ok env" and "server_ready s"
  shows "server_status (snd (NotifyResult env ctx req s)) t =
    (if accepted ctx \<and> t = tr_task_id req
     then map_option (after_result (tr_error_message req = [])) (server_status s t)
     else server_status s t)"
  by (rule NotifyResult_status [OF assms])

theorem NotifyResult_effect_witness:
  "let s = fst (server_run sample_env default_flags (take 3 sample_rpcs) sample_server)
   in server_status s ''task00000001'' = Some kRunning
      \<and> server_status (snd (NotifyResult sample_env sample_ctx
            (default_task_result\<lparr>tr_task_id := ''task00000001'', tr_cos_key := ''k''\<rparr>) s)) ''task00000001'' = Some kDone
      \<and> server_status (snd (NotifyResult sample_env sample_ctx
            (default_task_result\<lparr>tr_task_id := ''task00000001'', tr_error_message := ''boom''\<rparr>) s)) ''task00000001'' = Some kFailed"
proof -
  define s where "s = fst (server_run sample_env default_flags (take 3 sample_rpcs) sample_server)"
  have rdy: "server_ready s" and st: "server_status s ''task00000001'' = Some kRunning"
    unfolding s_def by code_simp+
  have acc: "accepted sample_ctx" by (simp add: accepted_iff sample_ctx_def)
  show ?thesis
    using NotifyResult_effect [OF sample_env_ok(1) rdy, of sample_ctx
        "default_task_result\<lparr>tr_task_id := ''task00000001'', tr_cos_key := ''k''\<rparr>" "''task00000001''"]
      NotifyResult_effect [OF sample_env_ok(1) rdy, of sample_ctx
        "default_task_result\<lparr>tr_task_id := ''task00000001'', tr_error_message := ''boom''\<rparr>" "''task00000001''"]
      st acc unfolding s_def [symmetric] Let_def
    by (simp add: default_task_result_def after_result_def)
qed

text \<open>
  The agent list of StatAgent.  Without a usable store it is the tracker's view: one entry
  for each IP that ever sent an accepted heartbeat (or only the requested one), online exactly
  when IsOnline says so at the time of the call; with a store that answers it is the agent table
  in id order, filtered by the requested IP.
\<close>

theorem StatAgent_lists:
  assumes "accepted ctx" and "tracker_wf (g_hb_tracker s)"
  shows "(\<not> pg_available s \<longrightarrow>
      (\<forall>a. a \<in> set (sar_agents (fst (snd (StatAgent env flags (\<lambda>_. t) ctx req s)))) \<longleftrightarrow>
         (\<exists>ip. a = info_of_tracker (ip, IsOnline (g_hb_tracker s) ip (FLAGS_hb_timeout flags) t)
             \<and> ip \<in> dom (map_of (last_hb (g_hb_tracker s)))
             \<and> (saq_target_ip req = [] \<or> ip = saq_target_ip req))))
    \<and> (g_pg s = Some (Some c) \<and> all_ok env \<longrightarrow>
         map ai_ip_addr (sar_agents (fst (snd (StatAgent env flags now ctx req s))))
           = filter (\<lambda>ip. saq_target_ip req = [] \<or> ip = saq_target_ip req)
               (map ag_ip_addr (sort_key ag_id (agent_info_tbl (db c)))))"
proof (intro conjI impI allI)
  fix a assume no: "\<not> pg_available s"
  have "(ip, b) \<in> set (AllAgents (g_hb_tracker s) n (\<lambda>_. t)) \<longleftrightarrow>
      ip \<in> dom (map_of (last_hb (g_hb_tracker s))) \<and> b = IsOnline (g_hb_tracker s) ip n t" for ip b n
    by (rule AllAgents_IsOnline [OF assms(2)])
  then show "a \<in> set (sar_agents (fst (snd (StatAgent env flags (\<lambda>_. t) ctx req s)))) \<longleftrightarrow>
         (\<exists>ip. a = info_of_tracker (ip, IsOnline (g_hb_tracker s) ip (FLAGS_hb_timeout flags) t)
             \<and> ip \<in> dom (map_of (last_hb (g_hb_tracker s)))
             \<and> (saq_target_ip req = [] \<or> ip = saq_target_ip req))"
    using no assms(1)
    by (auto simp: StatAgent_def Let_def accepted_def pg_available_def Connected_def image_iff Bex_def
        split: option.splits)
next
  assume "g_pg s = Some (Some c) \<and> all_ok env"
  then show "map ai_ip_addr (sar_agents (fst (snd (StatAgent env flags now ctx req s))))
           = filter (\<lambda>ip. saq_target_ip req = [] \<or> ip = saq_target_ip req)
               (map ag_ip_addr (sort_key ag_id (agent_info_tbl (db c))))"
    using assms(1)
    by (simp add: StatAgent_def Let_def accepted_def ListAgents_def exec_stmt_ok sql_list_agents_def
        filter_map comp_def info_of_record_def)
qed

theorem StatAgent_lists_witness:
  "info_of_tracker (''10.0.0.1'', True) \<in>
     set (sar_agents (fst (snd (StatAgent sample_env default_flags (\<lambda>_. 5) sample_ctx \<lparr>saq_target_ip = []\<rparr>
       \<lparr>g_task_queue = empty_task_queue, g_hb_tracker = Update empty_tracker ''10.0.0.1'' 0, g_pg = None\<rparr>))))"
proof -
  let ?s = "\<lparr>g_task_queue = empty_task_queue, g_hb_tracker = Update empty_tracker ''10.0.0.1'' 0, g_pg = None\<rparr>"
  have acc: "accepted sample_ctx" by (simp add: accepted_iff sample_ctx_def)
  have wf: "tracker_wf (g_hb_tracker ?s)" by simp
  have onl: "IsOnline (Update empty_tracker ''10.0.0.1'' 0) ''10.0.0.1'' 30 5" by code_simp
  have "\<exists>ip. info_of_tracker (''10.0.0.1'', True) =
      info_of_tracker (ip, IsOnline (g_hb_tracker ?s) ip (FLAGS_hb_timeout default_flags) 5)
      \<and> ip \<in> dom (map_of (last_hb (g_hb_tracker ?s)))"
    by (rule exI [of _ "''10.0.0.1''"]) (simp add: onl default_flags_def)
  then show ?thesis
    using StatAgent_lists [OF acc wf, of sample_env default_flags 5 "\<lparr>saq_target_ip = []\<rparr>"]
    by (simp add: pg_available_def)
qed

end
