(* ===== verification/System.thy ===== *)
theory System
  imports AgentProofs DropServerProofs "HOL-Library.Sublist"
begin

text \<open>
  The server and one agent together, over a network that may lose a request or its answer at any
  call.  The other clients of the server (the API server, other agents' registrations, the
  scanner) take any steps in between.
\<close>

section \<open>Steps\<close>

text \<open>\<open>sy_created\<close> and \<open>sy_out\<close> are ghosts: the tasks accepted by CreateTask and those handed out, with their targets.\<close>

record 'ch system =
  sy_server :: server_state
  sy_agent :: "'ch agent_state"
  sy_created :: "(string \<times> task_desc) list"
  sy_out :: "(string \<times> task_desc) list"

text \<open>The calls that only agents make.\<close>

fun from_agent :: "rpc \<Rightarrow> bool" where
  "from_agent (Rpc_Do now ctx req) = True"
| "from_agent (Rpc_NotifyResult ctx req) = True"
| "from_agent r = False"

text \<open>What the agent sees of a heartbeat call whose answer reaches it or not.\<close>

definition seen :: "bool \<Rightarrow> grpc_status \<times> health_check_response \<times> server_state \<Rightarrow> health_check_response option" where
  "seen received r = (if received \<and> fst (fst r) = OK then Some (fst (snd r)) else None)"

definition network :: "health_check_response option \<Rightarrow> bool \<Rightarrow> 'ch rpc_env" where
  "network answer reg = \<lparr>rpc_do = (\<lambda>_ _ _. answer), rpc_register = (\<lambda>_ _ _. reg)\<rparr>"

text \<open>A report that reaches the server or is lost.\<close>

definition delivered :: "pq_env \<Rightarrow> server_context option \<Rightarrow> task_result \<Rightarrow> server_state \<Rightarrow> server_state" where
  "delivered penv ctx result s = (case ctx of None \<Rightarrow> s | Some c \<Rightarrow> snd (NotifyResult penv c result s))"

inductive system_step ::
  "pq_env \<Rightarrow> server_flags \<Rightarrow> agent_env \<Rightarrow> (string \<Rightarrow> 'ch) \<Rightarrow> agent_flags \<Rightarrow> 'ch system \<Rightarrow> 'ch system \<Rightarrow> bool"
  for penv sflags env create_channel flags where
  client: "\<not> from_agent r \<Longrightarrow>
    system_step penv sflags env create_channel flags y
      (y\<lparr>sy_server := fst (server_step penv sflags r (sy_server y)), sy_created := sy_created y @ created_by r\<rparr>)"
| idle: "ag_hb (sy_agent y) \<noteq> Hb_beat \<Longrightarrow>
    heartbeat_step env create_channel (network None False) flags (sy_agent y) = Returns a \<Longrightarrow>
    system_step penv sflags env create_channel flags y (y\<lparr>sy_agent := a\<rparr>)"
| beat_lost: "ag_hb (sy_agent y) = Hb_beat \<Longrightarrow>
    heartbeat_step env create_channel (network None False) flags (sy_agent y) = Returns a \<Longrightarrow>
    system_step penv sflags env create_channel flags y (y\<lparr>sy_agent := a\<rparr>)"
| beat: "ag_hb (sy_agent y) = Hb_beat \<Longrightarrow> beat_stats env (sy_agent y) = Inr (ps, mem) \<Longrightarrow>
    HealthCheck_Do penv now ctx (heartbeat_request flags ps) (sy_server y) = (st, resp, s1) \<Longrightarrow>
    heartbeat_step env create_channel (network (seen received (st, resp, s1)) reg) flags (sy_agent y) = Returns a \<Longrightarrow>
    s2 = s1 \<or> s2 = snd (snd (RegisterAgent penv rctx (register_request flags) s1)) \<Longrightarrow>
    system_step penv sflags env create_channel flags y
      (y\<lparr>sy_server := s2, sy_agent := a,
         sy_out := sy_out y @ map (\<lambda>d. (FLAGS_ip flags, d)) (dispatched_in resp)\<rparr>)"
| work: "\<nexists>result. ag_wk (sy_agent y) = Wk_report result \<Longrightarrow> worker_step env flags (sy_agent y) = Returns a \<Longrightarrow>
    system_step penv sflags env create_channel flags y (y\<lparr>sy_agent := a\<rparr>)"
| report: "ag_wk (sy_agent y) = Wk_report result \<Longrightarrow> worker_step env flags (sy_agent y) = Returns a \<Longrightarrow>
    system_step penv sflags env create_channel flags y
      (y\<lparr>sy_server := delivered penv ctx' result (sy_server y), sy_agent := a\<rparr>)"
| run_continuous: "r \<in> set (ag_runners (sy_agent y)) \<Longrightarrow>
    continuous_runner fuel env flags stop r (sy_agent y) = Returns a \<Longrightarrow>
    system_step penv sflags env create_channel flags y
      (y\<lparr>sy_server := delivered penv ctx' (snd (last (ag_notified a))) (sy_server y), sy_agent := a\<rparr>)"
| stopping: "system_step penv sflags env create_channel flags y (y\<lparr>sy_agent := SignalHandler (sy_agent y)\<rparr>)"

inductive system_reachable ::
  "pq_env \<Rightarrow> server_flags \<Rightarrow> agent_env \<Rightarrow> (string \<Rightarrow> 'ch) \<Rightarrow> agent_flags \<Rightarrow> 'ch system \<Rightarrow> 'ch system \<Rightarrow> bool"
  for penv sflags env create_channel flags y0 where
  here: "system_reachable penv sflags env create_channel flags y0 y0"
| next_step: "system_reachable penv sflags env create_channel flags y0 y \<Longrightarrow>
    system_step penv sflags env create_channel flags y y' \<Longrightarrow>
    system_reachable penv sflags env create_channel flags y0 y'"

section \<open>The agent of the system is an agent\<close>

lemma system_agent:
  assumes "system_step penv sflags env mk flags y y'" and "threads_inv mk (sy_agent y)"
  shows "threads_inv mk (sy_agent y')"
  using assms
proof cases
  case (client r)
  then show ?thesis using assms(2) by simp
next
  case (idle a)
  then show ?thesis using inv_heartbeat assms(2) by simp
next
  case (beat_lost a)
  then show ?thesis using inv_heartbeat assms(2) by simp
next
  case (beat ps mem now ctx st resp s1 received reg a s2 rctx)
  then show ?thesis using inv_heartbeat assms(2) by simp
next
  case (work a)
  then show ?thesis using inv_worker assms(2) by simp
next
  case (report result a ctx')
  then show ?thesis using inv_worker assms(2) by simp
next
  case (run_continuous r fuel stop a ctx')
  then show ?thesis using inv_runner assms(2) by simp
next
  case stopping
  then show ?thesis using inv_step [OF signal] assms(2) by simp
qed

section \<open>Where tasks are between the two programs\<close>

definition dispatch_inv :: "'ch system \<Rightarrow> bool" where
  "dispatch_inv y \<longleftrightarrow>
     (\<forall>ip. for_key ip (sy_out y) @ queued (g_task_queue (sy_server y)) ip = for_key ip (sy_created y))"

definition accepted_inv :: "string \<Rightarrow> 'ch system \<Rightarrow> bool" where
  "accepted_inv ip y \<longleftrightarrow> subseq (wk_accepted (ag_worker (sy_agent y))) (for_key ip (sy_out y))"

definition done_inv :: "'ch system \<Rightarrow> bool" where
  "done_inv y \<longleftrightarrow> server_ready (sy_server y)
     \<and> (\<forall>tid. server_in (\<lambda>st. st = Some kDone) (sy_server y) tid \<longrightarrow>
          (\<exists>n \<in> set (ag_notified (sy_agent y)). tr_task_id (snd n) = tid \<and> tr_error_message (snd n) = []))"

lemma for_key_append: "for_key k (xs @ ys) = for_key k xs @ for_key k ys"
  by (simp add: for_key_def)

text \<open>What a heartbeat and the other steps of the agent change.\<close>

lemma heartbeat_effect:
  assumes "heartbeat_step env mk (network answer reg) flags a = Returns a'"
  shows "ag_notified a' = ag_notified a \<and> ag_wk a' = ag_wk a \<and>
    (wk_accepted (ag_worker a') = wk_accepted (ag_worker a) \<or>
     (\<exists>resp d. answer = Some resp \<and> hcr_task_desc resp = Some d
        \<and> wk_accepted (ag_worker a') = wk_accepted (ag_worker a) @ [d]))"
  using assms
  by (cases rule: heartbeat_step_cases)
    (auto simp: heartbeat_failed_def heartbeat_ok_def push_task_def network_def Let_def split: option.split)

lemma worker_effect:
  assumes "worker_step env flags a = Returns a'"
  shows "wk_accepted (ag_worker a') = wk_accepted (ag_worker a)
    \<and> ag_notified a' = ag_notified a
        @ (case ag_wk a of Wk_report result \<Rightarrow> [(GetChannel (ag_pool a), result)] | _ \<Rightarrow> [])"
  using assms
  by (auto simp: worker_step_def worker_take_def worker_execute_def start_continuous_def notify_def Let_def
      split: worker_pc.splits list.splits if_splits)

lemma runner_effect:
  assumes "continuous_runner fuel env flags stop r a = Returns a'"
  shows "wk_accepted (ag_worker a') = wk_accepted (ag_worker a)
    \<and> (\<exists>n. ag_notified a' = ag_notified a @ [n])"
  using assms by (auto simp: continuous_runner_def notify_def Let_def split: prod.splits)

text \<open>What the calls change in the server.\<close>

lemma queue_step:
  assumes "server_step penv sflags r s = (s', out)"
  shows "for_key ip out @ queued (g_task_queue s') ip = queued (g_task_queue s) ip @ for_key ip (created_by r)"
  using tq.run_conserves [of "queue_ops_of r" "g_task_queue s" "g_task_queue s'" out ip] step_queue [of r s penv sflags] assms
  by (simp add: enqueued_queue_ops)

lemma client_out: "\<not> from_agent r \<Longrightarrow> snd (server_step penv sflags r s) = []"
  by (cases r) simp_all

lemma done_step_client:
  assumes "\<not> from_agent r"
  shows "safe_step (\<lambda>st. st = Some kDone) s (fst (server_step penv sflags r s)) {}"
proof -
  have "entered_by (\<lambda>st. st = Some kDone) r [] = {}" using assms by (cases r) auto
  then show ?thesis using step_safe [of "\<lambda>st. st = Some kDone" s penv sflags r] client_out [OF assms]
    by (simp add: api_closed_def)
qed

lemma done_step_beat:
  assumes "HealthCheck_Do penv now ctx req s = (st, resp, s1)"
    and "s2 = s1 \<or> s2 = snd (snd (RegisterAgent penv rctx rreq s1))"
  shows "safe_step (\<lambda>st. st = Some kDone) s s2 {}"
proof -
  have "safe_step (\<lambda>st. st = Some kDone) s s1 {}"
    using safe_Do [OF assms(1), of "\<lambda>st. st = Some kDone"] by (simp add: entry_done)
  moreover have "safe_step (\<lambda>st. st = Some kDone) s1 s2 {}"
    using assms(2) safe_step_refl [of s1 s1] done_step_client [of "Rpc_RegisterAgent rctx rreq" s1 penv default_flags] by auto
  ultimately show ?thesis using safe_step_trans by fastforce
qed

lemma done_step_delivered:
  "safe_step (\<lambda>st. st = Some kDone) s (delivered penv ctx result s)
     (if tr_error_message result = [] then {tr_task_id result} else {})"
proof (cases ctx)
  case None
  then show ?thesis by (simp add: delivered_def safe_step_refl)
next
  case (Some c)
  then show ?thesis
    using safe_NotifyResult [of "\<lambda>st. st = Some kDone" s penv c result]
    by (cases "tr_error_message result = []") (simp_all add: delivered_def entry_done)
qed

lemma done_inv_step:
  assumes "done_inv y" and "safe_step (\<lambda>st. st = Some kDone) (sy_server y) (sy_server y') T"
    and "set (ag_notified (sy_agent y)) \<subseteq> set (ag_notified (sy_agent y'))"
    and "\<And>tid. tid \<in> T \<Longrightarrow>
      \<exists>n \<in> set (ag_notified (sy_agent y')). tr_task_id (snd n) = tid \<and> tr_error_message (snd n) = []"
  shows "done_inv y'"
  unfolding done_inv_def
proof (intro conjI allI impI)
  show "server_ready (sy_server y')" using assms(1,2) by (simp add: done_inv_def safe_step_def)
  fix tid assume "server_in (\<lambda>st. st = Some kDone) (sy_server y') tid"
  then have "server_in (\<lambda>st. st = Some kDone) (sy_server y) tid \<or> tid \<in> T"
    using assms(1,2) by (auto simp: done_inv_def safe_step_def)
  then show "\<exists>n \<in> set (ag_notified (sy_agent y')). tr_task_id (snd n) = tid \<and> tr_error_message (snd n) = []"
    using assms(1,3,4) unfolding done_inv_def by blast
qed

lemma dispatch_inv_client:
  assumes "dispatch_inv y" and "\<not> from_agent r"
  shows "dispatch_inv (y\<lparr>sy_server := fst (server_step penv sflags r (sy_server y)), sy_created := sy_created y @ created_by r\<rparr>)"
proof -
  have "queued (g_task_queue (fst (server_step penv sflags r (sy_server y)))) ip
      = queued (g_task_queue (sy_server y)) ip @ for_key ip (created_by r)" for ip
    using queue_step [of penv sflags r "sy_server y"] client_out [OF assms(2), of penv sflags "sy_server y"]
    by (cases "server_step penv sflags r (sy_server y)") (simp add: for_key_def)
  then show ?thesis using assms(1) by (simp add: dispatch_inv_def for_key_append flip: append_assoc)
qed

lemma queue_beat:
  assumes "HealthCheck_Do penv now ctx req s = (st, resp, s1)"
  shows "for_key ip (map (\<lambda>d. (hcq_ip_addr req, d)) (dispatched_in resp)) @ queued (g_task_queue s1) ip
    = queued (g_task_queue s) ip"
  using queue_step [of penv default_flags "Rpc_Do now ctx req" s s1 "map (\<lambda>d. (hcq_ip_addr req, d)) (dispatched_in resp)" ip] assms
  by (simp add: for_key_def)

lemma dispatch_inv_beat:
  assumes "dispatch_inv y"
    and "HealthCheck_Do penv now ctx (heartbeat_request flags ps) (sy_server y) = (st, resp, s1)"
    and "s2 = s1 \<or> s2 = snd (snd (RegisterAgent penv rctx rreq s1))"
  shows "dispatch_inv (y\<lparr>sy_server := s2, sy_agent := a, sy_out := sy_out y @ map (\<lambda>d. (FLAGS_ip flags, d)) (dispatched_in resp)\<rparr>)"
proof -
  have "g_task_queue s2 = g_task_queue s1" using assms(3) by auto
  then have q: "for_key ip (map (\<lambda>d. (FLAGS_ip flags, d)) (dispatched_in resp)) @ queued (g_task_queue s2) ip
      = queued (g_task_queue (sy_server y)) ip" for ip
    using queue_beat [OF assms(2), of ip] by (simp add: heartbeat_request_def)
  then show ?thesis using assms(1) by (simp add: dispatch_inv_def for_key_append)
qed

lemma delivered_queue [simp]: "g_task_queue (delivered penv ctx result s) = g_task_queue s"
  by (simp add: delivered_def split: option.split)

lemma accepted_inv_beat:
  assumes "accepted_inv (FLAGS_ip flags) y"
    and "heartbeat_step env mk (network (seen received (st, resp, s1)) reg) flags (sy_agent y) = Returns a"
  shows "subseq (wk_accepted (ag_worker a))
    (for_key (FLAGS_ip flags) (sy_out y @ map (\<lambda>d. (FLAGS_ip flags, d)) (dispatched_in resp)))"
proof -
  have "wk_accepted (ag_worker a) = wk_accepted (ag_worker (sy_agent y)) \<or>
      wk_accepted (ag_worker a) = wk_accepted (ag_worker (sy_agent y)) @ dispatched_in resp"
    using heartbeat_effect [OF assms(2)] by (auto simp: seen_def dispatched_in_def split: if_splits)
  moreover have "for_key (FLAGS_ip flags) (map (\<lambda>d. (FLAGS_ip flags, d)) (dispatched_in resp)) = dispatched_in resp"
    by (simp add: for_key_def filter_map comp_def)
  ultimately show ?thesis
    using assms(1) by (auto simp: accepted_inv_def for_key_append intro: list_emb_append_mono list_emb_prefix)
qed

text \<open>The three invariants between the programs.\<close>

definition between :: "string \<Rightarrow> 'ch system \<Rightarrow> bool" where
  "between ip y \<longleftrightarrow> dispatch_inv y \<and> accepted_inv ip y \<and> done_inv y"

lemma between_agent_only:
  assumes "between ip y" and "wk_accepted (ag_worker a) = wk_accepted (ag_worker (sy_agent y))"
    and "ag_notified a = ag_notified (sy_agent y)"
  shows "between ip (y\<lparr>sy_agent := a\<rparr>)"
  using assms by (simp add: between_def dispatch_inv_def accepted_inv_def done_inv_def)

lemma between_reported:
  assumes "between ip y" and "wk_accepted (ag_worker a) = wk_accepted (ag_worker (sy_agent y))"
    and "ag_notified a = ag_notified (sy_agent y) @ [n]"
  shows "between ip (y\<lparr>sy_server := delivered penv ctx (snd n) (sy_server y), sy_agent := a\<rparr>)"
proof -
  let ?y = "y\<lparr>sy_server := delivered penv ctx (snd n) (sy_server y), sy_agent := a\<rparr>"
  have "done_inv y" using assms(1) by (simp add: between_def)
  moreover have "safe_step (\<lambda>st. st = Some kDone) (sy_server y) (sy_server ?y)
      (if tr_error_message (snd n) = [] then {tr_task_id (snd n)} else {})"
    using done_step_delivered by simp
  ultimately have "done_inv ?y"
    by (rule done_inv_step) (use assms(3) in \<open>auto split: if_splits\<close>)
  then show ?thesis using assms(1,2) by (simp add: between_def dispatch_inv_def accepted_inv_def)
qed

lemma between_beat:
  assumes "between (FLAGS_ip flags) y"
    and "HealthCheck_Do penv now ctx (heartbeat_request flags ps) (sy_server y) = (st, resp, s1)"
    and "heartbeat_step env mk (network (seen received (st, resp, s1)) reg) flags (sy_agent y) = Returns a"
    and "s2 = s1 \<or> s2 = snd (snd (RegisterAgent penv rctx rreq s1))"
  shows "between (FLAGS_ip flags) (y\<lparr>sy_server := s2, sy_agent := a,
           sy_out := sy_out y @ map (\<lambda>d. (FLAGS_ip flags, d)) (dispatched_in resp)\<rparr>)"
proof -
  let ?y = "y\<lparr>sy_server := s2, sy_agent := a, sy_out := sy_out y @ map (\<lambda>d. (FLAGS_ip flags, d)) (dispatched_in resp)\<rparr>"
  have inv: "dispatch_inv y" "accepted_inv (FLAGS_ip flags) y" "done_inv y" using assms(1) by (simp_all add: between_def)
  have "safe_step (\<lambda>st. st = Some kDone) (sy_server y) (sy_server ?y) {}"
    using done_step_beat [OF assms(2,4)] by simp
  with inv(3) have "done_inv ?y" by (rule done_inv_step) (use heartbeat_effect [OF assms(3)] in auto)
  then show ?thesis
    using dispatch_inv_beat [OF inv(1) assms(2,4)] accepted_inv_beat [OF inv(2) assms(3)]
    by (simp add: between_def accepted_inv_def)
qed

lemma between_client:
  assumes "between ip y" and "\<not> from_agent r"
  shows "between ip (y\<lparr>sy_server := fst (server_step penv sflags r (sy_server y)), sy_created := sy_created y @ created_by r\<rparr>)"
proof -
  let ?y = "y\<lparr>sy_server := fst (server_step penv sflags r (sy_server y)), sy_created := sy_created y @ created_by r\<rparr>"
  have "done_inv y" using assms(1) by (simp add: between_def)
  moreover have "safe_step (\<lambda>st. st = Some kDone) (sy_server y) (sy_server ?y) {}"
    using done_step_client [OF assms(2)] by simp
  ultimately have "done_inv ?y" by (rule done_inv_step) auto
  then show ?thesis
    using assms(1) dispatch_inv_client [of y r penv sflags] assms(2) by (simp add: between_def accepted_inv_def)
qed

definition system_inv :: "(string \<Rightarrow> 'ch) \<Rightarrow> string \<Rightarrow> 'ch system \<Rightarrow> bool" where
  "system_inv mk ip y \<longleftrightarrow> threads_inv mk (sy_agent y) \<and> between ip y"

lemma between_step:
  assumes "system_step penv sflags env mk flags y y'" and "between (FLAGS_ip flags) y"
  shows "between (FLAGS_ip flags) y'"
  using assms(1)
proof cases
  case (client r)
  then show ?thesis using between_client [OF assms(2)] by simp
next
  case (idle a)
  then show ?thesis using between_agent_only [OF assms(2)] heartbeat_effect [OF idle(3)] idle(1) by simp
next
  case (beat_lost a)
  then show ?thesis using between_agent_only [OF assms(2)] heartbeat_effect [OF beat_lost(3)] by simp
next
  case (beat ps mem now ctx st resp s1 received reg a s2 rctx)
  then show ?thesis using between_beat [OF assms(2) beat(4,5,6)] by simp
next
  case (work a)
  then show ?thesis
    using between_agent_only [OF assms(2)] worker_effect [OF work(3)] by (simp split: worker_pc.splits)
next
  case (report result a ctx')
  then show ?thesis
    using between_reported [OF assms(2), of a "(GetChannel (ag_pool (sy_agent y)), result)"] worker_effect [OF report(3)] by simp
next
  case (run_continuous r fuel stop a ctx')
  obtain n where "ag_notified a = ag_notified (sy_agent y) @ [n]" using runner_effect [OF run_continuous(3)] by blast
  then show ?thesis
    using between_reported [OF assms(2), of a n] runner_effect [OF run_continuous(3)] run_continuous(1) by simp
next
  case stopping
  then show ?thesis using between_agent_only [OF assms(2)] by (simp add: SignalHandler_def)
qed

lemma system_inv_step:
  "system_step penv sflags env mk flags y y' \<Longrightarrow> system_inv mk (FLAGS_ip flags) y \<Longrightarrow> system_inv mk (FLAGS_ip flags) y'"
  unfolding system_inv_def using system_agent between_step by blast

lemma system_inv_reachable:
  "system_reachable penv sflags env mk flags y0 y \<Longrightarrow> system_inv mk (FLAGS_ip flags) y0 \<Longrightarrow> system_inv mk (FLAGS_ip flags) y"
  by (induction rule: system_reachable.induct) (blast intro: system_inv_step)+

lemma system_inv_start:
  assumes "threads_inv mk a" and "wk_accepted (ag_worker a) = []" and "server_ready s" and "g_task_queue s = empty_task_queue"
    and "\<And>tid. server_status s tid \<noteq> Some kDone"
  shows "system_inv mk ip \<lparr>sy_server = s, sy_agent = a, sy_created = [], sy_out = []\<rparr>"
  using assms
  by (auto simp: system_inv_def between_def dispatch_inv_def accepted_inv_def done_inv_def for_key_def server_in_def
      server_status_def split: option.splits)

section \<open>One task from the queue of the server to its final status\<close>

lemma server_status_tables:
  assumes "f None = None" and "\<And>c. \<exists>c'. f (Some c) = Some c' \<and> task_tables (db c') = task_tables (db c) \<and> txn c' = txn c"
  shows "server_status (with_pg f s) t = server_status s t"
proof (cases "g_pg s")
  case (Some st)
  then show ?thesis
  proof (cases st)
    case (Some c)
    obtain c' where c': "f (Some c) = Some c'" "task_tables (db c') = task_tables (db c)" using assms(2) by blast
    then have "store_status (f st) t = store_status st t"
      using status_of_tables [OF c'(2)] Some by (simp add: store_status_def)
    then show ?thesis using \<open>g_pg s = Some st\<close> by (simp add: server_status_def g_pg_with_pg)
  qed (simp add: server_status_def g_pg_with_pg assms(1))
qed (simp add: server_status_def g_pg_with_pg)

lemma Do_status:
  assumes "all_ok penv" and "server_ready s" and "accepted ctx" and "HealthCheck_Do penv now ctx req s = (st, resp, s')"
    and "Pop (g_task_queue s) (hcq_ip_addr req) = Some (d, q)" and "server_status s (td_task_id d) = Some kPending"
  shows "server_status s' (td_task_id d) = Some kRunning"
proof -
  let ?up = "\<lambda>p. UpsertAgent penv p (hcq_ip_addr req) (hcq_host_name req) (hcq_uid req) (hcq_agent_version req)"
  let ?s2 = "with_pg ?up (s\<lparr>g_hb_tracker := Update (g_hb_tracker s) (hcq_ip_addr req) now\<rparr>)"
  have s': "s' = with_pg (\<lambda>p. UpdateTaskStatus penv p (td_task_id d) kRunning reason_running) (?s2\<lparr>g_task_queue := q\<rparr>)"
    using assms(3-5) by (auto simp: HealthCheck_Do_def Let_def accepted_def)
  have "server_status ?s2 (td_task_id d) = server_status (s\<lparr>g_hb_tracker := Update (g_hb_tracker s) (hcq_ip_addr req) now\<rparr>) (td_task_id d)"
    by (rule server_status_tables) (simp_all add: UpsertAgent_def UpsertAgent_keeps)
  then have p: "server_status ?s2 (td_task_id d) = Some kPending" using assms(6) by (simp add: server_status_def)
  then obtain st2 where st2: "g_pg ?s2 = Some st2" "store_status st2 (td_task_id d) = Some kPending"
    by (auto simp: server_status_def split: option.splits)
  have "safe_step is_active s ?s2 {}" by (rule safe_step_with_pg [OF harmless_UpsertAgent]) simp
  then have "store_ready st2" using assms(2) st2(1) by (simp add: safe_step_def server_ready_def)
  from update_status_ok [OF assms(1) this, of "td_task_id d" kRunning reason_running "td_task_id d"] st2(2)
  have "store_status (UpdateTaskStatus penv st2 (td_task_id d) kRunning reason_running) (td_task_id d) = Some kRunning"
    by (simp add: IsTransitionAllowed_def)
  moreover have "pg_available (?s2\<lparr>g_task_queue := q\<rparr>)"
    using st2 by (cases st2) (simp_all add: pg_available_def Connected_def store_status_def)
  ultimately show ?thesis using st2(1) by (simp add: s' server_status_def g_pg_with_pg)
qed

text \<open>An agent that waits for work, with a task for it at the head of its queue in the server.\<close>

definition waiting_for_work :: "agent_env \<Rightarrow> 'ch agent_state \<Rightarrow> bool" where
  "waiting_for_work env a \<longleftrightarrow>
     ag_hb a = Hb_check \<and> \<not> wk_shutdown (ag_worker a) \<and> proc_readable env (ps_os (ag_prof a))
     \<and> ag_wk a = Wk_wait \<and> wk_queue (ag_worker a) = []"

lemma beat_accepts:
  assumes "waiting_for_work env a" and "hcr_pending resp" and "hcr_task_desc resp = Some d" and "beat_stats env a = Inr (ps, m)"
  obtains b where "heartbeat_step env mk (network (Some resp) reg) flags (a\<lparr>ag_hb := Hb_beat\<rparr>) = Returns b"
    "ag_wk b = Wk_wait" "wk_queue (ag_worker b) = [d]" "ag_prof b = ag_prof a" "ag_notified b = ag_notified a"
proof -
  let ?b = "(heartbeat_ok (network (Some resp) reg) (ag_beats a) flags (GetChannel (ag_pool a)) resp
      (a\<lparr>ag_hb := Hb_beat, ag_memory := m, ag_beats := Suc (ag_beats a)\<rparr>))\<lparr>ag_hb := Hb_check\<rparr>"
  have "heartbeat_step env mk (network (Some resp) reg) flags (a\<lparr>ag_hb := Hb_beat\<rparr>) = Returns ?b"
    using assms(4) by (simp add: heartbeat_step_def heartbeat_beat_def Let_def beat_stats_def) (simp add: network_def)
  then show ?thesis
    by (rule that) (use assms in \<open>simp_all add: waiting_for_work_def heartbeat_ok_def push_task_def Let_def network_def\<close>)
qed

lemma Do_hands_out:
  assumes "accepted ctx" and "Pop (g_task_queue s) (hcq_ip_addr req) = Some (d, q)"
  obtains resp s' where "HealthCheck_Do penv now ctx req s = ((OK, []), resp, s')"
    "hcr_pending resp" "hcr_task_desc resp = Some d"
  using assms that by (simp add: HealthCheck_Do_def Let_def accepted_def)

lemma worker_steps:
  assumes "ag_wk b = Wk_wait" and "wk_queue (ag_worker b) = [d]" and "\<not> continuous d"
    and "run_single_shot env flags d (ag_prof b) = Returns (result, s')"
  obtains b1 b2 b3 where "worker_step env flags b = Returns b1" "ag_wk b1 = Wk_execute d"
    "worker_step env flags b1 = Returns b2" "ag_wk b2 = Wk_report result"
    "worker_step env flags b2 = Returns b3" "snd (last (ag_notified b3)) = result" "ag_wk b3 = Wk_wait"
  using assms that
  by (simp add: worker_step_def worker_take_def worker_execute_def continuous_def notify_def Let_def)

lemma reachable_snoc2:
  "system_step penv sflags env mk flags y y1 \<Longrightarrow> system_step penv sflags env mk flags y1 y2 \<Longrightarrow>
   system_reachable penv sflags env mk flags y y2"
  by (rule next_step [OF next_step [OF here]])

text \<open>One heartbeat moves the task from the server's queue to the agent's, and to RUNNING.\<close>

lemma handed_over:
  assumes "waiting_for_work env (sy_agent y)" and "Pop (g_task_queue (sy_server y)) (FLAGS_ip flags) = Some (d, q)"
    and "accepted ctx" and "all_ok penv" and "server_ready (sy_server y)"
    and "server_status (sy_server y) (td_task_id d) = Some kPending"
  obtains y2 where "system_reachable penv sflags env mk flags y y2" "ag_wk (sy_agent y2) = Wk_wait"
    "wk_queue (ag_worker (sy_agent y2)) = [d]" "ag_prof (sy_agent y2) = ag_prof (sy_agent y)"
    "server_ready (sy_server y2)" "server_status (sy_server y2) (td_task_id d) = Some kRunning"
proof -
  let ?a = "sy_agent y"
  obtain ps m where st: "beat_stats env ?a = Inr (ps, m)"
    using stats_computed [of env ?a] assms(1) by (auto simp: waiting_for_work_def)
  let ?req = "heartbeat_request flags ps"
  have ip: "Pop (g_task_queue (sy_server y)) (hcq_ip_addr ?req) = Some (d, q)"
    using assms(2) by (simp add: heartbeat_request_def)
  obtain resp s1 where r: "HealthCheck_Do penv 0 ctx ?req (sy_server y) = ((OK, []), resp, s1)"
    "hcr_pending resp" "hcr_task_desc resp = Some d"
    by (rule Do_hands_out [OF assms(3) ip])
  have rdy1: "server_ready s1" using done_step_beat [OF r(1), of s1] assms(5) by (simp add: safe_step_def)
  obtain b where b: "heartbeat_step env mk (network (Some resp) False) flags (?a\<lparr>ag_hb := Hb_beat\<rparr>) = Returns b"
    "ag_wk b = Wk_wait" "wk_queue (ag_worker b) = [d]" "ag_prof b = ag_prof ?a" "ag_notified b = ag_notified ?a"
    by (rule beat_accepts [OF assms(1) r(2,3) st])
  let ?y1 = "y\<lparr>sy_agent := ?a\<lparr>ag_hb := Hb_beat\<rparr>\<rparr>"
  let ?y2 = "?y1\<lparr>sy_server := s1, sy_agent := b, sy_out := sy_out ?y1 @ map (\<lambda>d. (FLAGS_ip flags, d)) (dispatched_in resp)\<rparr>"
  have "system_step penv sflags env mk flags y ?y1"
    by (rule idle) (use assms(1) in \<open>simp_all add: waiting_for_work_def heartbeat_step_def\<close>)
  moreover have "system_step penv sflags env mk flags ?y1 ?y2"
  proof (rule beat [where received = True and reg = False and st = "(OK, [])" and ps = ps and mem = m])
    show "s1 = s1 \<or> s1 = snd (snd (RegisterAgent penv ctx (register_request flags) s1))" by (rule disjI1 [OF refl])
  qed (use st r b in \<open>simp_all add: seen_def beat_stats_def\<close>)
  ultimately show ?thesis
    by (intro that [of ?y2] reachable_snoc2)
      (use b rdy1 Do_status [OF assms(4,5,3) r(1) ip assms(6)] in simp_all)
qed

text \<open>The worker then runs it and its report sets the final status.\<close>

lemma completes:
  assumes "waiting_for_work env (sy_agent y)" and "Pop (g_task_queue (sy_server y)) (FLAGS_ip flags) = Some (d, q)"
    and "\<not> continuous d" and "records_return env [d]" and "accepted ctx"
    and "all_ok penv" and "server_ready (sy_server y)" and "server_status (sy_server y) (td_task_id d) = Some kPending"
  shows "\<exists>y' result s'. system_reachable penv sflags env mk flags y y'
    \<and> run_single_shot env flags d (ag_prof (sy_agent y)) = Returns (result, s')
    \<and> server_status (sy_server y') (td_task_id d) = Some (if tr_error_message result = [] then kDone else kFailed)"
proof -
  obtain y2 where y2: "system_reachable penv sflags env mk flags y y2" "ag_wk (sy_agent y2) = Wk_wait"
    "wk_queue (ag_worker (sy_agent y2)) = [d]" "ag_prof (sy_agent y2) = ag_prof (sy_agent y)"
    "server_ready (sy_server y2)" "server_status (sy_server y2) (td_task_id d) = Some kRunning"
    by (rule handed_over [OF assms(1,2,5-8)])
  obtain result s' where ss: "run_single_shot env flags d (ag_prof (sy_agent y)) = Returns (result, s')"
    using single_shot_returns [of d env "ag_prof (sy_agent y)" flags] assms(4) by (auto simp: records_return_def)
  obtain b1 b2 b3 where w: "worker_step env flags (sy_agent y2) = Returns b1" "ag_wk b1 = Wk_execute d"
    "worker_step env flags b1 = Returns b2" "ag_wk b2 = Wk_report result"
    "worker_step env flags b2 = Returns b3" "snd (last (ag_notified b3)) = result" "ag_wk b3 = Wk_wait"
    by (rule worker_steps [OF y2(2,3) assms(3), of env flags result s']) (simp add: y2(4) ss)
  let ?y5 = "y2\<lparr>sy_server := delivered penv (Some ctx) result (sy_server y2), sy_agent := b3\<rparr>"
  have "system_step penv sflags env mk flags y2 (y2\<lparr>sy_agent := b1\<rparr>)"
    by (rule work) (use y2 w in simp_all)
  moreover have "system_step penv sflags env mk flags (y2\<lparr>sy_agent := b1\<rparr>) (y2\<lparr>sy_agent := b2\<rparr>)"
    using work [of "y2\<lparr>sy_agent := b1\<rparr>" env flags b2 penv sflags mk] w by simp
  moreover have "system_step penv sflags env mk flags (y2\<lparr>sy_agent := b2\<rparr>) ?y5"
    using report [of "y2\<lparr>sy_agent := b2\<rparr>" result env flags b3 penv sflags mk "Some ctx"] w by simp
  ultimately have "system_reachable penv sflags env mk flags y ?y5"
    using next_step [OF next_step [OF next_step [OF y2(1)]]] by blast
  moreover have "server_status (sy_server ?y5) (td_task_id d) = Some (if tr_error_message result = [] then kDone else kFailed)"
    using NotifyResult_status [OF assms(6) y2(5), of ctx result "td_task_id d"] y2(6) assms(5) single_shot_id [OF ss]
    by (simp add: delivered_def after_result_def)
  ultimately show ?thesis using ss by blast
qed

section \<open>A system\<close>

text \<open>A server with an empty store and the agent with two servers, before any step, and after a task was created.\<close>

definition fresh_system :: "server_state \<Rightarrow> 'ch agent_state \<Rightarrow> 'ch system" where
  "fresh_system s a = \<lparr>sy_server = s, sy_agent = a, sy_created = [], sy_out = []\<rparr>"

definition sample_request :: create_task_request where
  "sample_request = \<lparr>ctq_target_ip = ''i'', ctq_service = [], ctq_task_desc = single_ebpf_task\<rparr>"

definition sample_pending :: "string system" where
  "sample_pending = (fresh_system sample_server sample_agent)\<lparr>
     sy_server := fst (server_step sample_env default_flags (Rpc_CreateTask sample_ctx sample_request)
                    (fst (server_step sample_env default_flags (Api_Call sample_create_call) sample_server))),
     sy_created := [(''i'', single_ebpf_task)]\<rparr>"

lemma sample_accepted: "accepted sample_ctx"
  by (simp add: accepted_iff sample_ctx_def)

lemma sample_pending_reachable:
  "system_reachable sample_env default_flags sample_agent_env id sample_flags (fresh_system sample_server sample_agent) sample_pending"
proof -
  let ?y = "fresh_system sample_server sample_agent"
  have "system_step sample_env default_flags sample_agent_env id sample_flags ?y
      (?y\<lparr>sy_server := fst (server_step sample_env default_flags (Api_Call sample_create_call) (sy_server ?y)),
         sy_created := sy_created ?y @ created_by (Api_Call sample_create_call)\<rparr>)"
    by (rule client) simp
  from reachable_snoc2 [OF this client, of "Rpc_CreateTask sample_ctx sample_request"] show ?thesis
    by (simp add: sample_pending_def fresh_system_def sample_request_def sample_accepted)
qed

lemma sample_pending_server:
  "sy_server sample_pending = (with_pg (map_option (\<lambda>c. c\<lparr>db := api_effect sample_create_call (db c)\<rparr>)) sample_server)
     \<lparr>g_task_queue := Push empty_task_queue ''i'' single_ebpf_task\<rparr>"
  by (simp add: sample_pending_def sample_server_def sample_request_def CreateTask_def accepted_def [symmetric] sample_accepted)

lemma sample_pending_status:
  "server_status (sy_server sample_pending) ''task00000001'' = Some kPending" "server_ready (sy_server sample_pending)"
  "\<exists>q. Pop (g_task_queue (sy_server sample_pending)) ''i'' = Some (single_ebpf_task, q)"
proof -
  have "g_pg (sy_server sample_pending) = Some (Some (fresh_conn\<lparr>db := api_effect sample_create_call (db fresh_conn)\<rparr>))"
    by (simp add: sample_pending_server g_pg_with_pg sample_server_def pg_available_def Connected_def)
  then show "server_status (sy_server sample_pending) ''task00000001'' = Some kPending" "server_ready (sy_server sample_pending)"
    by (simp_all add: server_status_def server_ready_def store_ready_def store_status_def api_effect_inv)
      (simp add: fresh_conn_def sample_created pending_row_def status_of_def sql_select_status_def)
  show "\<exists>q. Pop (g_task_queue (sy_server sample_pending)) ''i'' = Some (single_ebpf_task, q)"
    by (simp add: sample_pending_server Pop_def Push_def empty_task_queue_def)
qed

lemma sample_waiting: "waiting_for_work sample_agent_env (sy_agent sample_pending)"
  by (simp add: waiting_for_work_def sample_pending_def fresh_system_def sample_agent_sel sample_readable empty_worker_def)

lemma sample_completes:
  "\<exists>y. system_reachable sample_env default_flags sample_agent_env id sample_flags sample_pending y
     \<and> server_status (sy_server y) ''task00000001'' = Some kDone"
proof -
  obtain q where q: "Pop (g_task_queue (sy_server sample_pending)) (FLAGS_ip sample_flags) = Some (single_ebpf_task, q)"
    using sample_pending_status(3) by (auto simp: sample_flags_def)
  have "\<not> continuous single_ebpf_task" "server_status (sy_server sample_pending) (td_task_id single_ebpf_task) = Some kPending"
    using sample_pending_status(1) by (simp_all add: continuous_def sample_ebpf_type)
  from completes [OF sample_waiting q this(1) sample_returns sample_accepted sample_env_ok(1) sample_pending_status(2) this(2),
      of default_flags id]
  obtain y result s' where y: "system_reachable sample_env default_flags sample_agent_env id sample_flags sample_pending y"
      "run_single_shot sample_agent_env sample_flags single_ebpf_task (ag_prof (sy_agent sample_pending)) = Returns (result, s')"
      "server_status (sy_server y) (td_task_id single_ebpf_task) = Some (if tr_error_message result = [] then kDone else kFailed)"
    by blast
  have "ag_prof (sy_agent sample_pending) = sample_prof" by (simp add: sample_pending_def fresh_system_def sample_agent_sel)
  then have "tr_error_message result = []" using y(2) sample_single_shot [of sample_flags] by auto
  then show ?thesis using y(1,3) by (intro exI [of _ y]) (simp add: sample_ebpf_type)
qed

section \<open>Consequences of the invariant\<close>

lemma system_reachable_trans:
  "system_reachable penv sflags env mk flags b c \<Longrightarrow> system_reachable penv sflags env mk flags a b \<Longrightarrow>
   system_reachable penv sflags env mk flags a c"
  by (induction rule: system_reachable.induct) (blast intro: next_step)+

lemma started_inv:
  assumes "agent_init env0 mk flags0 ps = (env, flags, a0)"
    and "server_ready sv" and "g_task_queue sv = empty_task_queue" and "\<And>t. server_status sv t \<noteq> Some kDone"
    and "system_reachable penv sflags env mk flags (fresh_system sv a0) y"
  shows "system_inv mk (FLAGS_ip flags) y"
proof -
  have "threads_inv mk a0" "wk_accepted (ag_worker a0) = []"
    using inv_init [of mk env0 flags0 ps] assms(1) by (auto simp: agent_init_def empty_worker_def)
  from system_inv_start [OF this assms(2-4)] show ?thesis
    using system_inv_reachable [OF assms(5)] by (simp add: fresh_system_def)
qed

lemma done_reported:
  assumes "system_inv mk ip y" and "server_status (sy_server y) tid = Some kDone"
  shows "\<exists>ch result. (ch, result) \<in> set (ag_notified (sy_agent y)) \<and> tr_task_id result = tid \<and> tr_error_message result = []"
proof -
  have "server_in (\<lambda>st. st = Some kDone) (sy_server y) tid"
    using assms(2) by (auto simp: server_in_def server_status_def split: option.splits)
  then show ?thesis using assms(1) by (force simp: system_inv_def between_def done_inv_def)
qed

lemma taken_counts:
  assumes "system_inv mk ip y"
  shows "mset (map (\<lambda>n. tr_task_id (snd n)) (ag_notified (sy_agent y))) \<subseteq># mset (map td_task_id (wk_taken (ag_worker (sy_agent y))))"
    and "wk_accepted (ag_worker (sy_agent y)) = wk_taken (ag_worker (sy_agent y)) @ wk_queue (ag_worker (sy_agent y))"
proof -
  have "accounted (sy_agent y)" "queue_inv (ag_worker (sy_agent y))"
    using assms by (simp_all add: system_inv_def threads_inv_def)
  then show "mset (map (\<lambda>n. tr_task_id (snd n)) (ag_notified (sy_agent y))) \<subseteq># mset (map td_task_id (wk_taken (ag_worker (sy_agent y))))"
    and "wk_accepted (ag_worker (sy_agent y)) = wk_taken (ag_worker (sy_agent y)) @ wk_queue (ag_worker (sy_agent y))"
    by (simp_all add: accounted_def queue_inv_def)
qed

lemma reported_taken:
  assumes "system_inv mk ip y" and "(ch, result) \<in> set (ag_notified (sy_agent y))"
  shows "\<exists>d \<in> set (wk_taken (ag_worker (sy_agent y))). td_task_id d = tr_task_id result"
proof -
  have "tr_task_id result \<in># mset (map (\<lambda>n. tr_task_id (snd n)) (ag_notified (sy_agent y)))"
    using assms(2) by force
  from mset_subset_eqD [OF taken_counts(1) [OF assms(1)] this] show ?thesis by auto
qed

lemma accepted_created:
  assumes "system_inv mk ip y"
  shows "subseq (wk_accepted (ag_worker (sy_agent y))) (for_key ip (sy_created y))"
proof -
  have "subseq (wk_accepted (ag_worker (sy_agent y))) (for_key ip (sy_out y))"
    and "for_key ip (sy_out y) @ queued (g_task_queue (sy_server y)) ip = for_key ip (sy_created y)"
    using assms by (simp_all add: system_inv_def between_def accepted_inv_def dispatch_inv_def)
  then show ?thesis using list_emb_prefix by metis
qed

lemma taken_created:
  assumes "system_inv mk ip y" and "d \<in> set (wk_taken (ag_worker (sy_agent y)))"
  shows "(ip, d) \<in> set (sy_created y)"
proof -
  have "d \<in> set (for_key ip (sy_created y))"
    using list_emb_set [OF accepted_created [OF assms(1)], of d] taken_counts(2) [OF assms(1)] assms(2) by auto
  then show ?thesis by (auto simp: for_key_def)
qed

lemma subseq_distinct: "subseq xs ys \<Longrightarrow> distinct ys \<Longrightarrow> distinct xs"
  by (induction rule: list_emb.induct) (auto dest: list_emb_set)

lemma submultiset_distinct: "mset xs \<subseteq># mset ys \<Longrightarrow> distinct ys \<Longrightarrow> distinct xs"
proof -
  assume sub: "mset xs \<subseteq># mset ys" and "distinct ys"
  then have "count (mset ys) x \<le> 1" for x by (simp add: distinct_count_atmost_1)
  then have "count (mset xs) x \<le> 1" for x using mset_subset_eq_count [OF sub, of x] le_trans by blast
  moreover have "0 < count (mset xs) x" if "x \<in> set xs" for x using that by simp
  ultimately have "count (mset xs) x = (if x \<in> set xs then 1 else 0)" for x
    by (metis count_mset_0_iff le_antisym less_eq_Suc_le One_nat_def)
  then show "distinct xs" by (simp add: distinct_count_atmost_1)
qed

lemma accounted_distinct:
  assumes "system_inv mk ip y" and "distinct (map td_task_id (wk_accepted (ag_worker (sy_agent y))))"
  shows "distinct (map td_task_id (wk_taken (ag_worker (sy_agent y))))
    \<and> distinct (map (\<lambda>n. tr_task_id (snd n)) (ag_notified (sy_agent y)))"
proof -
  have t: "distinct (map td_task_id (wk_taken (ag_worker (sy_agent y))))"
    using assms(2) taken_counts(2) [OF assms(1)] by simp
  from submultiset_distinct [OF taken_counts(1) [OF assms(1)] this] t show ?thesis by blast
qed

end
