(* ===== verification/ContainerInfo.thy ===== *)
theory ContainerInfo
  imports OSModel
begin

text \<open>
  Container detection, \<^verbatim>\<open>src/drop/common/src/container_info.cpp\<close>: the cgroup paths in
  \<^verbatim>\<open>/proc/self/cgroup\<close>, then \<^verbatim>\<open>/.dockerenv\<close>, then the Kubernetes
  environment variable.
\<close>

record container_info =
  is_container :: bool
  container_type :: u32
  container_id :: string
  runtime :: string
  cgroup_path :: string

definition empty_container_info :: container_info where
  "empty_container_info =
     \<lparr>is_container = False, container_type = 0, container_id = [], runtime = [], cgroup_path = []\<rparr>"

definition DetectContainerType :: "string \<Rightarrow> u32 \<times> string" where
  "DetectContainerType p =
     (if contains ''/docker/'' p then (1, ''docker'')
      else if contains ''/kubepods'' p then (3, ''k8s'')
      else if contains ''/containerd/'' p \<or> contains ''/system.slice/containerd'' p then (2, ''containerd'')
      else if contains ''/machine.slice/machine-'' p then (4, ''systemd-nspawn'')
      else if contains ''/lxc/'' p then (1, ''lxc'')
      else (0, ''unknown''))"

definition is_xdigit :: "char \<Rightarrow> bool" where
  "is_xdigit c \<longleftrightarrow> is_digit c \<or> (97 \<le> (of_char c :: nat) \<and> (of_char c :: nat) \<le> 102)
     \<or> (65 \<le> (of_char c :: nat) \<and> (of_char c :: nat) \<le> 70)"

text \<open>The container id: the first 12 bytes of the last component when they are hex digits.\<close>

definition container_id_of :: "string \<Rightarrow> string \<Rightarrow> string" where
  "container_id_of old p =
     (case rfind_char (CHR ''/'') p of
        None \<Rightarrow> old
      | Some last_slash \<Rightarrow>
          if last_slash + 1 < length p
          then (let last_comp = drop (last_slash + 1) p
                in if length last_comp \<ge> 12 \<and> list_all is_xdigit (take 12 last_comp)
                   then take 12 last_comp else old)
          else old)"

text \<open>The path of one line, \<open>None\<close> where the loop continues with the next line.\<close>

definition cgroup_line_path :: "string \<Rightarrow> string option" where
  "cgroup_line_path line =
     (case find_char (CHR '':'') line of
        None \<Rightarrow> None
      | Some first_colon \<Rightarrow>
          (case find_char (CHR '':'') (drop (first_colon + 1) line) of
             None \<Rightarrow> None
           | Some k \<Rightarrow>
               (let p = drop (first_colon + 1 + k + 1) line
                in if p = [] \<or> p = ''/'' then None else Some p)))"

fun ParseCgroup_loop :: "string list \<Rightarrow> container_info \<Rightarrow> bool \<times> container_info" where
  "ParseCgroup_loop [] info = (False, info)"
| "ParseCgroup_loop (line # rest) info =
     (case cgroup_line_path line of
        None \<Rightarrow> ParseCgroup_loop rest info
      | Some p \<Rightarrow>
          (let (t, rt) = DetectContainerType p;
               info1 = info\<lparr>cgroup_path := p, container_type := t, runtime := rt\<rparr>
           in if t > 0
              then (True, info1\<lparr>is_container := True, container_id := container_id_of (container_id info1) p\<rparr>)
              else ParseCgroup_loop rest info1))"

definition ParseCgroup :: "os_state \<Rightarrow> container_info \<Rightarrow> bool \<times> container_info" where
  "ParseCgroup os info =
     (case os_fs os ''/proc/self/cgroup'' of
        None \<Rightarrow> (False, info)
      | Some content \<Rightarrow> ParseCgroup_loop (getlines (CHR 0x0A) content) info)"

definition DetectContainerInfo :: "os_env \<Rightarrow> os_state \<Rightarrow> container_info" where
  "DetectContainerInfo env os =
     (let has_dockerenv = file_exists os ''/.dockerenv'';
          (from_cgroup, info) = ParseCgroup os empty_container_info;
          info1 = (if \<not> from_cgroup \<and> has_dockerenv
                   then info\<lparr>is_container := True, container_type := 1, runtime := ''docker''\<rparr> else info)
      in if \<not> is_container info1 \<and> env_var env ''KUBERNETES_SERVICE_HOST'' \<noteq> None
         then info1\<lparr>is_container := True, container_type := 3, runtime := ''k8s''\<rparr> else info1)"

section \<open>Properties\<close>

definition recognised :: "string \<Rightarrow> bool" where
  "recognised p \<longleftrightarrow> fst (DetectContainerType p) \<noteq> 0"

definition cgroup_paths :: "os_state \<Rightarrow> string list" where
  "cgroup_paths os =
     (case os_fs os ''/proc/self/cgroup'' of
        None \<Rightarrow> []
      | Some content \<Rightarrow> List.map_filter cgroup_line_path (getlines (CHR 0x0A) content))"

lemma map_filter_Cons: "List.map_filter f (x # xs) =
    (case f x of None \<Rightarrow> List.map_filter f xs | Some y \<Rightarrow> y # List.map_filter f xs)"
  by (simp add: List.map_filter_def split: option.splits)

lemma ParseCgroup_loop_found:
  assumes "List.find recognised (List.map_filter cgroup_line_path ls) = Some p"
  shows "ParseCgroup_loop ls info =
    (True, info\<lparr>cgroup_path := p, container_type := fst (DetectContainerType p),
       runtime := snd (DetectContainerType p), is_container := True,
       container_id := container_id_of (container_id info) p\<rparr>)"
  using assms
proof (induction ls arbitrary: info)
  case Nil
  then show ?case by (simp add: List.map_filter_def)
next
  case (Cons l ls)
  then show ?case
    by (auto simp: map_filter_Cons recognised_def word_gt_0 split_beta Let_def
        split: option.splits if_splits)
qed

lemma ParseCgroup_loop_none:
  assumes "List.find recognised (List.map_filter cgroup_line_path ls) = None" and "container_type info = 0"
  shows "\<exists>info'. ParseCgroup_loop ls info = (False, info') \<and> container_type info' = 0
      \<and> is_container info' = is_container info"
  using assms
proof (induction ls arbitrary: info)
  case (Cons l ls)
  show ?case
  proof (cases "cgroup_line_path l")
    case None
    with Cons show ?thesis by (simp add: map_filter_Cons)
  next
    case (Some p)
    with Cons.prems have nr: "\<not> recognised p"
      and fn: "List.find recognised (List.map_filter cgroup_line_path ls) = None"
      by (auto simp: map_filter_Cons split: if_splits)
    from nr have "fst (DetectContainerType p) = 0" by (simp add: recognised_def)
    with fn show ?thesis
      using Cons.IH [of "info\<lparr>cgroup_path := p, container_type := 0, runtime := snd (DetectContainerType p)\<rparr>"] Some
      by (simp add: split_beta Let_def)
  qed
qed simp

lemma ParseCgroup_cases:
  "case List.find recognised (cgroup_paths os) of
     Some p \<Rightarrow> ParseCgroup os empty_container_info =
       (True, \<lparr>is_container = True, container_type = fst (DetectContainerType p),
               container_id = container_id_of [] p, runtime = snd (DetectContainerType p), cgroup_path = p\<rparr>)
   | None \<Rightarrow> \<exists>info. ParseCgroup os empty_container_info = (False, info)
       \<and> container_type info = 0 \<and> \<not> is_container info"
  using ParseCgroup_loop_found [of _ _ empty_container_info] ParseCgroup_loop_none [of _ empty_container_info]
  by (auto simp: ParseCgroup_def cgroup_paths_def empty_container_info_def List.map_filter_def
      split: option.splits)

text \<open>
  Container detection follows the first recognised cgroup path.  If some line of
  \<^verbatim>\<open>/proc/self/cgroup\<close> has a path of a known runtime, the first such path alone
  determines type, runtime, path and short id; otherwise the process is in a container exactly
  when \<^verbatim>\<open>/.dockerenv\<close> exists (Docker) or the Kubernetes variable is set
  (Kubernetes), in this order; and the container flag is set exactly when the type is not 0.
\<close>

theorem container_detection:
  "(case List.find recognised (cgroup_paths os) of
      Some p \<Rightarrow> DetectContainerInfo env os =
        \<lparr>is_container = True, container_type = fst (DetectContainerType p),
         container_id = container_id_of [] p, runtime = snd (DetectContainerType p), cgroup_path = p\<rparr>
    | None \<Rightarrow>
        container_type (DetectContainerInfo env os) =
          (if file_exists os ''/.dockerenv'' then 1
           else if env_var env ''KUBERNETES_SERVICE_HOST'' \<noteq> None then 3 else 0))
   \<and> (is_container (DetectContainerInfo env os) \<longleftrightarrow> container_type (DetectContainerInfo env os) \<noteq> 0)"
proof (cases "List.find recognised (cgroup_paths os)")
  case None
  then show ?thesis using ParseCgroup_cases [of os] by (auto simp: DetectContainerInfo_def Let_def)
next
  case (Some p)
  then have "fst (DetectContainerType p) \<noteq> 0"
    by (auto simp: find_Some_iff recognised_def)
  then show ?thesis
    using Some ParseCgroup_cases [of os] by (simp add: DetectContainerInfo_def Let_def)
qed

text \<open>
  Docker ids are read back.  For a cgroup line of hierarchy, controllers and a path ending in
  \<^verbatim>\<open>/docker/\<close> followed by a hexadecimal id of at least 12 digits, detection reports Docker with
  the first 12 digits of that id.
\<close>

theorem docker_id_roundtrip:
  assumes "CHR '':'' \<notin> set hier" and "CHR '':'' \<notin> set ctrl" and "CHR 0x0A \<notin> set hier \<union> set ctrl \<union> set pre"
    and "12 \<le> length i" and "list_all is_xdigit i"
    and "os_fs os ''/proc/self/cgroup'' = Some (hier @ '':'' @ ctrl @ '':'' @ pre @ ''/docker/'' @ i @ [CHR 0x0A] @ rest)"
  shows "container_id (DetectContainerInfo env os) = take 12 i \<and> runtime (DetectContainerInfo env os) = ''docker''
     \<and> container_type (DetectContainerInfo env os) = 1"
proof -
  define p where "p = pre @ ''/docker/'' @ i"
  define line where "line = hier @ CHR '':'' # ctrl @ CHR '':'' # p"
  have hex: "is_xdigit c \<Longrightarrow> c \<noteq> CHR ''/'' \<and> c \<noteq> CHR 0x0A" for c
    by (auto simp: is_xdigit_def is_digit_def)
  have i: "CHR ''/'' \<notin> set i" "CHR 0x0A \<notin> set i"
    using assms(5) hex by (auto simp: list_all_iff)
  have fc: "CHR '':'' \<notin> set xs \<Longrightarrow> find_char (CHR '':'') (xs @ CHR '':'' # ys) = Some (length xs)" for xs ys
    by (induction xs) auto
  have "p \<noteq> [] \<and> p \<noteq> ''/''" by (auto simp: p_def Cons_eq_append_conv append_eq_Cons_conv)
  then have path: "cgroup_line_path line = Some p"
    using fc [OF assms(1)] fc [OF assms(2)] by (simp add: cgroup_line_path_def line_def Let_def)
  have "CHR 0x0A \<notin> set line" using assms(3) i(2) by (simp add: line_def p_def)
  then have "getlines (CHR 0x0A) (line @ CHR 0x0A # rest) = line # getlines (CHR 0x0A) rest"
    by (rule getlines_line)
  moreover have "os_fs os ''/proc/self/cgroup'' = Some (line @ CHR 0x0A # rest)"
    using assms(6) by (simp add: line_def p_def)
  ultimately have paths: "\<exists>ps. cgroup_paths os = p # ps"
    using path by (simp add: cgroup_paths_def map_filter_Cons)
  have ty: "DetectContainerType p = (1, ''docker'')"
    using contains_infix [of "''/docker/''" pre i] by (simp add: DetectContainerType_def p_def)
  then have "List.find recognised (cgroup_paths os) = Some p"
    using paths by (auto simp: recognised_def)
  then have "ParseCgroup os empty_container_info =
       (True, \<lparr>is_container = True, container_type = 1, container_id = container_id_of [] p,
          runtime = ''docker'', cgroup_path = p\<rparr>)"
    using ParseCgroup_cases [of os] by (simp add: ty)
  moreover have "container_id_of [] p = take 12 i"
  proof -
    have sp: "p = (pre @ ''/docker'') @ CHR ''/'' # i" by (simp add: p_def)
    have "rfind_char (CHR ''/'') p = Some (length (pre @ ''/docker''))"
      unfolding sp by (rule rfind_char_append_sep [OF i(1)])
    moreover have "list_all is_xdigit (take 12 i)" using assms(5) by (auto simp: list_all_iff dest: in_set_takeD)
    moreover have "drop (length (pre @ ''/docker'') + 1) p = i" by (simp add: sp)
    moreover have "length (pre @ ''/docker'') + 1 < length p" using assms(4) by (cases "i = []") (simp_all add: sp)
    ultimately show ?thesis using assms(4) by (simp add: container_id_of_def Let_def)
  qed
  ultimately show ?thesis by (simp add: DetectContainerInfo_def Let_def)
qed

theorem docker_id_roundtrip_witness:
  "container_id (DetectContainerInfo sample_os_env
      (sample_os\<lparr>os_fs := [''/proc/self/cgroup'' \<mapsto> ''0::/docker/0123456789abcdef'' @ [CHR 0x0A]]\<rparr>)) = ''0123456789ab''"
  using docker_id_roundtrip [of "''0''" "[]" "[]" "''0123456789abcdef''"
      "sample_os\<lparr>os_fs := [''/proc/self/cgroup'' \<mapsto> ''0::/docker/0123456789abcdef'' @ [CHR 0x0A]]\<rparr>" "[]" sample_os_env]
  by (simp add: is_xdigit_def is_digit_def)

end
