(* ===== verification/CosClient.thy ===== *)
theory CosClient
  imports OSModel Messages
begin

text \<open>
  The object-storage client of \<^verbatim>\<open>src/drop/common/src/cos_client.cpp\<close>: five upload
  modes tried in order, each by a \<^verbatim>\<open>curl\<close> child whose standard output is captured in
  a file beside the uploaded one.
\<close>

datatype cos_upload_mode = INTRANET_FLAG | PUBLIC | FLAG_INTRANET | CONFIG_INTRANET | HTTP_PROXY

fun mode_number :: "cos_upload_mode \<Rightarrow> nat" where
  "mode_number INTRANET_FLAG = 1"
| "mode_number PUBLIC = 2"
| "mode_number FLAG_INTRANET = 3"
| "mode_number CONFIG_INTRANET = 4"
| "mode_number HTTP_PROXY = 5"

record cos_upload_result =
  cur_success :: bool
  cur_used_mode :: cos_upload_mode
  cur_cos_key :: string
  cur_error_msg :: string

record cos_client =
  cc_config :: cos_config
  cc_apiserver_addr :: string
  cc_intranet_endpoint :: string
  cc_flag :: string
  cc_http_proxy :: string


definition SetIntranetEndpoint :: "string \<Rightarrow> cos_client \<Rightarrow> cos_client" where
  "SetIntranetEndpoint endpoint c = c\<lparr>cc_intranet_endpoint := endpoint\<rparr>"

definition SetFlag :: "string \<Rightarrow> cos_client \<Rightarrow> cos_client" where
  "SetFlag flag c = c\<lparr>cc_flag := flag\<rparr>"

definition SetHttpProxy :: "string \<Rightarrow> cos_client \<Rightarrow> cos_client" where
  "SetHttpProxy proxy_url c = c\<lparr>cc_http_proxy := proxy_url\<rparr>"

section \<open>URLs\<close>

definition intranet_base :: "cos_client \<Rightarrow> string" where
  "intranet_base c =
     (if cc_intranet_endpoint c = []
      then ''https://'' @ cos_bucket (cc_config c) @ ''.cos-internal.'' @ cos_region (cc_config c)
             @ ''.myqcloud.com''
      else cc_intranet_endpoint c)"

definition flag_suffix :: "cos_client \<Rightarrow> string" where
  "flag_suffix c = (if cc_flag c = [] then [] else ''?flag='' @ cc_flag c)"

fun BuildUrl :: "cos_client \<Rightarrow> cos_upload_mode \<Rightarrow> string \<Rightarrow> string" where
  "BuildUrl c INTRANET_FLAG object_key = intranet_base c @ ''/'' @ object_key @ flag_suffix c"
| "BuildUrl c PUBLIC object_key =
     ''https://'' @ cos_bucket (cc_config c) @ ''.cos.'' @ cos_region (cc_config c) @ ''.myqcloud.com/''
       @ object_key"
| "BuildUrl c FLAG_INTRANET object_key = intranet_base c @ ''/'' @ object_key @ flag_suffix c"
| "BuildUrl c CONFIG_INTRANET object_key = intranet_base c @ ''/'' @ object_key"
| "BuildUrl c HTTP_PROXY object_key = cc_apiserver_addr c @ ''/api/v1/upload/'' @ object_key"

section \<open>curl\<close>

definition curl_put_child :: "string \<Rightarrow> path \<Rightarrow> string \<Rightarrow> string \<Rightarrow> child_spec" where
  "curl_put_child url local_path auth_header token_header =
     \<lparr>cs_program = ''curl'',
      cs_argv = [''curl'', ''-sf'', ''-X'', ''PUT'', ''-w'', ''%{http_code}'', ''-H'', auth_header,
                 ''-H'', token_header, ''-T'', local_path, url],
      cs_setpgid = False, cs_stdout = Some (local_path @ ''.curl_code''), cs_stderr = None,
      cs_exec_error = []\<rparr>"

definition curl_proxy_child :: "string \<Rightarrow> path \<Rightarrow> child_spec" where
  "curl_proxy_child url local_path =
     \<lparr>cs_program = ''curl'',
      cs_argv = [''curl'', ''-sf'', ''-w'', ''%{http_code}'', ''-F'', ''file=@'' @ local_path, url],
      cs_setpgid = False, cs_stdout = Some (local_path @ ''.proxy_code''), cs_stderr = None,
      cs_exec_error = []\<rparr>"

text \<open>The first line of the captured output; empty when there is no file or no byte in it.\<close>

definition read_code :: "os_state \<Rightarrow> path \<Rightarrow> string" where
  "read_code os p =
     (case os_fs os p of
        None \<Rightarrow> []
      | Some s \<Rightarrow> (case getlines (CHR 0x0A) s of [] \<Rightarrow> [] | l # _ \<Rightarrow> l))"

text \<open>
  From \<^verbatim>\<open>waitpid\<close> to the end, common to both uploads.  A child killed by a signal is not
  \<^verbatim>\<open>WIFEXITED\<close>, so its output is still read; \<^verbatim>\<open>std::stoi\<close> is not guarded.
\<close>

definition curl_result ::
  "os_env \<Rightarrow> string \<Rightarrow> string \<Rightarrow> string \<Rightarrow> path \<Rightarrow> nat \<Rightarrow> string \<Rightarrow> os_state \<Rightarrow> (bool \<times> string \<times> os_state) outc" where
  "curl_result env exited no_code http http_code_path child error_msg os =
     (case waitpid env child of
        Inl e \<Rightarrow> Returns (False, ''waitpid failed: '' @ e, os)
      | Inr st \<Rightarrow>
          (case st of
             Exited (Suc c) \<Rightarrow> Returns (False, exited @ show_nat (Suc c), os)
           | _ \<Rightarrow>
               (let code = read_code os http_code_path; os1 = remove_file http_code_path os
                in if code = [] then Returns (False, no_code, os1)
                   else bind_outc (of_res (stoi code)) (\<lambda>http_status.
                          if http_status \<ge> 200 \<and> http_status < 300 then Returns (True, error_msg, os1)
                          else Returns (False, http @ code, os1)))))"

definition CurlPut ::
  "os_env \<Rightarrow> string \<Rightarrow> path \<Rightarrow> string \<Rightarrow> string \<Rightarrow> string \<Rightarrow> os_state \<Rightarrow> (bool \<times> string \<times> os_state) outc" where
  "CurlPut env url local_path auth_header token_header error_msg os =
     (case fork_child env (curl_put_child url local_path auth_header token_header) os of
        (Inl e, os1) \<Rightarrow> Returns (False, ''fork() failed: '' @ e, os1)
      | (Inr child, os1) \<Rightarrow>
          curl_result env ''curl exited with code '' ''no HTTP code from curl'' ''HTTP ''
            (local_path @ ''.curl_code'') child error_msg os1)"

definition CurlProxyUpload ::
  "os_env \<Rightarrow> cos_client \<Rightarrow> path \<Rightarrow> string \<Rightarrow> string \<Rightarrow> os_state \<Rightarrow> (bool \<times> string \<times> os_state) outc" where
  "CurlProxyUpload env c local_path object_key error_msg os =
     (case fork_child env (curl_proxy_child (cc_apiserver_addr c @ ''/api/v1/upload/'' @ object_key) local_path) os of
        (Inl e, os1) \<Rightarrow> Returns (False, ''fork() failed: '' @ e, os1)
      | (Inr child, os1) \<Rightarrow>
          curl_result env ''curl proxy exited with code '' ''no HTTP code from proxy curl'' ''proxy HTTP ''
            (local_path @ ''.proxy_code'') child error_msg os1)"

section \<open>The fallback chain\<close>


definition auth_header :: "cos_client \<Rightarrow> string" where
  "auth_header c = ''Authorization: COS '' @ cos_tmp_ak (cc_config c) @ ''/'' @ cos_tmp_sk (cc_config c)"

definition token_header :: "cos_client \<Rightarrow> string" where
  "token_header c = ''x-cos-security-token: '' @ cos_tmp_token (cc_config c)"

definition try_mode ::
  "os_env \<Rightarrow> cos_client \<Rightarrow> path \<Rightarrow> string \<Rightarrow> cos_upload_mode \<Rightarrow> os_state \<Rightarrow> (bool \<times> string \<times> os_state) outc" where
  "try_mode env c local_path object_key mode os =
     (if mode = HTTP_PROXY then CurlProxyUpload env c local_path object_key [] os
      else CurlPut env (BuildUrl c mode object_key) local_path (auth_header c) (token_header c) [] os)"

fun UploadFile_loop ::
  "os_env \<Rightarrow> cos_client \<Rightarrow> path \<Rightarrow> string \<Rightarrow> cos_upload_mode list \<Rightarrow> string \<Rightarrow> os_state \<Rightarrow>
   (cos_upload_result \<times> os_state) outc" where
  "UploadFile_loop env c local_path object_key [] last_error os =
     Returns (\<lparr>cur_success = False, cur_used_mode = HTTP_PROXY, cur_cos_key = [],
               cur_error_msg = ''all upload modes failed; last: '' @ last_error\<rparr>, os)"
| "UploadFile_loop env c local_path object_key (mode # modes) last_error os =
     (if BuildUrl c mode object_key = []
      then UploadFile_loop env c local_path object_key modes last_error os
      else bind_outc (try_mode env c local_path object_key mode os) (\<lambda>(ok, msg, os1).
             if ok
             then Returns (\<lparr>cur_success = True, cur_used_mode = mode, cur_cos_key = object_key,
                            cur_error_msg = []\<rparr>, os1)
             else UploadFile_loop env c local_path object_key modes
                    (''mode '' @ show_nat (mode_number mode) @ '': '' @ msg) os1))"


section \<open>Lemmas\<close>














section \<open>Properties\<close>



text \<open>
  The third mode is documented as the FLAG route without the configured endpoint, but it builds
  the URL of the first; and the proxy address that can be set is never used.
\<close>

lemma flag_intranet_url_same: "BuildUrl c FLAG_INTRANET key = BuildUrl c INTRANET_FLAG key"
  by simp

lemma http_proxy_unused: "UploadFile_loop env (SetHttpProxy p c) path key modes err os
    = UploadFile_loop env c path key modes err os"
proof (induction modes arbitrary: err os)
  case (Cons mode modes)
  have "BuildUrl (SetHttpProxy p c) mode key = BuildUrl c mode key"
    by (cases mode) (simp_all add: SetHttpProxy_def intranet_base_def flag_suffix_def)
  moreover have "try_mode env (SetHttpProxy p c) path key mode os = try_mode env c path key mode os"
    using calculation by (simp add: try_mode_def CurlProxyUpload_def auth_header_def token_header_def SetHttpProxy_def)
  ultimately show ?case by (simp add: Cons.IH cong: if_cong)
qed simp

text \<open>
  curl writes the response body to the same file as the status, so a server that answers a PUT
  with a body makes the status unreadable: the conversion throws and nothing catches it.
\<close>

lemma response_body_throws:
  assumes "waitpid env n = Inr (Exited 0)" and "os_fs os p = Some (CHR ''{'' # body @ ''200'')"
    and "CHR 0x0A \<notin> set body"
  shows "curl_result env a b h p n msg os = Throws Invalid_argument"
proof -
  have code: "read_code os p = CHR ''{'' # body @ ''200''"
    using assms(2,3) getlines_last [of "CHR 0x0A" "CHR ''{'' # body @ ''200''"] by (simp add: read_code_def)
  have "stoi (CHR ''{'' # s) = Inl Invalid_argument" for s
    by (simp add: stoi_def scan_number_def split_sign_def is_space_def is_digit_def)
  then show ?thesis using assms(1) code by (simp add: curl_result_def of_res_def Let_def)
qed

end
