(* ===== verification/CronSchedules.thy ===== *)
theory CronSchedules
  imports ApiServer
begin

text \<open>
  Scheduled continuous tasks: \<^verbatim>\<open>src/apiserver/server/scheduler.go\<close> and the schedule handlers of
  \<^verbatim>\<open>handler.go\<close>.  The table \<^verbatim>\<open>multi_tasks\<close> has the columns that the tags of
  \<^verbatim>\<open>model.MultiTasks\<close> name, and a statement on a column the table does not have is an error of
  the database.  The cron library decides whether an expression is valid.
\<close>

section \<open>The table\<close>

record multi_task =
  mt_tid :: string
  mt_sub_tids :: "string list"
  mt_type :: int
  mt_trigger_type :: int
  mt_cron_expr :: string
  mt_schedule_params :: create_task_req
  mt_enabled :: bool

abbreviation (input) TriggerCron :: int where "TriggerCron \<equiv> 1"
abbreviation (input) TaskTypeContinuous :: int where "TaskTypeContinuous \<equiv> 1"

text \<open>The text columns, by the names the table has.\<close>

definition mt_text_column :: "string \<Rightarrow> (multi_task \<Rightarrow> string) option" where
  "mt_text_column col =
     (if col = ''t_id'' then Some mt_tid else if col = ''cron_expr'' then Some mt_cron_expr else None)"

text \<open>\<^verbatim>\<open>Where("<col> = ?", v).First(&mt)\<close>\<close>

definition mt_first :: "string \<Rightarrow> string \<Rightarrow> multi_task list \<Rightarrow> multi_task option" where
  "mt_first col v rows =
     (case mt_text_column col of
        None \<Rightarrow> None
      | Some field \<Rightarrow> find (\<lambda>r. field r = v) rows)"

section \<open>The scheduler\<close>

text \<open>The rows, and the schedules the running cron engine has, by the task they belong to.\<close>

record cron_state =
  cs_rows :: "multi_task list"
  cs_entry :: "(string \<times> string) list"

definition RemoveSchedule :: "string \<Rightarrow> cron_state \<Rightarrow> cron_state" where
  "RemoveSchedule mtTid cs = cs\<lparr>cs_entry := filter (\<lambda>(k, _). k \<noteq> mtTid) (cs_entry cs)\<rparr>"

definition AddSchedule :: "(string \<Rightarrow> bool) \<Rightarrow> string \<Rightarrow> string \<Rightarrow> cron_state \<Rightarrow> bool \<times> cron_state" where
  "AddSchedule cron_valid mtTid cronExpr cs =
     (let cs1 = RemoveSchedule mtTid cs
      in if cron_valid cronExpr then (True, cs1\<lparr>cs_entry := cs_entry cs1 @ [(mtTid, cronExpr)]\<rparr>)
         else (False, cs1))"

definition loadExistingSchedules :: "(string \<Rightarrow> bool) \<Rightarrow> cron_state \<Rightarrow> cron_state" where
  "loadExistingSchedules cron_valid cs =
     fold (\<lambda>mt cs'. if mt_cron_expr mt = [] then cs'
                    else snd (AddSchedule cron_valid (mt_tid mt) (mt_cron_expr mt) cs'))
       (filter (\<lambda>mt. mt_trigger_type mt = TriggerCron \<and> mt_enabled mt) (cs_rows cs)) cs"

section \<open>The handlers\<close>

record create_schedule_req =
  cq_name :: string
  cq_cron_expr :: string
  cq_type :: int
  cq_profiler_type :: int
  cq_target_ip :: string
  cq_pid :: int
  cq_hz :: int

definition CreateScheduleTask ::
  "(string \<Rightarrow> bool) \<Rightarrow> bool \<Rightarrow> create_schedule_req option \<Rightarrow> 8 word list \<Rightarrow> cron_state \<Rightarrow> api_reply \<times> cron_state" where
  "CreateScheduleTask cron_valid insert_ok body randBytes cs =
     (case body of
        None \<Rightarrow> (Api_Error 4000010, cs)
      | Some req \<Rightarrow>
          let tid = genTID randBytes;
              params = \<lparr>rq_name = cq_name req, rq_type = TaskTypeContinuous,
                rq_profiler_type = cq_profiler_type req, rq_target_ip = cq_target_ip req,
                rq_pid = cq_pid req, rq_duration = 0, rq_hz = cq_hz req, rq_event = []\<rparr>;
              mt = \<lparr>mt_tid = tid, mt_sub_tids = [], mt_type = cq_type req, mt_trigger_type = TriggerCron,
                mt_cron_expr = cq_cron_expr req, mt_schedule_params = params, mt_enabled = True\<rparr>
          in if \<not> insert_ok \<or> tid \<in> mt_tid ` set (cs_rows cs) then (Api_Error 5000010, cs)
             else (Api_Ok tid,
                   snd (AddSchedule cron_valid tid (cq_cron_expr req) (cs\<lparr>cs_rows := cs_rows cs @ [mt]\<rparr>))))"

definition ToggleSchedule ::
  "(string \<Rightarrow> bool) \<Rightarrow> bool \<Rightarrow> string \<Rightarrow> bool option \<Rightarrow> cron_state \<Rightarrow> api_reply \<times> cron_state" where
  "ToggleSchedule cron_valid update_ok tid body cs =
     (case body of
        None \<Rightarrow> (Api_Error 4000013, cs)
      | Some enabled \<Rightarrow>
          let hit = (\<lambda>r. mt_tid r = tid \<and> mt_trigger_type r = TriggerCron)
          in if \<not> update_ok \<or> filter hit (cs_rows cs) = [] then (Api_Error 4040013, cs)
             else
               let cs1 = cs\<lparr>cs_rows := map (\<lambda>r. if hit r then r\<lparr>mt_enabled := enabled\<rparr> else r) (cs_rows cs)\<rparr>
               in if \<not> enabled then (Api_Ok tid, RemoveSchedule tid cs1)
                  else (Api_Ok tid,
                        case mt_first ''tid'' tid (cs_rows cs1) of
                          Some mt \<Rightarrow> if mt_cron_expr mt = [] then cs1
                                     else snd (AddSchedule cron_valid tid (mt_cron_expr mt) cs1)
                        | None \<Rightarrow> cs1))"

definition DeleteSchedule :: "bool \<Rightarrow> string \<Rightarrow> cron_state \<Rightarrow> api_reply \<times> cron_state" where
  "DeleteSchedule del_ok tid cs =
     (let hit = (\<lambda>r. mt_tid r = tid \<and> mt_trigger_type r = TriggerCron)
      in if \<not> del_ok \<or> filter hit (cs_rows cs) = [] then (Api_Error 4040014, cs)
         else (Api_Ok tid, RemoveSchedule tid (cs\<lparr>cs_rows := filter (\<lambda>r. \<not> hit r) (cs_rows cs)\<rparr>)))"

section \<open>A tick of a schedule\<close>

definition reason_cron :: string where
  "reason_cron = map char_of [231, 148, 177, 229, 174, 154, 230, 151, 182, 232, 167, 132, 229, 136, 153,
     232, 135, 170, 229, 138, 168, 229, 136, 155, 229, 187, 186::nat]"

definition cron_row :: "string \<Rightarrow> string \<Rightarrow> create_task_req \<Rightarrow> time \<Rightarrow> task_row" where
  "cron_row tid mtTid params createTime =
     (pending_row tid ''cron-system'' ''cron-scheduler'' params createTime)
       \<lparr>tk_status_info := reason_cron, tk_master_task_tid := mtTid\<rparr>"

text \<open>
  Returns the call of \<^verbatim>\<open>dispatchTask\<close> it starts.  The update of the list of sub tasks names
  the column \<^verbatim>\<open>sub_tids\<close>, which the table does not have, and its result is ignored.
\<close>

definition dispatchContinuousTask ::
  "pq_env \<Rightarrow> bool \<Rightarrow> string \<Rightarrow> 8 word list \<Rightarrow> time \<Rightarrow> time \<Rightarrow> cron_state \<Rightarrow> pgconn \<Rightarrow>
   (string \<times> create_task_req) option \<times> pgconn" where
  "dispatchContinuousTask env grpc mtTid randBytes createTime now cs c =
     (case mt_first ''tid'' mtTid (cs_rows cs) of
        None \<Rightarrow> (None, c)
      | Some mt \<Rightarrow>
          if \<not> mt_enabled mt then (None, c)
          else
            let params = (mt_schedule_params mt)\<lparr>rq_type := TaskTypeContinuous\<rparr>; tid = genTID randBytes
            in let (ok, c1) = insert_task env (cron_row tid mtTid params createTime) c
               in if \<not> ok then (None, c1)
                  else if grpc then (Some (tid, params), c1)
                  else (None, snd (updateTaskStatus env c1 tid kFailed
                          ''gRPC connection unavailable, cannot dispatch cron task'' now)))"

section \<open>Lemmas\<close>

lemma no_tid_column: "mt_first ''tid'' v rows = None"
  by (simp add: mt_first_def mt_text_column_def)

lemma AddSchedule_entry:
  "cs_entry (snd (AddSchedule cron_valid tid expr cs))
     = filter (\<lambda>(k, _). k \<noteq> tid) (cs_entry cs) @ (if cron_valid expr then [(tid, expr)] else [])"
  "cs_rows (snd (AddSchedule cron_valid tid expr cs)) = cs_rows cs"
  by (simp_all add: AddSchedule_def RemoveSchedule_def Let_def)

text \<open>At most one entry of the engine for each schedule.\<close>

definition cron_inv :: "cron_state \<Rightarrow> bool" where
  "cron_inv cs \<longleftrightarrow> distinct (map fst (cs_entry cs))"

lemma distinct_filter_fst: "distinct (map fst xs) \<Longrightarrow> distinct (map fst (filter P xs))"
  by (induction xs) auto

lemma cron_inv_Add: "cron_inv cs \<Longrightarrow> cron_inv (snd (AddSchedule cron_valid tid expr cs))"
  by (auto simp: cron_inv_def AddSchedule_entry distinct_filter_fst)

lemma cron_inv_Remove: "cron_inv cs \<Longrightarrow> cron_inv (RemoveSchedule tid cs)"
  by (simp add: cron_inv_def RemoveSchedule_def distinct_filter_fst)

lemma cron_inv_rows: "cron_inv (cs\<lparr>cs_rows := rows\<rparr>) = cron_inv cs"
  by (simp add: cron_inv_def)

lemma cron_inv_load: "cron_inv cs \<Longrightarrow> cron_inv (loadExistingSchedules cron_valid cs)"
proof -
  have "cron_inv cs \<Longrightarrow> cron_inv (fold (\<lambda>mt cs'. if mt_cron_expr mt = [] then cs'
      else snd (AddSchedule cron_valid (mt_tid mt) (mt_cron_expr mt) cs')) mts cs)" for mts :: "multi_task list"
    by (induction mts arbitrary: cs) (simp_all add: cron_inv_Add)
  then show "cron_inv cs \<Longrightarrow> cron_inv (loadExistingSchedules cron_valid cs)"
    by (simp add: loadExistingSchedules_def)
qed

lemma cron_inv_handlers:
  assumes "cron_inv cs"
  shows "cron_inv (snd (CreateScheduleTask cron_valid ok body rnd cs))"
    and "cron_inv (snd (ToggleSchedule cron_valid ok tid enabled cs))"
    and "cron_inv (snd (DeleteSchedule ok tid cs))"
  using assms
  by (simp_all add: CreateScheduleTask_def ToggleSchedule_def DeleteSchedule_def Let_def no_tid_column
      cron_inv_Add cron_inv_Remove cron_inv_rows split: option.split)

text \<open>
  Every lookup of a schedule by its task id names a column the table does not have.  So a tick of a
  schedule never creates or dispatches a task, whatever the tables hold.
\<close>

theorem cron_never_dispatches:
  "dispatchContinuousTask env grpc mtTid rnd ct now cs c = (None, c)"
  by (simp add: dispatchContinuousTask_def no_tid_column)

text \<open>For the same reason enabling a schedule again leaves the running engine without it.\<close>

theorem reenabled_schedule_not_registered:
  assumes "ToggleSchedule cron_valid ok tid (Some False) cs = (reply, cs1)" and "reply = Api_Ok tid"
    and "ToggleSchedule cron_valid ok' tid (Some True) cs1 = (reply', cs2)"
  shows "tid \<notin> fst ` set (cs_entry cs2)"
  using assms by (auto simp: ToggleSchedule_def Let_def no_tid_column RemoveSchedule_def split: if_splits)

end
