(* ===== verification/NLProofs.thy ===== *)
theory NLProofs
  imports ApiProofs DropServer
begin

text \<open>
  Correctness of the chat.  A message creates a task exactly as its intent says when the parser
  runs.  When the parser does not run, the intent that the Go code reads from the message is lost.
  Questions about a task never reach its suggestions, a retried task goes to a queue that no agent
  asks for, and a cut task name need not be UTF-8.
\<close>

section \<open>The intent of a message\<close>

lemma go_int_nat: "n < 2 ^ 63 \<Longrightarrow> go_int (real n) = int n"
  by (simp add: go_int_def)

lemma intent_req_parsed:
  "intent_req (json_of_intent enc i) =
     \<lparr>rq_name = [], rq_type = 0, rq_profiler_type = go_int (real (in_profiler_type i)),
      rq_target_ip = (case in_target_ip i of Some ip \<Rightarrow> if enc ip = [] then ''127.0.0.1'' else enc ip | None \<Rightarrow> ''127.0.0.1''),
      rq_pid = go_int (real (in_pid i)),
      rq_duration = go_int (real (if in_duration i = 0 then 10 else in_duration i)), rq_hz = 99, rq_event = []\<rparr>"
  by (simp add: intent_req_def json_of_intent_def as_float_def as_string_def Let_def split: option.split)

text \<open>The Go fallback only ever stores integers, which the handler does not take for numbers.\<close>

definition fallback_map :: "go_map \<Rightarrow> bool" where
  "fallback_map m \<longleftrightarrow> m ''target_ip'' = Some (Go_string ''127.0.0.1'')
     \<and> (\<exists>a b c. m ''pid'' = Some (Go_int a) \<and> m ''profiler_type'' = Some (Go_int b) \<and> m ''duration'' = Some (Go_int c))"

lemma fallback_map_steps:
  assumes "fallback_map m"
  shows "fallback_map (set_duration s suf m)" and "fallback_map (set_pid s pre m)"
  using assms
  by (auto simp: fallback_map_def set_duration_def set_pid_def Let_def split: option.split nat.split)

lemma fallback_map_fold:
  assumes "fallback_map m" and "\<And>x m. fallback_map m \<Longrightarrow> fallback_map (f x m)"
  shows "fallback_map (fold f xs m)"
  using assms(1) by (induction xs arbitrary: m) (simp_all add: assms(2))

lemma goNLFallback_map: "fallback_map (goNLFallback lower s)"
  unfolding goNLFallback_def Let_def
  by (intro fallback_map_fold fallback_map_steps) (auto simp: fallback_map_def)

theorem fallback_intent_lost:
  assumes "run s agents = None"
  shows "intent_req (parseNLIntent run lower s agents) =
    \<lparr>rq_name = [], rq_type = 0, rq_profiler_type = 0, rq_target_ip = ''127.0.0.1'', rq_pid = 0, rq_duration = 10,
     rq_hz = 99, rq_event = []\<rparr>"
  using assms goNLFallback_map [of lower s]
  by (auto simp: parseNLIntent_def intent_req_def fallback_map_def as_float_def as_string_def go_int_def)

section \<open>Questions about a task\<close>

lemma no_tid_suggestions: "find_suggestions ''tid'' tid sugs = []"
  by (simp add: find_suggestions_def sug_column_def)

text \<open>
  The table of suggestions has no column \<^verbatim>\<open>tid\<close>.  So an answer gives the status of the task,
  whatever the analysis has found.
\<close>

theorem nl_answer_ignores_analysis:
  "nlAnswerAboutTask env parse sugs c tid = nlAnswerAboutTask env parse' [] c tid"
  by (simp add: nlAnswerAboutTask_def no_tid_suggestions ai_suggestion_def Let_def find_suggestions_def sug_column_def
      cong: option.case_cong list.case_cong)

section \<open>The event stream\<close>

text \<open>
  Up to its end the stream has status events only.  A stream that has ended ends with the result or an
  error, unless the client has gone.
\<close>

definition sse_final :: "sse_event \<Rightarrow> bool" where
  "sse_final e \<longleftrightarrow> e = Sse_complete [] \<or> (\<exists>m. e = Sse_error m)"

definition sse_status :: "sse_event \<Rightarrow> bool" where
  "sse_status e \<longleftrightarrow> (\<exists>a b c. e = Sse_status a b c)"

lemma sse_step:
  assumes X_def: "X = NLStreamSSE sugs tid (Sse_tick elapsed row # rest)"
  obtains e where "sse_final e" "X = ([e], True)"
  | st e where "sse_status st" "sse_final e" "X = ([st, e], True)"
  | st where "sse_status st" "elapsed \<le> 300 * 10 ^ 9" "X = apfst ((#) st) (NLStreamSSE sugs tid rest)"
proof (cases "elapsed > 300 * 10 ^ 9 \<or> row = None")
  case True
  then have "X = ([Sse_error ''timeout waiting for analysis''], True) \<or> X = ([Sse_error ''task not found''], True)"
    by (auto simp: X_def)
  then show thesis using that(1) by (auto simp: sse_final_def)
next
  case False
  then obtain task where row: "row = Some task" and el: "elapsed \<le> 300 * 10 ^ 9" by auto
  let ?st = "Sse_status (tk_status task) (tk_status_info task) (tk_analysis_status task)"
  have st: "sse_status ?st" by (simp add: sse_status_def)
  show thesis
  proof (cases "tk_analysis_status task = 2 \<or> tk_analysis_status task = 3 \<or> tk_status task = kFailed")
    case True
    then have "\<exists>e. sse_final e \<and> X = ([?st, e], True)"
      using el by (auto simp: X_def row no_tid_suggestions sse_final_def Let_def)
    then show thesis using that(2) [OF st] by blast
  next
    case False
    then have "X = apfst ((#) ?st) (NLStreamSSE sugs tid rest)"
      using el by (cases "NLStreamSSE sugs tid rest") (simp add: X_def row Let_def)
    then show thesis using that(3) [OF st el] by blast
  qed
qed

theorem sse_shape:
  assumes "NLStreamSSE sugs tid ins = (es, True)" and "Sse_gone \<notin> set ins"
  shows "\<exists>sts e. es = sts @ [e] \<and> list_all sse_status sts \<and> sse_final e"
  using assms
proof (induction ins arbitrary: es)
  case (Cons x rest)
  then obtain elapsed row where x: "x = Sse_tick elapsed row" by (cases x) auto
  show ?case
  proof (rule sse_step [OF refl, of sugs tid elapsed row rest])
    fix e
    assume "sse_final e" "NLStreamSSE sugs tid (Sse_tick elapsed row # rest) = ([e], True)"
    then show ?thesis using Cons.prems(1) x by (intro exI [of _ "[]"]) auto
  next
    fix st e
    assume "sse_status st" "sse_final e" "NLStreamSSE sugs tid (Sse_tick elapsed row # rest) = ([st, e], True)"
    then show ?thesis using Cons.prems(1) x by (intro exI [of _ "[st]"]) auto
  next
    fix st
    assume st: "sse_status st"
      "NLStreamSSE sugs tid (Sse_tick elapsed row # rest) = apfst ((#) st) (NLStreamSSE sugs tid rest)"
    then obtain es' where es: "es = st # es'" "NLStreamSSE sugs tid rest = (es', True)"
      using Cons.prems(1) x by (cases "NLStreamSSE sugs tid rest") auto
    then obtain sts e where "es' = sts @ [e] \<and> list_all sse_status sts \<and> sse_final e"
      using Cons.IH Cons.prems(2) by auto
    then show ?thesis using es(1) st(1) by (intro exI [of _ "st # sts"]) auto
  qed
qed simp

text \<open>
  The ticks are three seconds apart, so the handler has returned after the tick that follows the
  fifth minute.
\<close>

lemma sse_ends_late:
  assumes "Sse_tick elapsed row \<in> set ins" and "300 * 10 ^ 9 < elapsed"
  shows "snd (NLStreamSSE sugs tid ins)"
  using assms(1)
proof (induction ins)
  case (Cons x rest)
  show ?case
  proof (cases x)
    case (Sse_tick el r)
    then show ?thesis
      using Cons assms(2) by (cases rule: sse_step [OF refl, of sugs tid el r rest]) (auto simp: sse_status_def)
  qed simp
qed simp

theorem sse_returns:
  assumes "length ins = 101" and "\<forall>i < 101. \<exists>e r. ins ! i = Sse_tick e r \<and> 3 * 10 ^ 9 * (i + 1) \<le> e"
  shows "snd (NLStreamSSE sugs tid ins)"
proof -
  have "\<exists>e r. ins ! 100 = Sse_tick e r \<and> 3 * 10 ^ 9 * (100 + 1) \<le> e" by (rule assms(2) [rule_format]) simp
  then obtain e r where e: "ins ! 100 = Sse_tick e r" "3 * 10 ^ 9 * (100 + 1) \<le> e" by blast
  then have "Sse_tick e r \<in> set ins" using assms(1) nth_mem [of 100 ins] by simp
  then show ?thesis by (rule sse_ends_late) (use e(2) in simp)
qed

section \<open>Names and encodings\<close>

text \<open>The byte sequences that are UTF-8; a text column of the database accepts no others.\<close>

definition utf8_cont :: "nat \<Rightarrow> bool" where
  "utf8_cont b \<longleftrightarrow> 0x80 \<le> b \<and> b < 0xC0"

fun utf8_valid :: "nat list \<Rightarrow> bool" where
  "utf8_valid [] = True"
| "utf8_valid (a # s) =
     (if a < 0x80 then utf8_valid s
      else if 0xC2 \<le> a \<and> a < 0xE0 then (case s of b # t \<Rightarrow> utf8_cont b \<and> utf8_valid t | _ \<Rightarrow> False)
      else if 0xE0 \<le> a \<and> a < 0xF0
      then (case s of b # c # t \<Rightarrow> utf8_cont b \<and> utf8_cont c \<and> (a = 0xE0 \<longrightarrow> 0xA0 \<le> b) \<and> (a = 0xED \<longrightarrow> b < 0xA0) \<and> utf8_valid t
            | _ \<Rightarrow> False)
      else if 0xF0 \<le> a \<and> a < 0xF5
      then (case s of b # c # d # t \<Rightarrow> utf8_cont b \<and> utf8_cont c \<and> utf8_cont d \<and> (a = 0xF0 \<longrightarrow> 0x90 \<le> b)
              \<and> (a = 0xF4 \<longrightarrow> b < 0x90) \<and> utf8_valid t
            | _ \<Rightarrow> False)
      else False)"

text \<open>A character of three bytes, as the Chinese ones are.\<close>

definition three_bytes :: "nat list \<Rightarrow> bool" where
  "three_bytes x \<longleftrightarrow> (\<exists>a b c. x = [a, b, c] \<and> 0xE1 \<le> a \<and> a \<le> 0xEC \<and> utf8_cont b \<and> utf8_cont c)"

lemma utf8_three [simp]: "three_bytes x \<Longrightarrow> utf8_valid (x @ s) = utf8_valid s"
  by (auto simp: three_bytes_def)

lemma utf8_three_list: "list_all three_bytes xs \<Longrightarrow> utf8_valid (concat xs @ s) = utf8_valid s"
  by (induction xs) auto

lemma take_three:
  "list_all three_bytes xs \<Longrightarrow> k < length xs \<Longrightarrow>
   take (3 * k + 1) (concat xs) = concat (take k xs) @ [hd (xs ! k)]"
proof (induction k arbitrary: xs)
  case 0
  then show ?case by (cases xs) (auto simp: three_bytes_def)
next
  case (Suc k)
  then obtain x ys where xs: "xs = x # ys" by (cases xs) auto
  then have "length x = 3" using Suc.prems by (auto simp: three_bytes_def)
  then show ?case using Suc xs by simp
qed

text \<open>
  A message of more than 33 three-byte characters is UTF-8, but the name of its task is not: the cut
  after 100 bytes falls inside a character.
\<close>

theorem nl_name_not_utf8:
  assumes "list_all three_bytes xs" and "33 < length xs" and "map of_char msg = concat xs"
  shows "utf8_valid (map of_char msg) \<and> \<not> utf8_valid (map of_char (tk_name (nl_row tid uid nm msg req ct)))"
proof
  show "utf8_valid (map of_char msg)" using utf8_three_list [OF assms(1), of "[]"] assms(3) by simp
  have "length (concat ys) = 3 * length ys" if "list_all three_bytes ys" for ys
    using that by (induction ys) (auto simp: three_bytes_def)
  from this [OF assms(1)] have "length msg = 3 * length xs" using arg_cong [OF assms(3), of length] by simp
  then have "100 < length msg" using assms(2) by simp
  then have "map of_char (tk_name (nl_row tid uid nm msg req ct)) = map of_char ''NL: '' @ take (3 * 33 + 1) (concat xs)"
    using assms(3) by (simp add: nl_row_def truncate_to_def take_map [symmetric])
  also have "\<dots> = map of_char ''NL: '' @ concat (take 33 xs) @ [hd (xs ! 33)]"
    by (subst take_three [OF assms(1,2)]) simp
  finally have name: "map of_char (tk_name (nl_row tid uid nm msg req ct))
      = map of_char ''NL: '' @ concat (take 33 xs) @ [hd (xs ! 33)]" .
  have "three_bytes (xs ! 33)" "list_all three_bytes (take 33 xs)"
    using assms(1,2) by (auto simp: list_all_iff dest: in_set_takeD)
  then show "\<not> utf8_valid (map of_char (tk_name (nl_row tid uid nm msg req ct)))"
    unfolding name by (auto simp: utf8_three_list three_bytes_def)
qed

section \<open>Retrying a task of the chat\<close>

text \<open>
  The stored parameters of such a task name no target.  A retry therefore leaves the task PENDING,
  \<^verbatim>\<open>drop_server\<close> accepts it, and it waits in the queue of the empty address, which is the queue of
  no agent that has an address.
\<close>

theorem nl_retry_misrouted:
  assumes "task_inv (db c)" and "txn c = None" and "all_ok env"
    and "r \<in> set (hotmethod_task_tbl (db c))" "tk_tid r = tid" "tk_uid r = uid" "tk_status r = kFailed" "\<not> tk_deleted r"
    and "tk_request_params r = tk_request_params (nl_row tid uid nm msg req ct)"
    and "APIServer_RetryTask env True c uid tid now = (reply, dispatch, c')"
    and "fst (CheckDeadline ctx) = OK" and "ip \<noteq> []"
  shows "reply = Api_Ok tid \<and> status_of (db c') tid = Some kPending
    \<and> (\<exists>req'. dispatch = Some (tid, req')
         \<and> ctr_success (fst (snd (CreateTask ctx (dispatch_request tid req') s)))
         \<and> queued (g_task_queue (snd (snd (CreateTask ctx (dispatch_request tid req') s)))) ip
           = queued (g_task_queue s) ip)"
  using retry_effect [OF assms(1-8,10)] assms(9,11,12)
  by (simp add: CreateTask_def dispatch_request_def nl_row_def Let_def queued_def Push_def)

section \<open>Properties\<close>

definition fallback_req :: create_task_req where
  "fallback_req = \<lparr>rq_name = [], rq_type = 0, rq_profiler_type = 0, rq_target_ip = ''127.0.0.1'', rq_pid = 0,
     rq_duration = 10, rq_hz = 99, rq_event = []\<rparr>"

lemma getAvailableAgents_ok:
  "all_ok env \<Longrightarrow> getAvailableAgents env c =
    (if filter ag_online (agent_info_tbl (db c)) = [] then [(''127.0.0.1'', ''localhost'')]
     else map (\<lambda>a. (ag_ip_addr a, ag_hostname a)) (filter ag_online (agent_info_tbl (db c))),
     c\<lparr>stmt_no := Suc (stmt_no c)\<rparr>)"
  by (simp add: getAvailableAgents_def exec_stmt_ok gorm_find_agents_def)

text \<open>
  C23. A chat message creates a task.  When the database answers and the random identifier is new, a
  message of at most 1000 bytes that is not about a task creates one: it is stored under the user,
  logged as PENDING, and its dispatch is started with the request that the parser's intent gives;
  no other task changes its status and the history invariant is kept.  The parser's fields reach the
  request when they are at most 2 to the 53, up to which a float64 is exact; when the parser does not
  run, the request is a fixed one, whatever the message says.
\<close>

theorem nl_chat_effect:
  assumes inv: "task_inv (db c)" and notx: "txn c = None" and ok: "all_ok env"
    and msg: "0 < length (nq_message q)" "length (nq_message q) \<le> 1000" "nq_tid q = []"
    and new: "genTID rnd \<notin> tk_tid ` set (hotmethod_task_tbl (db c))"
    and run: "NLChat env nl sugs grpc c uid nm (Some q) rnd ct = (reply, dispatch, c')"
    and agents: "agents = fst (getAvailableAgents env c)"
    and req: "req = (case nl_parser nl (nq_message q) agents of None \<Rightarrow> fallback_req | Some m \<Rightarrow> intent_req m)"
  shows "reply = NL_Resp \<lparr>nr_type = NL_task_created, nr_content = created_text (genTID rnd) req, nr_tid = genTID rnd\<rparr>
    \<and> dispatch = (if grpc then Some (genTID rnd, req) else None) \<and> task_inv (db c')
    \<and> hotmethod_task_tbl (db c') = hotmethod_task_tbl (db c) @ [nl_row (genTID rnd) uid nm (nq_message q) req ct]
    \<and> (\<forall>t. status_of (db c') t = (if t = genTID rnd then Some kPending else status_of (db c) t))
    \<and> (nl_parser nl = parser_process uni dec enc now \<longrightarrow>
         (\<forall>i. parse_intent uni now (dec (nq_message q)) (map (\<lambda>a. dec (fst a)) agents) = Some i
            \<and> in_pid i \<le> 2 ^ 53 \<and> in_duration i \<le> 2 ^ 53 \<longrightarrow>
              rq_pid req = int (in_pid i) \<and> rq_profiler_type req = int (in_profiler_type i) \<and> in_profiler_type i \<le> 3
              \<and> rq_duration req = (if in_duration i = 0 then 10 else int (in_duration i))))"
proof -
  let ?c1 = "c\<lparr>stmt_no := Suc (stmt_no c)\<rparr>"
  have intent: "intent_req (parseNLIntent (nl_parser nl) (nl_lower nl) (nq_message q) agents) = req"
    using fallback_intent_lost [of "nl_parser nl" "nq_message q" agents "nl_lower nl"]
    by (auto simp: req fallback_req_def parseNLIntent_def split: option.split)
  have a: "getAvailableAgents env c = (agents, ?c1)" using agents by (simp add: getAvailableAgents_ok [OF ok])
  obtain c2 where i: "insert_task env (nl_row (genTID rnd) uid nm (nq_message q) req ct) ?c1 = (True, c2)"
    and c2: "task_inv (db c2)"
      "hotmethod_task_tbl (db c2) = hotmethod_task_tbl (db c) @ [nl_row (genTID rnd) uid nm (nq_message q) req ct]"
      "\<And>t. status_of (db c2) t = (if t = genTID rnd then Some kPending else status_of (db c) t)"
    using insert_task_ok [of ?c1 env "nl_row (genTID rnd) uid nm (nq_message q) req ct"] inv notx ok new by auto
  have fields: "rq_pid req = int (in_pid i) \<and> rq_profiler_type req = int (in_profiler_type i) \<and> in_profiler_type i \<le> 3
      \<and> rq_duration req = (if in_duration i = 0 then 10 else int (in_duration i))"
    if p: "nl_parser nl = parser_process uni dec enc now"
      "parse_intent uni now (dec (nq_message q)) (map (\<lambda>a. dec (fst a)) agents) = Some i"
      "in_pid i \<le> 2 ^ 53" "in_duration i \<le> 2 ^ 53" for i
  proof -
    have "in_profiler_type i \<le> 3"
      using p(2) profiler_type_range by (auto simp: parse_intent_def split: option.splits)
    moreover have "req = intent_req (json_of_intent enc i)" using p(1,2) by (simp add: req parser_process_def)
    ultimately show ?thesis using p(3,4) by (simp add: intent_req_parsed go_int_nat)
  qed
  show ?thesis
    using run msg c2 fields by (auto simp: NLChat_def a Let_def intent i)
qed

definition ascii_unicode :: unicode where
  "ascii_unicode = \<lparr>u_digit = (\<lambda>c. if 48 \<le> c \<and> c \<le> 57 then Some (nat (c - 48)) else None), u_space = (\<lambda>c. c = 32),
     u_lower = map (\<lambda>c. if 65 \<le> c \<and> c \<le> 90 then c + 32 else c)\<rparr>"

definition sample_nl :: nl_env where
  "sample_nl = \<lparr>nl_parser = parser_process ascii_unicode (map of_char) (map char_of) 0, nl_lower = id,
     nl_json = (\<lambda>_. None)\<rparr>"

definition sample_message :: nl_chat_req where
  "sample_message = \<lparr>nq_message = ''Java pid 42'', nq_tid = []\<rparr>"

lemma sample_intent:
  "parse_intent ascii_unicode 0 (map of_char (nq_message sample_message)) [map of_char ''127.0.0.1''] =
     Some \<lparr>in_pid = 42, in_profiler_type = 1, in_duration = 10, in_target_ip = Some (map of_char ''127.0.0.1''),
       in_time_range = None, in_raw_text = map of_char (nq_message sample_message)\<rparr>"
  by code_simp

theorem nl_chat_effect_witness:
  "\<exists>req. fst (snd (NLChat sample_env sample_nl [] True fresh_conn ''u'' ''user'' (Some sample_message) sample_bytes 0))
       = Some (genTID sample_bytes, req)
     \<and> rq_pid req = 42 \<and> rq_profiler_type req = 1 \<and> rq_duration req = 10"
proof -
  have c: "task_inv (db fresh_conn)" "txn fresh_conn = None"
    "genTID sample_bytes \<notin> tk_tid ` set (hotmethod_task_tbl (db fresh_conn))"
    by (simp_all add: task_inv_def fresh_conn_def empty_db_def)
  have q: "0 < length (nq_message sample_message)" "length (nq_message sample_message) \<le> 1000" "nq_tid sample_message = []"
    by (simp_all add: sample_message_def)
  obtain reply dispatch c' where
    r: "NLChat sample_env sample_nl [] True fresh_conn ''u'' ''user'' (Some sample_message) sample_bytes 0 = (reply, dispatch, c')"
    by (metis prod.collapse)
  have a: "fst (getAvailableAgents sample_env fresh_conn) = [(''127.0.0.1'', ''localhost'')]"
    by (simp add: getAvailableAgents_ok [OF sample_env_ok(1)] fresh_conn_def empty_db_def)
  have p: "nl_parser sample_nl = parser_process ascii_unicode (map of_char) (map char_of) 0" by (simp add: sample_nl_def)
  show ?thesis
    using nl_chat_effect [OF c(1,2) sample_env_ok(1) q c(3) r refl refl, of ascii_unicode "map of_char" "map char_of" 0] p r
      sample_intent by (auto simp: a)
qed

end
