(* ===== verification/FlameTree.thy ===== *)
theory FlameTree
  imports StackMap
begin

text \<open>
  The flame graph tree, \<^verbatim>\<open>src/analysis/drop_analyzer/collapsed2tree.py\<close>: a collapsed text
  becomes a tree of frames, whose node values are first the counts of the stacks that end there and
  then the totals of the subtrees.  Text is ASCII here: the white space and the line breaks of Python
  beyond ASCII are not modelled.
\<close>

section \<open>Text as Python reads it\<close>

definition py_space :: "char \<Rightarrow> bool" where
  "py_space c \<longleftrightarrow> (let n = (of_char c :: nat) in (9 \<le> n \<and> n \<le> 13) \<or> (28 \<le> n \<and> n \<le> 32))"

definition py_break :: "char \<Rightarrow> bool" where
  "py_break c \<longleftrightarrow> (let n = (of_char c :: nat) in (10 \<le> n \<and> n \<le> 13) \<or> (28 \<le> n \<and> n \<le> 30))"

definition py_strip :: "string \<Rightarrow> string" where
  "py_strip s = strip_back py_space (strip_front py_space s)"

text \<open>
  The lines of a text, for a set of breaks; a carriage return and line feed are one break.
  \<^verbatim>\<open>s.splitlines()\<close> breaks at all of them, a text file at line feeds and carriage returns.
\<close>

function py_lines :: "(char \<Rightarrow> bool) \<Rightarrow> string \<Rightarrow> string list" where
  "py_lines brk s =
     (if s = [] then []
      else let l = takeWhile (\<lambda>c. \<not> brk c) s; rest = drop (length l) s
           in l # py_lines brk (if take 2 rest = [CHR 0x0D, CHR 0x0A] then drop 2 rest else drop 1 rest))"
  by pat_completeness auto
termination
proof (relation "measure (\<lambda>(brk, s). length s)", goal_cases)
  case (2 brk s l rest)
  have "rest = dropWhile (\<lambda>c. \<not> brk c) s" by (simp add: 2 dropWhile_eq_drop)
  then have "length rest \<le> length s" by (simp add: length_dropWhile_le)
  moreover have "rest = [] \<or> length (drop 1 rest) < length rest" by (cases rest) auto
  moreover have "length s > 0" using 2 by simp
  ultimately show ?case by auto
qed simp

declare py_lines.simps [simp del]

definition py_splitlines :: "string \<Rightarrow> string list" where
  "py_splitlines s = py_lines py_break s"

definition py_file_lines :: "string \<Rightarrow> string list" where
  "py_file_lines s = py_lines (\<lambda>c. c = CHR 0x0A \<or> c = CHR 0x0D) s"

text \<open>\<^verbatim>\<open>s.split(d)\<close> for one character.\<close>

fun py_split :: "char \<Rightarrow> string \<Rightarrow> string list" where
  "py_split d [] = [[]]"
| "py_split d (x # xs) =
     (if x = d then [] # py_split d xs
      else (x # hd (py_split d xs)) # tl (py_split d xs))"

text \<open>
  \<^verbatim>\<open>int(s)\<close>: white space around, one sign, digits with single underscores between them.
\<close>

fun py_digits :: "string \<Rightarrow> bool" where
  "py_digits [] = False"
| "py_digits [c] = is_digit c"
| "py_digits (c # d # cs) =
     (is_digit c \<and> (if d = CHR ''_'' then py_digits cs else py_digits (d # cs)))"

definition py_int :: "string \<Rightarrow> int option" where
  "py_int s =
     (let (neg, ds) = split_sign (py_strip s); n = int (digits_val (filter is_digit ds))
      in if py_digits ds then Some (if neg then - n else n) else None)"

text \<open>A line of collapsed text: the stack and its count, unless the loop continues.\<close>

definition collapsed_sample :: "string \<Rightarrow> (string \<times> int) option" where
  "collapsed_sample line0 =
     (let line = py_strip line0
      in if line = [] then None
         else case rfind_char (CHR '' '') line of
                None \<Rightarrow> None
              | Some last_space \<Rightarrow>
                  map_option (Pair (take last_space line)) (py_int (drop (last_space + 1) line)))"

section \<open>The tree\<close>

datatype flame_node = Node (node_name: string) (node_value: int) (node_children: "flame_node list")

text \<open>
  Walk down the frames, creating the nodes that are missing, and add the count to the last one.  The
  child that is searched is the first of that name; a new one goes to the end.
\<close>

fun insert_stack :: "string list \<Rightarrow> int \<Rightarrow> flame_node \<Rightarrow> flame_node"
  and insert_children :: "string \<Rightarrow> string list \<Rightarrow> int \<Rightarrow> flame_node list \<Rightarrow> flame_node list" where
  "insert_stack [] n (Node name v cs) = Node name (v + n) cs"
| "insert_stack (f # fs) n (Node name v cs) = Node name v (insert_children f fs n cs)"
| "insert_children f fs n [] = [insert_stack fs n (Node f 0 [])]"
| "insert_children f fs n (c # cs) =
     (if node_name c = f then insert_stack fs n c # cs else c # insert_children f fs n cs)"

fun propagate :: "flame_node \<Rightarrow> flame_node" where
  "propagate (Node name v cs) =
     (if cs = [] then Node name v cs
      else let cs' = map propagate cs in Node name (v + sum_list (map node_value cs')) cs')"

definition stack_frames :: "nat \<Rightarrow> string \<Rightarrow> string list" where
  "stack_frames max_depth stack =
     (let frames = py_split (CHR '';'') stack
      in if length frames > max_depth then take max_depth frames else frames)"

definition add_line :: "nat \<Rightarrow> string \<Rightarrow> flame_node \<Rightarrow> flame_node" where
  "add_line max_depth line root =
     (case collapsed_sample line of
        None \<Rightarrow> root
      | Some (stack, n) \<Rightarrow> if n \<le> 0 then root else insert_stack (stack_frames max_depth stack) n root)"

definition collapsed_to_tree :: "nat \<Rightarrow> string \<Rightarrow> flame_node" where
  "collapsed_to_tree max_depth text =
     propagate (fold (add_line max_depth) (py_splitlines (py_strip text)) (Node ''root'' 0 []))"

section \<open>Reading the tree\<close>

fun lookup_path :: "string list \<Rightarrow> flame_node \<Rightarrow> flame_node option" where
  "lookup_path [] t = Some t"
| "lookup_path (f # fs) t =
     (case find (\<lambda>c. node_name c = f) (node_children t) of None \<Rightarrow> None | Some c \<Rightarrow> lookup_path fs c)"

text \<open>The samples of a text: the frames, cut at the depth limit, and the count.\<close>

definition samples :: "nat \<Rightarrow> string \<Rightarrow> (string list \<times> int) list" where
  "samples max_depth text =
     map (\<lambda>(stack, n). (stack_frames max_depth stack, n))
       (filter (\<lambda>(_, n). n > 0) (List.map_filter collapsed_sample (py_splitlines (py_strip text))))"

definition below :: "string list \<Rightarrow> (string list \<times> int) list \<Rightarrow> (string list \<times> int) list" where
  "below p ss = filter (\<lambda>s. prefix p (fst s)) ss"

section \<open>Lemmas\<close>

fun subtotal :: "flame_node \<Rightarrow> int" where
  "subtotal (Node name v cs) = v + sum_list (map subtotal cs)"

lemma propagate_sel [simp]:
  "node_value (propagate t) = subtotal t" "node_name (propagate t) = node_name t"
proof -
  show "node_value (propagate t) = subtotal t"
  proof (induction t rule: propagate.induct)
    case (1 name v cs)
    then have "cs \<noteq> [] \<Longrightarrow> map (\<lambda>c. node_value (propagate c)) cs = map subtotal cs" by simp
    then show ?case by (simp add: Let_def comp_def del: map_eq_conv)
  qed
  show "node_name (propagate t) = node_name t" by (cases t) (simp add: Let_def)
qed

lemma children_propagate: "node_children (propagate t) = map propagate (node_children t)"
  by (cases t) (simp add: Let_def)

lemma find_map: "find P (map f xs) = map_option f (find (P \<circ> f) xs)"
  by (induction xs) auto

lemma lookup_propagate: "lookup_path p (propagate t) = map_option propagate (lookup_path p t)"
proof (induction p arbitrary: t)
  case (Cons f p)
  have "(\<lambda>c. node_name c = f) \<circ> propagate = (\<lambda>c. node_name c = f)" by (simp add: fun_eq_iff)
  then show ?case using Cons by (simp add: children_propagate find_map split: option.split)
qed simp

lemma total_insert:
  "subtotal (insert_stack fs n t) = subtotal t + n"
  "sum_list (map subtotal (insert_children f fs n cs)) = sum_list (map subtotal cs) + n"
  by (induction fs n t and f fs n cs rule: insert_stack_insert_children.induct) simp_all

lemma name_insert [simp]: "node_name (insert_stack fs n t) = node_name t"
  by (cases t; cases fs) simp_all

lemma find_insert_children:
  "find (\<lambda>c. node_name c = g) (insert_children f fs n cs) =
     (if g = f
      then Some (insert_stack fs n (case find (\<lambda>c. node_name c = f) cs of None \<Rightarrow> Node f 0 [] | Some c \<Rightarrow> c))
      else find (\<lambda>c. node_name c = g) cs)"
  by (induction cs) auto

definition total_at :: "string list \<Rightarrow> flame_node \<Rightarrow> int option" where
  "total_at p t = map_option subtotal (lookup_path p t)"

lemma total_at_leaf: "total_at p (Node f 0 []) = (if p = [] then Some 0 else None)"
  by (cases p) (simp_all add: total_at_def)

lemma total_at_insert:
  "total_at p (insert_stack fs n t) =
     (if prefix p fs then Some ((case total_at p t of None \<Rightarrow> 0 | Some v \<Rightarrow> v) + n) else total_at p t)"
proof (induction p arbitrary: fs t)
  case Nil
  then show ?case by (simp add: total_at_def total_insert)
next
  case IH: (Cons g p)
  obtain name v cs where t: "t = Node name v cs" by (cases t)
  show ?case
  proof (cases fs)
    case (Cons f fs')
    have leaf: "total_at p (Node g 0 []) = (if p = [] then Some 0 else None)" by (rule total_at_leaf)
    show ?thesis
    proof (cases "g = f")
      case True
      show ?thesis
        using IH.IH [of fs' "case find (\<lambda>c. node_name c = f) cs of None \<Rightarrow> Node f 0 [] | Some c \<Rightarrow> c"] True leaf
        by (auto simp: total_at_def t Cons find_insert_children split: option.splits if_splits)
    next
      case False
      then show ?thesis by (simp add: total_at_def t Cons find_insert_children)
    qed
  qed (simp add: total_at_def t)
qed

lemma total_at_fold:
  "total_at p (fold (\<lambda>(fs, n). insert_stack fs n) ss t) =
     (if below p ss = [] then total_at p t
      else Some ((case total_at p t of None \<Rightarrow> 0 | Some v \<Rightarrow> v) + sum_list (map snd (below p ss))))"
proof (induction ss arbitrary: t)
  case (Cons s ss)
  obtain fs n where s: "s = (fs, n)" by (cases s)
  show ?case
    using Cons.IH [of "insert_stack fs n t"]
    by (auto simp: s below_def total_at_insert)
qed (simp add: below_def)

lemma add_lines:
  "fold (add_line d) ls t =
     fold (\<lambda>(fs, n). insert_stack fs n)
       (map (\<lambda>(stack, n). (stack_frames d stack, n))
         (filter (\<lambda>(_, n). n > 0) (List.map_filter collapsed_sample ls))) t"
proof (induction ls arbitrary: t)
  case (Cons l ls)
  then show ?case
    by (cases "collapsed_sample l") (auto simp: add_line_def List.map_filter_def)
qed (simp add: List.map_filter_def)

section \<open>What the agent writes\<close>

text \<open>A stack that survives the trip through a line of text.\<close>

definition plain_stack :: "string \<Rightarrow> bool" where
  "plain_stack k \<longleftrightarrow> k \<noteq> [] \<and> \<not> py_space (hd k) \<and> (\<forall>c \<in> set k. \<not> py_break c)"

lemma digit_plain: "is_digit c \<Longrightarrow> \<not> py_space c \<and> \<not> py_break c \<and> c \<noteq> CHR ''_'' \<and> c \<noteq> CHR '' ''"
  by (auto simp: is_digit_def py_space_def py_break_def Let_def)

lemma py_strip_id: "s \<noteq> [] \<Longrightarrow> \<not> py_space (hd s) \<Longrightarrow> \<not> py_space (last s) \<Longrightarrow> py_strip s = s"
  by (cases s) (simp_all add: py_strip_def strip_back_id)

lemma py_strip_snoc:
  assumes "s \<noteq> []" and "\<not> py_space (hd s)" and "\<not> py_space (last s)" and "py_space c"
  shows "py_strip (s @ [c]) = s"
proof -
  have "strip_front py_space (s @ [c]) = s @ [c]" using assms by (cases s) simp_all
  then show ?thesis using assms by (simp add: py_strip_def strip_back_snoc strip_back_id)
qed

lemma py_digits_all: "ds \<noteq> [] \<Longrightarrow> \<forall>c \<in> set ds. is_digit c \<Longrightarrow> py_digits ds"
  by (induction ds rule: py_digits.induct) (auto dest: digit_plain)

lemma py_int_show_nat: "py_int (show_nat n) = Some (int n)"
proof -
  have d: "\<forall>c \<in> set (show_nat n). is_digit c" using show_nat_digits by blast
  have hd: "is_digit (hd (show_nat n))" "is_digit (last (show_nat n))" using d by simp_all
  have "py_strip (show_nat n) = show_nat n" using hd by (intro py_strip_id) (simp_all add: digit_plain)
  moreover have "split_sign (show_nat n) = (False, show_nat n)"
    using is_digit_not_sign [OF hd(1)] by (cases "show_nat n") (simp_all add: split_sign_def)
  moreover have "filter is_digit (show_nat n) = show_nat n" using d by simp
  ultimately show ?thesis using py_digits_all [OF show_nat_not_Nil d] by (simp add: py_int_def digits_val_show_nat)
qed

lemma collapsed_sample_line:
  assumes "plain_stack (fst e)"
  shows "collapsed_sample (collapsed_line e) = Some (fst e, int (unat (snd e)))"
proof -
  have "is_digit (last (show_nat (unat (snd e))))" by (rule show_nat_digits [of _ "unat (snd e)"]) simp
  then have "py_strip (collapsed_line e) = collapsed_line e"
    using assms by (intro py_strip_id) (simp_all add: collapsed_line_def plain_stack_def digit_plain)
  moreover have "CHR '' '' \<notin> set (show_nat (unat (snd e)))" by (simp add: show_nat_no_sep)
  ultimately show ?thesis
    by (simp add: collapsed_sample_def Let_def) (simp add: collapsed_line_def rfind_char_append_sep py_int_show_nat)
qed

lemma py_lines_line: "\<forall>c \<in> set l. \<not> brk c \<Longrightarrow> brk (CHR 0x0A) \<Longrightarrow> py_lines brk (l @ CHR 0x0A # s) = l # py_lines brk s"
  by (subst py_lines.simps) (simp add: Let_def takeWhile_tail)

lemma py_lines_last: "\<forall>c \<in> set l. \<not> brk c \<Longrightarrow> l \<noteq> [] \<Longrightarrow> py_lines brk l = [l]"
proof -
  assume l: "\<forall>c \<in> set l. \<not> brk c" "l \<noteq> []"
  then have tw: "takeWhile (\<lambda>c. \<not> brk c) l = l" by (simp add: takeWhile_eq_all_conv)
  show ?thesis using l(2) by (subst py_lines.simps) (simp add: Let_def tw py_lines.simps [of brk "[]"])
qed

lemma py_lines_concat:
  assumes "\<And>l. l \<in> set ls \<Longrightarrow> \<forall>c \<in> set l. \<not> brk c" and "brk (CHR 0x0A)"
  shows "py_lines brk (concat (map (\<lambda>l. l @ [CHR 0x0A]) ls) @ s) = ls @ py_lines brk s"
  using assms(1)
proof (induction ls)
  case (Cons l ls)
  have "\<forall>c \<in> set l. \<not> brk c" by (rule Cons.prems) simp
  moreover have "py_lines brk (concat (map (\<lambda>l. l @ [CHR 0x0A]) ls) @ s) = ls @ py_lines brk s"
    by (rule Cons.IH) (rule Cons.prems, simp)
  ultimately show ?case by (simp add: py_lines_line assms(2))
qed simp

lemma collapsed_line_plain:
  assumes "plain_stack (fst e)"
  shows "collapsed_line e \<noteq> []" "\<not> py_space (hd (collapsed_line e))" "\<not> py_space (last (collapsed_line e))"
    "\<forall>c \<in> set (collapsed_line e). \<not> py_break c"
proof -
  have "is_digit (last (show_nat (unat (snd e))))" by (rule show_nat_digits [of _ "unat (snd e)"]) simp
  moreover have "\<forall>c \<in> set (show_nat (unat (snd e))). \<not> py_break c" using show_nat_digits digit_plain by blast
  moreover have "\<not> py_break (CHR '' '')" by (simp add: py_break_def)
  ultimately show "collapsed_line e \<noteq> []" "\<not> py_space (hd (collapsed_line e))"
    "\<not> py_space (last (collapsed_line e))" "\<forall>c \<in> set (collapsed_line e). \<not> py_break c"
    using assms by (auto simp: collapsed_line_def plain_stack_def digit_plain)
qed

lemma lines_of_written:
  assumes "\<And>e. e \<in> set m \<Longrightarrow> plain_stack (fst e)"
  shows "py_splitlines (py_strip (write_collapsed m)) = map collapsed_line m"
proof (cases m rule: rev_cases)
  case Nil
  then show ?thesis by (simp add: write_collapsed_def py_strip_def py_splitlines_def py_lines.simps)
next
  case (snoc m' e)
  let ?body = "concat (map (\<lambda>l. l @ [CHR 0x0A]) (map collapsed_line m')) @ collapsed_line e"
  have w: "write_collapsed m = ?body @ [CHR 0x0A]" by (simp add: write_collapsed_def snoc comp_def)
  have e: "plain_stack (fst e)" using assms snoc by simp
  have "\<not> py_space (hd ?body)"
  proof (cases m')
    case (Cons e' m'')
    then have "plain_stack (fst e')" using assms snoc by simp
    then show ?thesis using collapsed_line_plain(1,2) [of e'] Cons by simp
  qed (use collapsed_line_plain(2) [OF e] in simp)
  moreover have "?body \<noteq> []" "\<not> py_space (last ?body)" using collapsed_line_plain(1,3) [OF e] by simp_all
  moreover have "py_space (CHR 0x0A)" by (simp add: py_space_def)
  ultimately have "py_strip (write_collapsed m) = ?body"
    unfolding w by (intro py_strip_snoc)
  moreover have "py_splitlines ?body = map collapsed_line m' @ [collapsed_line e]"
  proof -
    have "\<forall>c \<in> set l. \<not> py_break c" if l: "l \<in> set (map collapsed_line m')" for l
    proof -
      obtain e' where "e' \<in> set m'" "l = collapsed_line e'" using l unfolding set_map by (rule imageE)
      then show ?thesis using collapsed_line_plain(4) [of e'] assms [of e'] by (simp add: snoc)
    qed
    moreover have "py_break (CHR 0x0A)" by (simp add: py_break_def)
    ultimately show ?thesis
      using collapsed_line_plain(1,4) [OF e] unfolding py_splitlines_def by (subst py_lines_concat) (simp_all add: py_lines_last)
  qed
  ultimately show ?thesis by (simp add: snoc)
qed

lemma samples_of_written:
  assumes "\<And>e. e \<in> set m \<Longrightarrow> plain_stack (fst e)"
  shows "samples d (write_collapsed m)
    = map (\<lambda>(k, c). (stack_frames d k, int (unat c))) (filter (\<lambda>e. snd e \<noteq> 0) m)"
proof -
  have pos: "0 < uint c \<longleftrightarrow> c \<noteq> 0" for c :: u64
    by (simp add: less_le eq_commute [of 0] unsigned_eq_0_iff)
  have "map (\<lambda>(stack, n). (stack_frames d stack, n))
      (filter (\<lambda>(_, n). n > 0) (List.map_filter collapsed_sample (map collapsed_line m)))
    = map (\<lambda>(k, c). (stack_frames d k, int (unat c))) (filter (\<lambda>e. snd e \<noteq> 0) m)"
    using assms
  proof (induction m)
    case (Cons e m)
    have "collapsed_sample (collapsed_line e) = Some (fst e, int (unat (snd e)))"
      by (rule collapsed_sample_line) (simp add: Cons.prems)
    moreover note Cons.IH [OF Cons.prems]
    ultimately show ?case by (cases e) (simp add: List.map_filter_simps pos)
  qed (simp add: List.map_filter_simps)
  then show ?thesis by (simp only: samples_def lines_of_written [OF assms])
qed

section \<open>Properties\<close>

text \<open>
  C21. The flame graph is exact.  In the tree of a collapsed text, the node at a path of frames exists
  exactly if the path is empty or some counted stack starts with it, and its value is the sum of the
  counts of the stacks that start with it; the root has the sum of all of them.  For a text that the
  agent wrote from its stacks, the counted stacks are exactly those with a count above zero.
\<close>

theorem flame_tree_exact:
  shows "map_option node_value (lookup_path p (collapsed_to_tree max_depth text)) =
      (if p = [] \<or> below p (samples max_depth text) \<noteq> []
       then Some (sum_list (map snd (below p (samples max_depth text)))) else None)
    \<and> ((\<forall>e \<in> set m. plain_stack (fst e)) \<longrightarrow>
         samples max_depth (write_collapsed m)
           = map (\<lambda>(k, c). (stack_frames max_depth k, int (unat c))) (filter (\<lambda>e. snd e \<noteq> 0) m))"
proof -
  let ?t = "fold (add_line max_depth) (py_splitlines (py_strip text)) (Node ''root'' 0 [])"
  have "map_option node_value (lookup_path p (collapsed_to_tree max_depth text)) = total_at p ?t"
    by (simp add: collapsed_to_tree_def lookup_propagate option.map_comp comp_def total_at_def)
  also have "\<dots> = (if p = [] \<or> below p (samples max_depth text) \<noteq> []
       then Some (sum_list (map snd (below p (samples max_depth text)))) else None)"
    unfolding add_lines samples_def [symmetric] total_at_fold total_at_leaf by simp
  finally show ?thesis by (intro conjI impI samples_of_written) (assumption, erule bspec)
qed

theorem flame_tree_exact_witness:
  "map_option node_value (lookup_path [''main''] (collapsed_to_tree 200 (write_collapsed [(''main;bar'', 5), (''main;foo'', 10)])))
     = Some 15"
proof -
  have "\<forall>e \<in> set [(''main;bar'', 5 :: u64), (''main;foo'', 10)]. plain_stack (fst e)" by code_simp
  with flame_tree_exact [of "[''main'']" 200 "write_collapsed [(''main;bar'', 5), (''main;foo'', 10)]"
      "[(''main;bar'', 5), (''main;foo'', 10)]"]
  show ?thesis by (simp add: below_def stack_frames_def)
qed

end
