(* ===== verification/TopN.thy ===== *)
theory TopN
  imports FlameTree Complex_Main
begin

text \<open>
  The list of hot functions, \<^verbatim>\<open>parse_topn\<close> of
  \<^verbatim>\<open>src/analysis/drop_analyzer/hotmethod_analyzer.py\<close>, and the rule engine that reads it,
  \<^verbatim>\<open>match_rules\<close> of \<^verbatim>\<open>src/analysis/analysis_advisor.py\<close>.  A dict is its entries in
  insertion order; the regular expression engine is an argument.
\<close>

section \<open>parse\_topn\<close>

record topn_item =
  tn_func :: string
  tn_self :: int
  tn_inclusive :: int
  tn_percentage :: real

text \<open>\<^verbatim>\<open>d[k] = d.get(k, 0) + n\<close>\<close>

fun dict_add :: "string \<Rightarrow> int \<Rightarrow> (string \<times> int) list \<Rightarrow> (string \<times> int) list" where
  "dict_add k n [] = [(k, n)]"
| "dict_add k n ((k', n') # d) = (if k' = k then (k', n' + n) # d else (k', n') # dict_add k n d)"

definition dict_get :: "(string \<times> int) list \<Rightarrow> string \<Rightarrow> int \<Rightarrow> int" where
  "dict_get d k dflt = (case map_of d k of None \<Rightarrow> dflt | Some n \<Rightarrow> n)"

definition self_frame :: "string \<Rightarrow> string" where
  "self_frame stack = last (py_split (CHR '';'') stack)"

definition top_frame :: "string \<Rightarrow> string" where
  "top_frame stack = hd (py_split (CHR '';'') stack)"

text \<open>\<^verbatim>\<open>round(x, 2)\<close> on exact numbers: to the nearest hundredth, ties to the even one.\<close>

definition round2 :: "real \<Rightarrow> real" where
  "round2 x =
     (let y = x * 100; f = \<lfloor>y\<rfloor>; r = y - of_int f
      in of_int (if r < 1 / 2 then f else if r > 1 / 2 then f + 1 else if even f then f else f + 1) / 100)"

definition topn_samples :: "string \<Rightarrow> (string \<times> int) list" where
  "topn_samples content = List.map_filter collapsed_sample (py_file_lines content)"

definition count_by :: "(string \<Rightarrow> string) \<Rightarrow> (string \<times> int) list \<Rightarrow> (string \<times> int) list" where
  "count_by frame ss = fold (\<lambda>(stack, n). dict_add (frame stack) n) ss []"

definition parse_topn :: "nat \<Rightarrow> string \<Rightarrow> topn_item list" where
  "parse_topn top_n content =
     (let ss = topn_samples content;
          func_self = count_by self_frame ss;
          func_inclusive = count_by top_frame ss;
          total = sum_list (map snd ss)
      in if total = 0 then []
         else map (\<lambda>(func, self_val).
                \<lparr>tn_func = func, tn_self = self_val,
                 tn_inclusive = dict_get func_inclusive func self_val,
                 tn_percentage = round2 (of_int self_val / of_int total * 100)\<rparr>)
              (take top_n (sort_key (\<lambda>x. - snd x) func_self)))"

section \<open>match\_rules\<close>

record advice_rule =
  ru_regex :: string
  ru_advice :: string
  ru_severity :: string

record rule_match =
  rm_func :: string
  rm_percentage :: real
  rm_advice :: string
  rm_severity :: string

text \<open>
  \<open>re_search\<close> is \<^verbatim>\<open>re.search\<close> ignoring case; \<open>None\<close> is an invalid pattern, which skips
  the rule.  The first rule that matches a function is the only one reported for it.
\<close>

fun first_rule :: "(string \<Rightarrow> string \<Rightarrow> bool option) \<Rightarrow> string \<Rightarrow> advice_rule list \<Rightarrow> advice_rule option" where
  "first_rule re_search func [] = None"
| "first_rule re_search func (rule # rules) =
     (if ru_regex rule = [] \<or> ru_advice rule = [] then first_rule re_search func rules
      else case re_search (ru_regex rule) func of
             Some True \<Rightarrow> Some rule
           | _ \<Rightarrow> first_rule re_search func rules)"

definition match_rules ::
  "(string \<Rightarrow> string \<Rightarrow> bool option) \<Rightarrow> topn_item list \<Rightarrow> advice_rule list \<Rightarrow> rule_match list" where
  "match_rules re_search topn rules =
     List.map_filter (\<lambda>item.
       map_option (\<lambda>rule. \<lparr>rm_func = tn_func item, rm_percentage = tn_percentage item,
                          rm_advice = ru_advice rule, rm_severity = ru_severity rule\<rparr>)
         (first_rule re_search (tn_func item) rules)) topn"

section \<open>Lemmas\<close>

lemma keys_dict_add: "fst ` set (dict_add k n d) = insert k (fst ` set d)"
  by (induction k n d rule: dict_add.induct) (simp_all add: insert_commute insert_absorb)

lemma distinct_dict_add: "distinct (map fst d) \<Longrightarrow> distinct (map fst (dict_add k n d))"
proof (induction k n d rule: dict_add.induct)
  case (2 k n k' n' d)
  then show ?case by (cases "k' = k") (simp_all add: keys_dict_add)
qed simp

lemma dict_get_add: "dict_get (dict_add k n d) k' 0 = dict_get d k' 0 + (if k' = k then n else 0)"
  by (induction d) (auto simp: dict_get_def)

lemma count_by_fold:
  "dict_get (fold (\<lambda>(stack, n). dict_add (frame stack) n) ss d) f 0
     = dict_get d f 0 + sum_list (map snd (filter (\<lambda>s. frame (fst s) = f) ss))"
  by (induction ss arbitrary: d) (auto simp: dict_get_add)

lemma count_by_keys:
  "fst ` set (fold (\<lambda>(stack, n). dict_add (frame stack) n) ss d) = fst ` set d \<union> (\<lambda>s. frame (fst s)) ` set ss"
  by (induction ss arbitrary: d) (simp_all add: keys_dict_add split_beta)

lemma count_by_distinct: "distinct (map fst (count_by frame ss))"
proof -
  have "distinct (map fst d) \<Longrightarrow> distinct (map fst (fold (\<lambda>(stack, n). dict_add (frame stack) n) ss d))" for d
    by (induction ss arbitrary: d) (simp_all add: distinct_dict_add split_beta)
  then show ?thesis by (simp add: count_by_def)
qed

definition self_count :: "string \<Rightarrow> (string \<times> int) list \<Rightarrow> int" where
  "self_count f ss = sum_list (map snd (filter (\<lambda>s. self_frame (fst s) = f) ss))"

lemma count_by_value: "(f, n) \<in> set (count_by self_frame ss) \<Longrightarrow> n = self_count f ss"
proof -
  assume "(f, n) \<in> set (count_by self_frame ss)"
  then have "map_of (count_by self_frame ss) f = Some n"
    using count_by_distinct [of self_frame ss] by simp
  then show ?thesis
    using count_by_fold [of self_frame ss "[]" f] by (simp add: count_by_def dict_get_def self_count_def)
qed

lemma count_by_mem: "s \<in> set ss \<Longrightarrow> (self_frame (fst s), self_count (self_frame (fst s)) ss) \<in> set (count_by self_frame ss)"
proof -
  assume "s \<in> set ss"
  then have "self_frame (fst s) \<in> fst ` set (count_by self_frame ss)"
    using count_by_keys [of self_frame ss "[]"] by (simp add: count_by_def)
  then obtain n where "(self_frame (fst s), n) \<in> set (count_by self_frame ss)" by fastforce
  with count_by_value [OF this] show ?thesis by simp
qed

lemma first_rule_Some:
  assumes "first_rule re_search func rules = Some rule"
  shows "\<exists>pre post. rules = pre @ rule # post \<and> ru_advice rule \<noteq> [] \<and> re_search (ru_regex rule) func = Some True
    \<and> (\<forall>r \<in> set pre. ru_regex r = [] \<or> ru_advice r = [] \<or> re_search (ru_regex r) func \<noteq> Some True)"
  using assms
proof (induction rules)
  case (Cons r rules)
  show ?case
  proof (cases "r = rule \<and> ru_regex r \<noteq> [] \<and> ru_advice r \<noteq> [] \<and> re_search (ru_regex r) func = Some True")
    case True
    show ?thesis by (rule exI [of _ "[]"], rule exI [of _ rules]) (use True in auto)
  next
    case False
    then have skip: "ru_regex r = [] \<or> ru_advice r = [] \<or> re_search (ru_regex r) func \<noteq> Some True"
      and "first_rule re_search func rules = Some rule"
      using Cons.prems by (auto split: if_splits option.splits bool.splits)
    from Cons.IH [OF this(2)] obtain pre post where IH:
      "rules = pre @ rule # post" "ru_advice rule \<noteq> []" "re_search (ru_regex rule) func = Some True"
      "\<forall>r \<in> set pre. ru_regex r = [] \<or> ru_advice r = [] \<or> re_search (ru_regex r) func \<noteq> Some True" by blast
    show ?thesis by (rule exI [of _ "r # pre"], rule exI [of _ post]) (use IH skip in simp)
  qed
qed simp

text \<open>
  Every match is a function of the list with the advice of the first rule that matches it, and no
  function has two.
\<close>

lemma match_rules_first:
  "rm \<in> set (match_rules re_search topn rules) \<Longrightarrow>
   \<exists>item \<in> set topn. \<exists>rule. rm_func rm = tn_func item \<and> rm_advice rm = ru_advice rule
     \<and> first_rule re_search (tn_func item) rules = Some rule"
  "distinct (map tn_func topn) \<Longrightarrow> distinct (map rm_func (match_rules re_search topn rules))"
proof -
  show "rm \<in> set (match_rules re_search topn rules) \<Longrightarrow>
   \<exists>item \<in> set topn. \<exists>rule. rm_func rm = tn_func item \<and> rm_advice rm = ru_advice rule
     \<and> first_rule re_search (tn_func item) rules = Some rule"
    by (auto simp: match_rules_def List.map_filter_def)
  have "set (map rm_func (match_rules re_search topn rules)) \<subseteq> tn_func ` set topn" for topn
    by (auto simp: match_rules_def List.map_filter_def)
  then show "distinct (map tn_func topn) \<Longrightarrow> distinct (map rm_func (match_rules re_search topn rules))"
    by (induction topn) (auto simp: match_rules_def List.map_filter_simps split: option.splits)
qed

text \<open>
  The inclusive count only counts the stacks that start with the function.  So it can be smaller than
  the function's own count.
\<close>

lemma inclusive_below_self:
  "map (\<lambda>i. (tn_func i, tn_self i, tn_inclusive i)) (parse_topn 30 (''b;a 5'' @ [CHR 0x0A] @ ''a 1'' @ [CHR 0x0A]))
     = [(''a'', 6, 1)]"
proof -
  have "topn_samples (''b;a 5'' @ [CHR 0x0A] @ ''a 1'' @ [CHR 0x0A]) = [(''b;a'', 5), (''a'', 1)]" by code_simp
  then show ?thesis
    by (simp add: parse_topn_def count_by_def self_frame_def top_frame_def dict_get_def)
qed

text \<open>The list without its derived columns: the front of the sorted counts.\<close>

definition hottest :: "nat \<Rightarrow> (string \<times> int) list \<Rightarrow> (string \<times> int) list" where
  "hottest n ss = take n (sort_key (\<lambda>x. - snd x) (count_by self_frame ss))"

lemma parse_topn_hottest:
  assumes "ss = topn_samples content" and "sum_list (map snd ss) \<noteq> 0"
  shows "map (\<lambda>i. (tn_func i, tn_self i)) (parse_topn n content) = hottest n ss"
    and "map tn_func (parse_topn n content) = map fst (hottest n ss)"
    and "map tn_self (parse_topn n content) = map snd (hottest n ss)"
  using assms by (simp_all add: parse_topn_def hottest_def Let_def comp_def split_beta)

lemma hottest_sorted: "sorted_wrt (\<lambda>x y. snd x \<ge> snd y) (sort_key (\<lambda>x. - snd x) d)" for d :: "(string \<times> int) list"
  using sorted_sort_key [of "\<lambda>x. - snd x" d] by (simp add: sorted_wrt_map)

lemma hottest_rest:
  assumes "y \<in> set (count_by self_frame ss)" and "x \<in> set (hottest n ss)"
  shows "y \<in> set (hottest n ss) \<or> snd y \<le> snd x"
proof -
  let ?l = "sort_key (\<lambda>x. - snd x) (count_by self_frame ss)"
  have "y \<in> set (take n ?l @ drop n ?l)" using assms(1) by simp
  then have y: "y \<in> set (take n ?l) \<or> y \<in> set (drop n ?l)" unfolding set_append by blast
  have "sorted_wrt (\<lambda>x y. snd x \<ge> snd y) (take n ?l @ drop n ?l)" using hottest_sorted by simp
  then show ?thesis using assms(2) y unfolding sorted_wrt_append hottest_def by blast
qed

lemma hottest_length: "length (hottest n ss) = min n (card ((\<lambda>s. self_frame (fst s)) ` set ss))"
proof -
  have "card (fst ` set (count_by self_frame ss)) = length (count_by self_frame ss)"
    using distinct_card [OF count_by_distinct [of self_frame ss]] by simp
  moreover have "fst ` set (count_by self_frame ss) = (\<lambda>s. self_frame (fst s)) ` set ss"
    using count_by_keys [of self_frame ss "[]"] by (simp add: count_by_def)
  ultimately show ?thesis by (simp add: hottest_def min.commute)
qed

lemma hottest_distinct: "distinct (map fst (hottest n ss))"
proof -
  have "distinct (map fst (sort_key (\<lambda>x. - snd x) (count_by self_frame ss)))"
    using count_by_distinct [of self_frame ss] by (simp add: distinct_map)
  then show ?thesis by (simp add: hottest_def take_map [symmetric] distinct_take)
qed

section \<open>Properties\<close>

text \<open>
  C35. The hot functions are the hot functions.  For a collapsed text whose counts do not cancel out,
  the list has the requested number of functions or all of them, each once, in descending order of
  the counts of the stacks that end in them, and no function that is left out has a higher count
  than one that is listed.
\<close>

theorem topn_sound:
  assumes "ss = topn_samples content" and "sum_list (map snd ss) \<noteq> 0"
  shows "length (parse_topn n content) = min n (card ((\<lambda>s. self_frame (fst s)) ` set ss))
    \<and> distinct (map tn_func (parse_topn n content))
    \<and> sorted_wrt (\<ge>) (map tn_self (parse_topn n content))
    \<and> (\<forall>i \<in> set (parse_topn n content). tn_self i = self_count (tn_func i) ss)
    \<and> (\<forall>s \<in> set ss. \<forall>i \<in> set (parse_topn n content).
         self_frame (fst s) \<in> tn_func ` set (parse_topn n content) \<or> self_count (self_frame (fst s)) ss \<le> tn_self i)"
proof -
  note h = parse_topn_hottest [OF assms]
  have item: "(tn_func i, tn_self i) \<in> set (hottest n ss)" if "i \<in> set (parse_topn n content)" for i
    unfolding h(1) [symmetric] using that by simp
  have self: "tn_self i = self_count (tn_func i) ss" if "i \<in> set (parse_topn n content)" for i
    using item [OF that] in_set_takeD by (intro count_by_value) (fastforce simp: hottest_def)
  have rest: "self_frame (fst s) \<in> tn_func ` set (parse_topn n content) \<or> self_count (self_frame (fst s)) ss \<le> tn_self i"
    if "s \<in> set ss" "i \<in> set (parse_topn n content)" for s i
  proof -
    have "self_frame (fst s) \<in> set (map fst (hottest n ss)) \<or> self_count (self_frame (fst s)) ss \<le> tn_self i"
      using hottest_rest [OF count_by_mem [OF that(1)] item [OF that(2)]] by force
    then show ?thesis unfolding h(2) [symmetric] by simp
  qed
  have "sorted_wrt (\<ge>) (map tn_self (parse_topn n content))"
    unfolding h(3) using sorted_wrt_take [OF hottest_sorted] by (simp add: hottest_def sorted_wrt_map)
  moreover have "length (parse_topn n content) = min n (card ((\<lambda>s. self_frame (fst s)) ` set ss))"
    using hottest_length [of n ss] h(1) by (metis length_map)
  ultimately show ?thesis using hottest_distinct [of n ss] self rest unfolding h(2) by blast
qed

definition sample_collapsed :: string where
  "sample_collapsed = ''a;b 5'' @ [CHR 0x0A] @ ''a;c 7'' @ [CHR 0x0A] @ ''b 1'' @ [CHR 0x0A]"

theorem topn_sound_witness:
  "length (parse_topn 1 sample_collapsed) = 1
   \<and> map tn_self (parse_topn 1 sample_collapsed)
     = map (\<lambda>i. self_count (tn_func i) [(''a;b'', 5), (''a;c'', 7), (''b'', 1)]) (parse_topn 1 sample_collapsed)"
proof -
  have ss: "[(''a;b'', 5), (''a;c'', 7), (''b'', 1)] = topn_samples sample_collapsed" by code_simp
  have "min 1 (card ((\<lambda>s. self_frame (fst s)) ` set [(''a;b'', 5 :: int), (''a;c'', 7), (''b'', 1)])) = 1"
    by (simp add: self_frame_def insert_commute)
  then show ?thesis using topn_sound [OF ss, of 1] by simp
qed

end
