(* ===== verification/Advisor.thy ===== *)
theory Advisor
  imports TopN FloatFormat
begin

text \<open>
  The rest of \<^verbatim>\<open>src/analysis/analysis_advisor.py\<close>: the diagnosis by a language model with its
  checks and its fallback, and the Markdown texts.  The call of the model, the reading of a JSON text
  and the printing of a float are arguments; text is ASCII, as in the theory of the flame graph tree.
\<close>

section \<open>The diagnosis\<close>

record diagnosis =
  dg_diagnosis :: string
  dg_evidence :: string
  dg_recommendation :: string
  dg_confidence :: real

definition fallback_diagnosis :: "(real \<Rightarrow> string) \<Rightarrow> topn_item list \<Rightarrow> diagnosis" where
  "fallback_diagnosis show_float topn =
     (case topn of
        [] \<Rightarrow>
          \<lparr>dg_diagnosis = ''No significant hot functions detected in this profile.'',
           dg_evidence = ''Top N list is empty.'', dg_recommendation = ''N/A'', dg_confidence = 1 / 10\<rparr>
      | item # _ \<Rightarrow>
          let func = tn_func item; pct = tn_percentage item
          in \<lparr>dg_diagnosis = ''The hottest function is `'' @ func @ ''` consuming '' @ show_float pct @ ''% of CPU samples. ''
                @ (if pct > 30 then ''This is a severe hotspot that likely dominates performance.''
                   else if pct > 15 then ''This is a moderate hotspot worth investigating.''
                   else ''The profile appears relatively flat with no dominant hotspot.''),
              dg_evidence = ''`'' @ func @ ''` at '' @ show_float pct @ ''% self-time'',
              dg_recommendation = ''Review the flame graph for the full call path leading to this function.'',
              dg_confidence = 4 / 10\<rparr>)"

section \<open>The language model\<close>

text \<open>A JSON value; the texts of the answer are its strings.\<close>

datatype py_json = Py_str string | Py_num real | Py_other

record llm_env =
  llm_has_requests :: bool
  llm_api_key :: string
  llm_call :: "topn_item list \<Rightarrow> string option"
  llm_loads :: "string \<Rightarrow> (string \<rightharpoonup> py_json) option"
  llm_float :: "string \<Rightarrow> real option"
  llm_str :: "py_json \<Rightarrow> string"
  llm_show :: "real \<Rightarrow> string"

definition strip_fences :: "string \<Rightarrow> string" where
  "strip_fences content0 =
     (let content = py_strip content0;
          content1 = (if take 3 content = ''```''
                      then (if CHR 0x0A \<in> set content then tl (dropWhile (\<lambda>c. c \<noteq> CHR 0x0A) content) else drop 3 content)
                      else content);
          content2 = (if length content1 \<ge> 3 \<and> drop (length content1 - 3) content1 = ''```''
                      then take (length content1 - 3) content1 else content1)
      in py_strip content2)"

text \<open>
  \<^verbatim>\<open>float(result.get("confidence"))\<close>; \<open>None\<close> is an exception.  A missing field was set to 0
  before.
\<close>

definition confidence_of :: "llm_env \<Rightarrow> (string \<rightharpoonup> py_json) \<Rightarrow> real option" where
  "confidence_of env m =
     (case m ''confidence'' of
        None \<Rightarrow> Some 0
      | Some (Py_num x) \<Rightarrow> Some x
      | Some (Py_str s) \<Rightarrow> llm_float env s
      | Some Py_other \<Rightarrow> None)"

definition text_of :: "llm_env \<Rightarrow> (string \<rightharpoonup> py_json) \<Rightarrow> string \<Rightarrow> string" where
  "text_of env m k = (case m k of None \<Rightarrow> [] | Some v \<Rightarrow> llm_str env v)"

definition checked_answer :: "llm_env \<Rightarrow> string \<Rightarrow> diagnosis option" where
  "checked_answer env content =
     (case llm_loads env (strip_fences content) of
        None \<Rightarrow> None
      | Some m \<Rightarrow>
          map_option (\<lambda>x. \<lparr>dg_diagnosis = text_of env m ''diagnosis'', dg_evidence = text_of env m ''evidence'',
                         dg_recommendation = text_of env m ''recommendation'', dg_confidence = max 0 (min 1 x)\<rparr>)
            (confidence_of env m))"

definition ask_llm :: "llm_env \<Rightarrow> topn_item list \<Rightarrow> diagnosis" where
  "ask_llm env topn =
     (if \<not> llm_has_requests env \<or> llm_api_key env = [] then fallback_diagnosis (llm_show env) topn
      else
        (case llm_call env (take 10 topn) of
           None \<Rightarrow> fallback_diagnosis (llm_show env) topn
         | Some content \<Rightarrow>
             (case checked_answer env content of
                None \<Rightarrow> fallback_diagnosis (llm_show env) topn
              | Some d \<Rightarrow> d)))"

section \<open>Markdown\<close>

fun join_lines :: "string list \<Rightarrow> string" where
  "join_lines [] = []"
| "join_lines [l] = l"
| "join_lines (l # ls) = l @ [CHR 0x0A] @ join_lines ls"

definition severity_icon :: "string \<Rightarrow> string" where
  "severity_icon sev =
     map char_of (if sev = ''critical'' then [240, 159, 148, 180]
                  else if sev = ''warn'' then [240, 159, 159, 161]
                  else [240, 159, 148, 181::nat])"

definition generate_suggestions_md :: "(real \<Rightarrow> string) \<Rightarrow> rule_match list \<Rightarrow> string" where
  "generate_suggestions_md show_float matches =
     (if matches = [] then ''No rule-based suggestions for the top hot functions.'' @ [CHR 0x0A]
      else join_lines ((''# Rule-Based Analysis Suggestions'' @ [CHR 0x0A])
             # concat (map (\<lambda>m.
                 [''## '' @ severity_icon (rm_severity m) @ '' `'' @ rm_func m @ ''` ('' @ show_float (rm_percentage m) @ ''%)'' @ [CHR 0x0A],
                  ''**Severity:** '' @ rm_severity m @ [CHR 0x0A], rm_advice m @ [CHR 0x0A]]) matches)))"

definition generate_ai_suggestion_md :: "diagnosis \<Rightarrow> string" where
  "generate_ai_suggestion_md d =
     join_lines [''# AI-Powered Analysis'' @ [CHR 0x0A],
       ''**Confidence:** '' @ fmt_whole (dg_confidence d * 100) @ ''%'' @ [CHR 0x0A],
       ''## Diagnosis'' @ [CHR 0x0A], dg_diagnosis d @ [CHR 0x0A],
       ''## Evidence'' @ [CHR 0x0A], dg_evidence d @ [CHR 0x0A],
       ''## Recommendation'' @ [CHR 0x0A], dg_recommendation d @ [CHR 0x0A]]"

section \<open>Lemmas\<close>

text \<open>Whatever the model answers, the confidence is a number from 0 to 1.\<close>

theorem ask_llm_confidence: "0 \<le> dg_confidence (ask_llm env topn) \<and> dg_confidence (ask_llm env topn) \<le> 1"
proof -
  have "0 \<le> dg_confidence (fallback_diagnosis f topn) \<and> dg_confidence (fallback_diagnosis f topn) \<le> 1" for f
    by (simp add: fallback_diagnosis_def Let_def split: list.split)
  then show ?thesis
    by (auto simp: ask_llm_def checked_answer_def split: option.split)
qed

text \<open>An answer in a fenced block is read as the text inside the fences.\<close>

theorem strip_fences_block:
  assumes "CHR 0x0A \<notin> set lang" and "s \<noteq> []" and "\<not> py_space (hd s)" and "\<not> py_space (last s)"
    and "take 3 s \<noteq> ''```''"
  shows "strip_fences (''```'' @ lang @ [CHR 0x0A] @ s @ [CHR 0x0A] @ ''```'') = s" and "\<not> suffix ''```'' s \<Longrightarrow> strip_fences s = s"
proof -
  let ?body = "s @ [CHR 0x0A] @ ''```''"
  let ?all = "''```'' @ lang @ [CHR 0x0A] @ ?body"
  have nsp: "\<not> py_space (CHR ''`'')" by (simp add: py_space_def)
  have all: "py_strip ?all = ?all" using nsp by (intro py_strip_id) simp_all
  have drop: "dropWhile (\<lambda>c. c \<noteq> CHR 0x0A) ?all = CHR 0x0A # ?body"
    using assms(1) by (induction lang) auto
  have "py_strip (s @ [CHR 0x0A]) = s"
  proof -
    have "strip_front py_space (s @ [CHR 0x0A]) = s @ [CHR 0x0A]"
      using assms(2,3) by (cases s) (simp_all add: strip_front_eq)
    moreover have "py_space (CHR 0x0A)" by (simp add: py_space_def)
    ultimately show ?thesis using assms(2,4) by (simp add: py_strip_def strip_back_snoc strip_back_id)
  qed
  then show "strip_fences ?all = s"
    unfolding strip_fences_def Let_def all drop by simp
  show "strip_fences s = s" if "\<not> suffix ''```'' s"
  proof -
    have "\<not> (length s \<ge> 3 \<and> drop (length s - 3) s = ''```'')"
      using that by (metis suffix_drop)
    then show ?thesis using assms(2-5) py_strip_id [of s] by (auto simp: strip_fences_def Let_def)
  qed
qed

end
