(* ===== verification/ProfileWindow.thy ===== *)
theory ProfileWindow
  imports StackMap
begin

text \<open>
  The segments of a continuous task as the API server keeps and serves them:
  \<^verbatim>\<open>CreateSegment\<close> and \<^verbatim>\<open>GetProfileWindow\<close> of
  \<^verbatim>\<open>src/apiserver/server/handler.go\<close>.  The text the agent wrote for each segment is read back
  line by line, and the counts of all segments that overlap the window are added up.
\<close>

section \<open>Segments\<close>

record segment_row =
  sg_tid :: string
  sg_start_ts :: int
  sg_end_ts :: int
  sg_s3_key :: string

record create_segment_req =
  sr_start_ts :: int
  sr_end_ts :: int
  sr_s3_key :: string

datatype window_reply = Window_Error nat | Window_Ok string

text \<open>\<open>insert_ok\<close> is the outcome of the insert; the reply is the code.\<close>

definition CreateSegment ::
  "bool \<Rightarrow> string \<Rightarrow> create_segment_req option \<Rightarrow> segment_row list \<Rightarrow> nat \<times> segment_row list" where
  "CreateSegment insert_ok tid body segs =
     (case body of
        None \<Rightarrow> (4000011, segs)
      | Some req \<Rightarrow>
          if \<not> insert_ok then (5000011, segs)
          else (0, segs @ [\<lparr>sg_tid = tid, sg_start_ts = sr_start_ts req, sg_end_ts = sr_end_ts req,
                            sg_s3_key = sr_s3_key req\<rparr>]))"

section \<open>Reading a segment\<close>

text \<open>
  \<^verbatim>\<open>bufio.Scanner\<close> with its default limit: a line that does not fit the buffer ends the scan,
  and a carriage return at the end of a line is dropped.
\<close>

definition MaxScanTokenSize :: nat where
  "MaxScanTokenSize = 65536"

definition dropCR :: "string \<Rightarrow> string" where
  "dropCR l = (if l \<noteq> [] \<and> last l = CHR 0x0D then butlast l else l)"

definition scan_lines :: "string \<Rightarrow> string list" where
  "scan_lines content =
     map dropCR (takeWhile (\<lambda>l. length l < MaxScanTokenSize) (getlines (CHR 0x0A) content))"

text \<open>\<^verbatim>\<open>strconv.ParseUint(s, 10, 64)\<close>.\<close>

definition ParseUint :: "string \<Rightarrow> u64 option" where
  "ParseUint s =
     (if s \<noteq> [] \<and> list_all is_digit s \<and> digits_val s < 2 ^ 64 then Some (of_nat (digits_val s)) else None)"

definition window_line :: "string \<Rightarrow> (string \<times> u64) option" where
  "window_line line =
     (if line = [] then None
      else case rfind_char (CHR '' '') line of
             None \<Rightarrow> None
           | Some lastSpace \<Rightarrow>
               (case ParseUint (drop (lastSpace + 1) line) of
                  None \<Rightarrow> None
                | Some n \<Rightarrow> Some (take lastSpace line, n)))"

fun window_lines :: "string list \<Rightarrow> stack_map \<Rightarrow> stack_map" where
  "window_lines [] merged = merged"
| "window_lines (line # lines) merged =
     (case window_line line of
        None \<Rightarrow> window_lines lines merged
      | Some (stack, count) \<Rightarrow> window_lines lines (smap_add stack count merged))"

section \<open>The window\<close>

definition overlapping :: "segment_row list \<Rightarrow> string \<Rightarrow> int \<Rightarrow> int \<Rightarrow> segment_row list" where
  "overlapping segs tid start end_ts =
     sort_key sg_start_ts
       (filter (\<lambda>s. sg_tid s = tid \<and> sg_start_ts s < end_ts \<and> sg_end_ts s > start) segs)"

text \<open>A segment whose object cannot be fetched is skipped.\<close>

definition merge_segments :: "(string \<Rightarrow> string option) \<Rightarrow> segment_row list \<Rightarrow> stack_map" where
  "merge_segments get segments =
     fold (\<lambda>seg merged. case get (sg_s3_key seg) of
             None \<Rightarrow> merged
           | Some content \<Rightarrow> window_lines (scan_lines content) merged) segments []"

text \<open>
  \<open>query\<close> is the query of the window, absent when it does not parse; \<open>order\<close> is the order in which
  the loop over the map visits its entries, which Go leaves open.
\<close>

definition GetProfileWindow ::
  "(stack_map \<Rightarrow> stack_map) \<Rightarrow> bool \<Rightarrow> (string \<Rightarrow> string option) option \<Rightarrow> segment_row list \<Rightarrow> string \<Rightarrow>
   (int \<times> int) option \<Rightarrow> window_reply" where
  "GetProfileWindow order select_ok storage segs tid query =
     (case query of
        None \<Rightarrow> Window_Error 4000012
      | Some (start, end_ts) \<Rightarrow>
          if start = 0 \<or> end_ts = 0 then Window_Error 4000012
          else
            let segments = (if select_ok then overlapping segs tid start end_ts else [])
            in if segments = [] then Window_Error 4040012
               else case storage of
                      None \<Rightarrow> Window_Error 5030012
                    | Some get \<Rightarrow>
                        let merged = merge_segments get segments
                        in if merged = [] then Window_Error 4040013
                           else Window_Ok (write_collapsed (order merged)))"

section \<open>Lemmas\<close>

lemma window_line_collapsed:
  "window_line (collapsed_line e) = Some e"
proof -
  have "unat (snd e) < 2 ^ 64" using unsigned_less [of "snd e"] by simp
  then show ?thesis
    by (cases e) (simp add: window_line_def collapsed_line_def rfind_char_append_sep show_nat_no_sep ParseUint_def
        list_all_iff show_nat_digits digits_val_show_nat)
qed

lemma dropCR_collapsed: "dropCR (collapsed_line e) = collapsed_line e"
proof -
  have "last (collapsed_line e) = last (show_nat (unat (snd e)))" by (simp add: collapsed_line_def)
  moreover have "is_digit (last (show_nat (unat (snd e))))"
    by (rule show_nat_digits [of _ "unat (snd e)"]) simp
  ultimately show ?thesis by (auto simp: dropCR_def is_digit_def)
qed

definition readable :: "stack_map \<Rightarrow> bool" where
  "readable m \<longleftrightarrow> (\<forall>e \<in> set m. CHR 0x0A \<notin> set (fst e) \<and> length (collapsed_line e) < MaxScanTokenSize)"

lemma scan_written: "readable m \<Longrightarrow> scan_lines (write_collapsed m) = map collapsed_line m"
proof -
  assume m: "readable m"
  have "getlines (CHR 0x0A) (write_collapsed m) = map collapsed_line m"
    by (rule getlines_write_collapsed) (use m in \<open>auto simp: readable_def\<close>)
  moreover have "takeWhile (\<lambda>l. length l < MaxScanTokenSize) (map collapsed_line m) = map collapsed_line m"
    using m by (subst takeWhile_eq_all_conv) (simp add: readable_def)
  moreover have "map dropCR (map collapsed_line m) = map collapsed_line m" by (simp add: dropCR_collapsed)
  ultimately show ?thesis by (simp only: scan_lines_def)
qed

lemma window_lines_written: "window_lines (map collapsed_line m) m0 = fold (\<lambda>(k, c). smap_add k c) m m0"
  by (induction m arbitrary: m0) (auto simp: window_line_collapsed)

lemma fold_add_wf: "smap_wf m0 \<Longrightarrow> smap_wf (fold (\<lambda>(k, c). smap_add k c) m m0)"
  by (induction m arbitrary: m0) (auto simp: smap_wf_add)

lemma fold_add_count:
  "smap_wf m0 \<Longrightarrow> smap_count (fold (\<lambda>(k, c). smap_add k c) m m0) k
     = smap_count m0 k + sum_list (map snd (filter (\<lambda>e. fst e = k) m))"
  by (induction m arbitrary: m0) (auto simp: smap_wf_add smap_count_add algebra_simps)

lemma fold_add_keys: "fst ` set (fold (\<lambda>(k, c). smap_add k c) m m0) = fst ` set m0 \<union> fst ` set m"
  by (induction m arbitrary: m0) (simp_all add: keys_smap_add split_beta)

lemma merge_segments_written:
  assumes "\<And>s. s \<in> set segments \<Longrightarrow> get (sg_s3_key s) = Some (write_collapsed (f s)) \<and> readable (f s) \<and> smap_wf (f s)"
  shows "smap_wf (merge_segments get segments)"
    and "smap_count (merge_segments get segments) k = sum_list (map (\<lambda>s. smap_count (f s) k) segments)"
    and "fst ` set (merge_segments get segments) = (\<Union>s \<in> set segments. fst ` set (f s))"
proof -
  let ?add = "\<lambda>seg merged. case get (sg_s3_key seg) of
             None \<Rightarrow> merged
           | Some content \<Rightarrow> window_lines (scan_lines content) merged"
  have step: "?add s m0 = fold (\<lambda>(k, c). smap_add k c) (f s) m0" if "s \<in> set segments" for s m0
    using assms [OF that] by (simp add: scan_written window_lines_written)
  have "smap_wf (fold ?add xs m0)
      \<and> smap_count (fold ?add xs m0) k = smap_count m0 k + sum_list (map (\<lambda>s. smap_count (f s) k) xs)
      \<and> fst ` set (fold ?add xs m0) = fst ` set m0 \<union> (\<Union>s \<in> set xs. fst ` set (f s))"
    if "set xs \<subseteq> set segments" "smap_wf m0" for xs m0
    using that
  proof (induction xs arbitrary: m0)
    case (Cons s xs)
    have s: "s \<in> set segments" using Cons.prems(1) by simp
    let ?m = "fold (\<lambda>(k, c). smap_add k c) (f s) m0"
    have "smap_wf ?m" "smap_count ?m k = smap_count m0 k + smap_count (f s) k"
      "fst ` set ?m = fst ` set m0 \<union> fst ` set (f s)"
      using Cons.prems(2) assms [OF s]
      by (simp_all add: fold_add_wf fold_add_count fold_add_keys count_filter smap_wf_distinct)
    then show ?case using Cons.IH [of ?m] Cons.prems(1) by (simp add: step [OF s] Un_assoc add.assoc)
  qed simp
  from this [of segments "[]"]
  show "smap_wf (merge_segments get segments)"
    and "smap_count (merge_segments get segments) k = sum_list (map (\<lambda>s. smap_count (f s) k) segments)"
    and "fst ` set (merge_segments get segments) = (\<Union>s \<in> set segments. fst ` set (f s))"
    by (simp_all add: merge_segments_def smap_count_def)
qed

text \<open>
  C20. A profile window adds up its segments.  If the objects of the segments that overlap the window
  hold what the agent wrote for them, with no line as long as the scanner's limit, and they are not
  all empty, the reply is a collapsed text that reads back, in whatever order the map was visited,
  to the sum over these segments of the counts of every stack.
\<close>

theorem window_adds_segments:
  assumes order: "\<And>m. set (order m) = set m \<and> distinct (order m)"
    and "start \<noteq> 0" and "end_ts \<noteq> 0"
    and written: "\<And>s. s \<in> set (overlapping segs tid start end_ts) \<Longrightarrow>
      get (sg_s3_key s) = Some (write_collapsed (f s)) \<and> readable (f s) \<and> smap_wf (f s)"
    and nonempty: "s0 \<in> set (overlapping segs tid start end_ts)" "f s0 \<noteq> []"
  shows "\<exists>text. GetProfileWindow order True (Some get) segs tid (Some (start, end_ts)) = Window_Ok text
    \<and> (\<forall>k. smap_count (merge_content text []) k
          = sum_list (map (\<lambda>s. smap_count (f s) k) (overlapping segs tid start end_ts)))"
proof -
  let ?segments = "overlapping segs tid start end_ts"
  let ?m = "merge_segments get ?segments"
  have ms: "smap_wf ?m" "smap_count ?m k = sum_list (map (\<lambda>s. smap_count (f s) k) ?segments)"
    "fst ` set ?m = (\<Union>s \<in> set ?segments. fst ` set (f s))" for k
    by (rule merge_segments_written, rule written, assumption)+
  have "fst ` set (f s0) \<subseteq> fst ` set ?m" "fst ` set (f s0) \<noteq> {}" using nonempty ms(3) by auto
  then have "?m \<noteq> []" by auto
  moreover have "?segments \<noteq> []" using nonempty(1) by auto
  ultimately have run: "GetProfileWindow order True (Some get) segs tid (Some (start, end_ts))
      = Window_Ok (write_collapsed (order ?m))"
    using assms(2,3) by (simp add: GetProfileWindow_def Let_def)
  have dist: "distinct (map fst (order ?m))"
    using smap_wf_distinct [OF ms(1)] order [of ?m] by (simp add: distinct_map)
  have nl: "CHR 0x0A \<notin> set k" if "k \<in> fst ` set (order ?m)" for k
  proof -
    have "k \<in> fst ` set ?m" using that order [of ?m] by simp
    then obtain s e where "s \<in> set ?segments" "e \<in> set (f s)" "k = fst e" using ms(3) by blast
    then show ?thesis using written [of s] by (simp add: readable_def)
  qed
  have same: "smap_count (order ?m) k = smap_count ?m k" for k
    using map_of_inject_set [OF dist smap_wf_distinct [OF ms(1)]] order [of ?m] by (simp add: smap_count_def)
  have "smap_count (merge_content (write_collapsed (order ?m)) []) k
      = sum_list (map (\<lambda>s. smap_count (f s) k) ?segments)" for k
    using merge_written_count [OF smap_wf_Nil nl dist, of k] ms(2) [of k] same [of k] by (simp add: smap_count_def)
  with run show ?thesis by blast
qed

definition sample_segments :: "segment_row list" where
  "sample_segments = [\<lparr>sg_tid = ''t'', sg_start_ts = 100, sg_end_ts = 400, sg_s3_key = ''t/100''\<rparr>,
     \<lparr>sg_tid = ''t'', sg_start_ts = 400, sg_end_ts = 700, sg_s3_key = ''t/400''\<rparr>]"

definition sample_stacks :: "segment_row \<Rightarrow> stack_map" where
  "sample_stacks s = (if sg_start_ts s = 100 then [(''main;bar'', 5), (''main;foo'', 10)] else [(''main;foo'', 20)])"

definition sample_get :: "string \<Rightarrow> string option" where
  "sample_get key = (if key = ''t/100'' then Some (write_collapsed [(''main;bar'', 5), (''main;foo'', 10)])
     else if key = ''t/400'' then Some (write_collapsed [(''main;foo'', 20)]) else None)"

theorem window_adds_segments_witness:
  "\<exists>text. GetProfileWindow (\<lambda>m. rev (remdups m)) True (Some sample_get) sample_segments ''t'' (Some (100, 700)) = Window_Ok text
     \<and> smap_count (merge_content text []) ''main;foo'' = 30"
proof -
  have segs: "overlapping sample_segments ''t'' 100 700 = sample_segments" by code_simp
  have r1: "readable [(''main;bar'', 5), (''main;foo'', 10)]" "readable [(''main;foo'', 20)]"
    "smap_wf [(''main;bar'', 5), (''main;foo'', 10 :: u64)]" "smap_wf [(''main;foo'', 20 :: u64)]"
  proof -
    have len: "length (collapsed_line (''main;bar'', 5)) = 10" "length (collapsed_line (''main;foo'', 10)) = 11"
      "length (collapsed_line (''main;foo'', 20)) = 11" by code_simp+
    show "readable [(''main;bar'', 5), (''main;foo'', 10)]" "readable [(''main;foo'', 20)]"
      by (simp_all add: readable_def len MaxScanTokenSize_def)
    show "smap_wf [(''main;bar'', 5), (''main;foo'', 10 :: u64)]" "smap_wf [(''main;foo'', 20 :: u64)]"
      by code_simp+
  qed
  have written: "sample_get (sg_s3_key s) = Some (write_collapsed (sample_stacks s)) \<and> readable (sample_stacks s) \<and> smap_wf (sample_stacks s)"
    if "s \<in> set (overlapping sample_segments ''t'' 100 700)" for s
    using that unfolding segs by (auto simp: sample_segments_def sample_get_def sample_stacks_def r1)
  have s0: "hd sample_segments \<in> set (overlapping sample_segments ''t'' 100 700)" "sample_stacks (hd sample_segments) \<noteq> []"
    unfolding segs by (simp_all add: sample_segments_def sample_stacks_def)
  have order: "set (rev (remdups m)) = set m \<and> distinct (rev (remdups m))" for m :: stack_map by simp
  have "sum_list (map (\<lambda>s. smap_count (sample_stacks s) ''main;foo'') sample_segments) = 30"
    by (simp add: sample_segments_def sample_stacks_def smap_count_def)
  then show ?thesis
    using window_adds_segments [of "\<lambda>m. rev (remdups m)" 100 700 sample_segments "''t''" sample_get sample_stacks,
        OF order _ _ written s0] segs by auto
qed

end
