(* ===== verification/ApiAccess.thy ===== *)
theory ApiAccess
  imports NLChat ProfileWindow
begin

text \<open>
  Who reaches which handler of the API server and what it shows: the middleware of
  \<^verbatim>\<open>src/apiserver/middleware\<close>, the routes of \<^verbatim>\<open>src/apiserver/main.go\<close>, and the handlers
  of \<^verbatim>\<open>handler.go\<close> for users, groups and listings.  gin matches a request to a route; the rate
  limiter's decision, the success of a statement, the object store and the answer of
  \<^verbatim>\<open>drop_server\<close> are arguments.
\<close>

section \<open>Middleware and routes\<close>

record http_request =
  hq_method :: string
  hq_uid_cookie :: string
  hq_name_cookie :: string

definition Auth :: "bool \<Rightarrow> string \<Rightarrow> string \<Rightarrow> (string \<times> string) option" where
  "Auth devMode uid0 name0 =
     (let (uid, name) = (if devMode \<and> uid0 = [] then (''dev-uid'', ''developer'') else (uid0, name0))
      in if uid = [] then None else Some (uid, name))"

datatype handler =
    H_healthz | H_AuthCheck | H_UploadTaskFile | H_CreateSegment
  | H_GetUser | H_ListAgents | H_StatAgent
  | H_CreateTask | H_ListTasks | H_GetTask | H_DeleteTask | H_RetryTask | H_ListCosFiles
  | H_CreateGroup | H_ListGroups | H_AddGroupMember | H_RemoveGroupMember | H_AddGroupAgent | H_RemoveGroupAgent
  | H_CreateScheduleTask | H_ListSchedules | H_ToggleSchedule | H_DeleteSchedule
  | H_ListSegments | H_GetProfileWindow | H_ListSuggestions | H_NLChat | H_NLChatFollowup | H_NLStreamSSE

definition public_routes :: "(string \<times> string \<times> handler) list" where
  "public_routes =
     [(''GET'', ''/healthz'', H_healthz), (''GET'', ''/api/v1/auth/check'', H_AuthCheck),
      (''POST'', ''/api/v1/tasks/:tid/upload/*filename'', H_UploadTaskFile),
      (''POST'', ''/api/v1/tasks/:tid/segments'', H_CreateSegment)]"

definition api_routes :: "(string \<times> string \<times> handler) list" where
  "api_routes =
     [(''GET'', ''/users'', H_GetUser), (''GET'', ''/agents'', H_ListAgents), (''GET'', ''/agent/stat'', H_StatAgent),
      (''POST'', ''/tasks'', H_CreateTask), (''GET'', ''/tasks'', H_ListTasks), (''GET'', ''/tasks/:tid'', H_GetTask),
      (''DELETE'', ''/tasks/:tid'', H_DeleteTask), (''POST'', ''/tasks/:tid/retry'', H_RetryTask),
      (''GET'', ''/cosfiles'', H_ListCosFiles), (''POST'', ''/group'', H_CreateGroup), (''GET'', ''/groups'', H_ListGroups),
      (''POST'', ''/group/member'', H_AddGroupMember), (''DELETE'', ''/group/member'', H_RemoveGroupMember),
      (''POST'', ''/group/agent'', H_AddGroupAgent), (''DELETE'', ''/group/agent'', H_RemoveGroupAgent),
      (''POST'', ''/schedule/task'', H_CreateScheduleTask), (''GET'', ''/schedules'', H_ListSchedules),
      (''PUT'', ''/schedule/:tid/toggle'', H_ToggleSchedule), (''DELETE'', ''/schedule/:tid'', H_DeleteSchedule),
      (''GET'', ''/tasks/:tid/segments'', H_ListSegments), (''GET'', ''/tasks/:tid/profile-window'', H_GetProfileWindow),
      (''GET'', ''/tasks/:tid/suggestions'', H_ListSuggestions), (''POST'', ''/nl/chat'', H_NLChat),
      (''POST'', ''/nl/chat/:tid'', H_NLChatFollowup), (''GET'', ''/nl/stream/:tid'', H_NLStreamSSE)]"

text \<open>
  A request for the route with pattern \<open>path\<close>: \<open>Aborted\<close> with a status, or a call of a handler for
  a user, who has no name on the routes without \<^verbatim>\<open>Auth\<close>.
\<close>

datatype served = Aborted nat | Handled handler string string

definition CORS_aborts :: "http_request \<Rightarrow> bool" where
  "CORS_aborts q \<longleftrightarrow> hq_method q = ''OPTIONS''"

definition find_route :: "string \<Rightarrow> string \<Rightarrow> (string \<times> string \<times> handler) list \<Rightarrow> handler option" where
  "find_route method path rs = map_option (snd \<circ> snd) (find (\<lambda>(m, p, _). m = method \<and> p = path) rs)"

definition serve :: "bool \<Rightarrow> bool \<Rightarrow> http_request \<Rightarrow> string \<Rightarrow> served" where
  "serve devMode limiter_allows q path =
     (if CORS_aborts q then Aborted 204
      else if \<not> limiter_allows then Aborted 429
      else
        (case find_route (hq_method q) path public_routes of
           Some h \<Rightarrow> Handled h [] []
         | None \<Rightarrow>
             (case find_route (hq_method q) path (map (\<lambda>(m, p, h). (m, ''/api/v1'' @ p, h)) api_routes) of
                None \<Rightarrow> Aborted 404
              | Some h \<Rightarrow>
                  (case Auth devMode (hq_uid_cookie q) (hq_name_cookie q) of
                     None \<Rightarrow> Aborted 401
                   | Some (uid, name) \<Rightarrow> Handled h uid name))))"

definition AuthCheck :: "bool \<Rightarrow> string \<Rightarrow> api_reply" where
  "AuthCheck devMode uid =
     (if uid = [] \<and> \<not> devMode then Api_Error 4010001 else Api_Ok (if uid = [] then ''dev-uid'' else uid))"

section \<open>Users and groups\<close>

record user_row =
  us_uid :: string
  us_name :: string

record group_row =
  gr_gid :: nat
  gr_name :: string
  gr_owner_id :: string

text \<open>The tables of users and groups, and the column \<^verbatim>\<open>gid\<close> of the agents by their id.\<close>

record org_db =
  og_users :: "user_row list"
  og_groups :: "group_row list"
  og_members :: "(nat \<times> string) list"
  og_agent_gid :: "(nat \<times> nat) list"

definition GetUser :: "bool \<Rightarrow> bool \<Rightarrow> string \<Rightarrow> string \<Rightarrow> org_db \<Rightarrow> (nat + user_row) \<times> org_db" where
  "GetUser query_ok insert_ok uid name o' =
     (case (if query_ok then find (\<lambda>u. us_uid u = uid) (og_users o') else None) of
        Some user \<Rightarrow> (Inr user, o')
      | None \<Rightarrow>
          let user = \<lparr>us_uid = uid, us_name = name\<rparr>
          in if \<not> insert_ok \<or> uid \<in> us_uid ` set (og_users o') then (Inl 5000001, o')
             else (Inr user, o'\<lparr>og_users := og_users o' @ [user]\<rparr>))"

text \<open>\<open>gid\<close> is the value the database gives the key of the new group.\<close>

definition CreateGroup ::
  "bool \<Rightarrow> bool \<Rightarrow> nat \<Rightarrow> string \<Rightarrow> string option \<Rightarrow> org_db \<Rightarrow> (nat + group_row) \<times> org_db" where
  "CreateGroup group_ok member_ok gid uid body o' =
     (case body of
        None \<Rightarrow> (Inl 4000005, o')
      | Some name \<Rightarrow>
          if \<not> group_ok \<or> name \<in> gr_name ` set (og_groups o') then (Inl 5000005, o')
          else
            let group = \<lparr>gr_gid = gid, gr_name = name, gr_owner_id = uid\<rparr>;
                o1 = o'\<lparr>og_groups := og_groups o' @ [group]\<rparr>
            in (Inr group,
                if member_ok \<and> (gid, uid) \<notin> set (og_members o1)
                then o1\<lparr>og_members := og_members o1 @ [(gid, uid)]\<rparr> else o1))"

definition ListGroups :: "string \<Rightarrow> org_db \<Rightarrow> group_row list" where
  "ListGroups uid o' =
     (let gids = map fst (filter (\<lambda>m. snd m = uid) (og_members o'))
      in filter (\<lambda>g. gr_gid g \<in> set gids) (og_groups o'))"

text \<open>\<^verbatim>\<open>FirstOrCreate\<close>: a condition given as a structure leaves out the fields that are zero.\<close>

definition member_cond :: "nat \<Rightarrow> string \<Rightarrow> nat \<times> string \<Rightarrow> bool" where
  "member_cond gid uid m \<longleftrightarrow> (gid = 0 \<or> fst m = gid) \<and> (uid = [] \<or> snd m = uid)"

definition AddGroupMember :: "bool \<Rightarrow> (nat \<times> string) option \<Rightarrow> org_db \<Rightarrow> api_reply \<times> org_db" where
  "AddGroupMember ok body o' =
     (case body of
        None \<Rightarrow> (Api_Error 4000006, o')
      | Some (gid, uid) \<Rightarrow>
          if \<not> ok then (Api_Error 5000006, o')
          else (Api_Ok [],
                if list_ex (member_cond gid uid) (og_members o') then o'
                else o'\<lparr>og_members := og_members o' @ [(gid, uid)]\<rparr>))"

definition RemoveGroupMember :: "bool \<Rightarrow> (nat \<times> string) option \<Rightarrow> org_db \<Rightarrow> api_reply \<times> org_db" where
  "RemoveGroupMember ok body o' =
     (case body of
        None \<Rightarrow> (Api_Error 4000007, o')
      | Some m \<Rightarrow> (Api_Ok [], if ok then o'\<lparr>og_members := filter (\<lambda>x. x \<noteq> m) (og_members o')\<rparr> else o'))"

text \<open>The body has a group and the id of an agent; \<open>ids\<close> are the ids of the agents.\<close>

definition AddGroupAgent :: "bool \<Rightarrow> nat list \<Rightarrow> (nat \<times> nat) option \<Rightarrow> org_db \<Rightarrow> api_reply \<times> org_db" where
  "AddGroupAgent ok ids body o' =
     (case body of
        None \<Rightarrow> (Api_Error 4000008, o')
      | Some (gid, agentID) \<Rightarrow>
          (Api_Ok [],
           if ok \<and> agentID \<in> set ids then o'\<lparr>og_agent_gid := AList.update agentID gid (og_agent_gid o')\<rparr> else o'))"

definition RemoveGroupAgent :: "bool \<Rightarrow> nat list \<Rightarrow> (nat \<times> nat) option \<Rightarrow> org_db \<Rightarrow> api_reply \<times> org_db" where
  "RemoveGroupAgent ok ids body o' =
     (case body of
        None \<Rightarrow> (Api_Error 4000009, o')
      | Some (gid, agentID) \<Rightarrow>
          (Api_Ok [],
           if ok \<and> agentID \<in> set ids \<and> map_of (og_agent_gid o') agentID = Some gid
           then o'\<lparr>og_agent_gid := AList.update agentID 0 (og_agent_gid o')\<rparr> else o'))"

section \<open>Listings\<close>

text \<open>
  The value of \<^verbatim>\<open>strconv.Atoi\<close> when its error is ignored: 0 for a text that is no number, and
  the nearest integer for one that does not fit.
\<close>

definition Atoi_value :: "string \<Rightarrow> int" where
  "Atoi_value s =
     (let (neg, ds) = split_sign s; n = int (digits_val ds)
      in if ds = [] \<or> \<not> list_all is_digit ds then 0
         else if neg then max (- (2 ^ 63)) (- n) else min (2 ^ 63 - 1) n)"

definition wrap64 :: "int \<Rightarrow> int" where
  "wrap64 x = (x + 2 ^ 63) mod 2 ^ 64 - 2 ^ 63"

text \<open>\<^verbatim>\<open>Offset\<close> and \<^verbatim>\<open>Limit\<close>: an offset that is not positive and a negative limit have no effect.\<close>

definition gorm_page :: "int \<Rightarrow> int \<Rightarrow> 'a list \<Rightarrow> 'a list" where
  "gorm_page offset limit xs =
     (let ys = (if offset > 0 then drop (nat offset) xs else xs)
      in if limit < 0 then ys else take (nat limit) ys)"

text \<open>The tasks of a user's listing, the latest first; the database may order equal times as it likes.\<close>

definition listed_tasks :: "(nat \<times> string) list \<Rightarrow> string \<Rightarrow> pg_db \<Rightarrow> task_row list" where
  "listed_tasks members uid d =
     sort_key (\<lambda>r. - tk_create_time r) (filter (\<lambda>r. \<not> tk_deleted r \<and> visible members uid r) (hotmethod_task_tbl d))"

definition ListTasks ::
  "(nat \<times> string) list \<Rightarrow> string \<Rightarrow> string \<Rightarrow> string \<Rightarrow> pg_db \<Rightarrow> task_row list \<times> nat \<times> int" where
  "ListTasks members uid page_query size_query d =
     (let page0 = Atoi_value page_query; pageSize0 = Atoi_value size_query;
          pageSize = (if pageSize0 > 100 then 100 else pageSize0); page = (if page0 < 1 then 1 else page0);
          rows = listed_tasks members uid d
      in (gorm_page (wrap64 ((page - 1) * pageSize)) pageSize rows, length rows, page))"

definition task_files :: "(string \<Rightarrow> string) \<Rightarrow> string list \<Rightarrow> (string \<times> string \<times> string) list" where
  "task_files PreSign keys = map (\<lambda>key. (after_last (CHR ''/'') key, key, PreSign key)) keys"


definition ListCosFiles ::
  "storage_env \<Rightarrow> (string \<Rightarrow> string) \<Rightarrow> objects option \<Rightarrow> string \<Rightarrow> nat + (string \<times> string \<times> string) list" where
  "ListCosFiles sto PreSign store tid =
     (if tid = [] then Inl 4000004
      else
        (case store of
           None \<Rightarrow> Inl 5030001
         | Some objs \<Rightarrow>
             if \<not> list_ok sto then Inl 5000004 else Inr (task_files PreSign (ListObjects objs (tid @ ''/'')))))"

definition APIServer_ListAgents :: "(nat \<times> string) list \<Rightarrow> string \<Rightarrow> pg_db \<Rightarrow> agent_row list" where
  "APIServer_ListAgents members uid d =
     filter (\<lambda>a. ag_uid a = uid
                 \<or> (\<exists>(g, u) \<in> set members. u = ag_uid a \<and> (\<exists>(g', u') \<in> set members. u' = uid \<and> g' = g)))
       (agent_info_tbl d)"

text \<open>\<open>answer\<close> is the response of \<^verbatim>\<open>drop_server\<close>, \<open>None\<close> without a connection or when the call fails.\<close>

definition APIServer_StatAgent ::
  "agent_info list option \<Rightarrow> string \<Rightarrow> pg_db \<Rightarrow> agent_info list + agent_row list" where
  "APIServer_StatAgent answer ip d =
     (case answer of
        Some agents \<Rightarrow> Inl agents
      | None \<Rightarrow> Inr (filter (\<lambda>a. ip = [] \<or> ag_ip_addr a = ip) (agent_info_tbl d)))"

definition ListSegments :: "segment_row list \<Rightarrow> string \<Rightarrow> segment_row list" where
  "ListSegments segments tid = sort_key sg_start_ts (filter (\<lambda>s. sg_tid s = tid) segments)"

text \<open>The rows are in the order of their ids.\<close>

definition ListSuggestions :: "suggestion_row list \<Rightarrow> string \<Rightarrow> suggestion_row list" where
  "ListSuggestions sugs tid = sort_key sug_status (find_suggestions ''t_id'' tid sugs)"

section \<open>Lemmas\<close>

lemma public_handlers:
  "find_route m p public_routes = Some h \<Longrightarrow> h \<in> {H_healthz, H_AuthCheck, H_UploadTaskFile, H_CreateSegment}"
  by (auto simp: find_route_def public_routes_def split: if_splits)

lemma routes_distinct:
  "distinct (map (\<lambda>(m, p, _). (m, p)) (public_routes @ map (\<lambda>(m, p, h). (m, ''/api/v1'' @ p, h)) api_routes))"
  "distinct (map (\<lambda>(_, _, h). h) (public_routes @ api_routes))"
  by code_simp+

lemma Auth_user: "Auth dev uid0 name0 = Some (uid, name) \<Longrightarrow> uid \<noteq> [] \<and> (\<not> dev \<longrightarrow> uid = uid0 \<and> name = name0)"
  by (auto simp: Auth_def split: if_splits)

text \<open>
  Without a user cookie, and outside the development mode, a request reaches four handlers only.  Any
  other handler runs for the user the cookie names.
\<close>

theorem serve_authenticates:
  assumes "serve dev allows q path = Handled h uid name"
  shows "h \<in> {H_healthz, H_AuthCheck, H_UploadTaskFile, H_CreateSegment}
    \<or> uid \<noteq> [] \<and> (\<not> dev \<longrightarrow> uid = hq_uid_cookie q)"
  using assms public_handlers [of "hq_method q" path] Auth_user [of dev "hq_uid_cookie q" "hq_name_cookie q"]
  by (auto simp: serve_def split: if_splits option.splits)

text \<open>Every route of the table is served to a user with a cookie when the limiter allows it.\<close>

lemma find_route_Some:
  assumes "distinct (map (\<lambda>(m, p, _). (m, p)) rs)" and "(m, p, h) \<in> set rs"
  shows "find_route m p rs = Some h"
  using assms by (induction rs) (force simp: find_route_def)+

lemma find_route_None: "find_route m p rs = None \<longleftrightarrow> (m, p) \<notin> (\<lambda>(m, p, _). (m, p)) ` set rs"
  by (induction rs) (auto simp: find_route_def)

theorem serve_reaches:
  assumes "(m, p, h) \<in> set api_routes" and "hq_method q = m" and "hq_uid_cookie q \<noteq> []"
  shows "serve dev True q (''/api/v1'' @ p) = Handled h (hq_uid_cookie q) (hq_name_cookie q)"
proof -
  let ?api = "map (\<lambda>(m, p, h). (m, ''/api/v1'' @ p, h)) api_routes"
  have r: "(m, ''/api/v1'' @ p, h) \<in> set ?api" using assms(1) by force
  have d: "distinct (map (\<lambda>(m, p, _). (m, p)) (public_routes @ ?api))" by (rule routes_distinct(1))
  have "(m, ''/api/v1'' @ p) \<in> set (map (\<lambda>(m, p, _). (m, p)) ?api)" using r by force
  then have "find_route m (''/api/v1'' @ p) public_routes = None"
    using d unfolding find_route_None map_append distinct_append set_map [symmetric] by blast
  moreover have "find_route m (''/api/v1'' @ p) ?api = Some h"
    using d unfolding map_append distinct_append by (intro find_route_Some [OF _ r]) blast
  moreover have "m \<noteq> ''OPTIONS''" using assms(1) by (auto simp: api_routes_def)
  ultimately show ?thesis using assms(2,3) by (simp add: serve_def CORS_aborts_def Auth_def)
qed

section \<open>Groups\<close>

definition org_inv :: "org_db \<Rightarrow> bool" where
  "org_inv o' \<longleftrightarrow> distinct (map us_uid (og_users o')) \<and> distinct (map gr_name (og_groups o')) \<and> distinct (og_members o')"

lemma org_inv_handlers:
  assumes "org_inv o'"
  shows "org_inv (snd (GetUser ok1 ok2 uid name o'))"
    and "org_inv (snd (CreateGroup ok1 ok2 gid uid grp o'))"
    and "org_inv (snd (AddGroupMember ok1 m o'))"
    and "org_inv (snd (RemoveGroupMember ok1 m o'))"
    and "org_inv (snd (AddGroupAgent ok1 ids ga o'))"
    and "org_inv (snd (RemoveGroupAgent ok1 ids ga o'))"
  using assms
  by (auto simp: org_inv_def GetUser_def CreateGroup_def AddGroupMember_def RemoveGroupMember_def AddGroupAgent_def
      RemoveGroupAgent_def member_cond_def Let_def list_ex_iff split: option.splits if_splits)

lemma visible_iff:
  "visible members uid r \<longleftrightarrow> tk_uid r = uid \<or> (\<exists>g. (g, tk_uid r) \<in> set members \<and> (g, uid) \<in> set members)"
  by (auto simp: visible_def)

text \<open>
  Adding a member asks neither who adds nor whether the group is theirs: after adding oneself, one
  sees the tasks of every member of the group.
\<close>

theorem join_any_group:
  assumes "(gid, tk_uid r) \<in> set (og_members o')" and "gid \<noteq> 0" and "uid \<noteq> []"
    and "AddGroupMember True (Some (gid, uid)) o' = (reply, o1)"
  shows "visible (og_members o1) uid r"
proof -
  have "(gid, uid) \<in> set (og_members o1) \<and> set (og_members o') \<subseteq> set (og_members o1)"
    using assms(2-4) by (auto simp: AddGroupMember_def member_cond_def list_ex_iff split: if_splits)
  then show ?thesis using assms(1) by (auto simp: visible_iff)
qed

text \<open>A member who is removed keeps only what another group or their own tasks give.\<close>

theorem removed_member_loses:
  assumes "RemoveGroupMember True (Some (gid, uid)) o' = (reply, o1)" and "tk_uid r \<noteq> uid"
  shows "visible (og_members o1) uid r
    \<longleftrightarrow> (\<exists>g. g \<noteq> gid \<and> (g, tk_uid r) \<in> set (og_members o') \<and> (g, uid) \<in> set (og_members o'))"
  using assms by (auto simp: RemoveGroupMember_def visible_iff)

section \<open>Listings\<close>





text \<open>A negative page size lifts the limit of 100 rows.\<close>

theorem negative_page_size: "fst (ListTasks members uid ''1'' ''-1'' d) = listed_tasks members uid d"
proof -
  have "Atoi_value ''1'' = 1" "Atoi_value ''-1'' = -1" by code_simp+
  then show ?thesis by (simp add: ListTasks_def Let_def gorm_page_def wrap64_def)
qed



section \<open>Properties\<close>







end
