(* ===== verification/AnalysisWork.thy ===== *)
theory AnalysisWork
  imports Advisor ApiAccess HotmethodAnalyzer
begin

text \<open>
  The work of an analysis run, \<^verbatim>\<open>src/analysis/drop_analyzer/hotmethod_analyzer.py\<close>: from the
  uploaded data to the artifacts in the object store and the rows of suggestions.  The tools are
  processes, and their outcomes are an argument, as are the uploads, the rules and the language model.
  A file holds its text or, for \<^verbatim>\<open>top.json\<close>, the list that is dumped to it and read back.
\<close>

section \<open>Tools\<close>

datatype run_result = Exit_ok string | Exit_fail string | Run_raised string

record tool_env =
  to_which :: "string \<Rightarrow> string option"
  to_isfile :: "string \<Rightarrow> bool"
  to_home :: string
  to_find :: "string \<Rightarrow> string + string"
  to_perf_script :: "string \<Rightarrow> run_result"
  to_perl :: "string \<Rightarrow> string list \<Rightarrow> string \<Rightarrow> run_result"

text \<open>An exception is its message.\<close>

fun py_bind :: "string + 'a \<Rightarrow> ('a \<Rightarrow> string + 'b) \<Rightarrow> string + 'b" where
  "py_bind (Inl m) f = Inl m"
| "py_bind (Inr x) f = f x"

lemma py_bind_Inr [simp]: "py_bind r f = Inr y \<longleftrightarrow> (\<exists>x. r = Inr x \<and> f x = Inr y)"
  by (cases r) auto

text \<open>A run whose exit status is checked; \<open>msg\<close> makes the message from the error output.\<close>

definition checked_run :: "run_result \<Rightarrow> (string \<Rightarrow> string) \<Rightarrow> string + string" where
  "checked_run r msg = (case r of Exit_ok out \<Rightarrow> Inr out | Exit_fail err \<Rightarrow> Inl (msg err) | Run_raised m \<Rightarrow> Inl m)"

text \<open>The exit status of \<^verbatim>\<open>find\<close> is not looked at; \<open>to_find\<close> is its output.\<close>

definition find_tool :: "tool_env \<Rightarrow> string \<Rightarrow> string + string" where
  "find_tool env name =
     (case to_which env name of
        Some p \<Rightarrow> Inr p
      | None \<Rightarrow>
          (case find (to_isfile env)
                  [''/opt/FlameGraph/'' @ name, ''/usr/local/bin/'' @ name, ''/root/FlameGraph/'' @ name,
                   to_home env @ ''/FlameGraph/'' @ name] of
             Some c \<Rightarrow> Inr c
           | None \<Rightarrow>
               (case to_find env name of
                  Inl m \<Rightarrow> Inl m
                | Inr out \<Rightarrow>
                    (case find (\<lambda>l. l \<noteq> []) (py_split (CHR 0x0A) (py_strip out)) of
                       Some l \<Rightarrow> Inr l
                     | None \<Rightarrow> Inl (''Cannot find '' @ name @ ''. Install FlameGraph tools.'')))))"

section \<open>The pipelines\<close>

datatype file_content = Raw string | Topn "topn_item list"

type_synonym artifact = "string \<times> file_content"

definition analyze_perf :: "tool_env \<Rightarrow> string \<Rightarrow> string + artifact list" where
  "analyze_perf env perf_data =
     py_bind (checked_run (to_perf_script env perf_data) (\<lambda>err. ''perf script failed: '' @ py_strip err)) (\<lambda>script.
     py_bind (find_tool env ''stackcollapse-perf.pl'') (\<lambda>collapse_tool.
     py_bind (checked_run (to_perl env collapse_tool [] script) (\<lambda>_. ''stackcollapse-perf.pl failed'')) (\<lambda>collapsed.
     py_bind (find_tool env ''flamegraph.pl'') (\<lambda>fg_tool.
     py_bind (checked_run (to_perl env fg_tool [''--title'', ''CPU Flame Graph'', ''--width'', ''1200''] collapsed)
                (\<lambda>_. ''flamegraph.pl failed'')) (\<lambda>svg.
       Inr [(''perf.script.txt'', Raw script), (''collapsed.txt'', Raw collapsed), (''flamegraph.svg'', Raw svg),
            (''top.json'', Topn (parse_topn 30 collapsed))])))))"

definition analyze_async_profiler :: "tool_env \<Rightarrow> string \<Rightarrow> string + artifact list" where
  "analyze_async_profiler env collapsed =
     py_bind (find_tool env ''flamegraph.pl'') (\<lambda>fg_tool.
     py_bind (checked_run (to_perl env fg_tool
                  [''--color'', ''java'', ''--title'', ''Java Flame Graph (async-profiler)'', ''--width'', ''1200''] collapsed)
                (\<lambda>_. ''flamegraph.pl failed for async-profiler data'')) (\<lambda>svg.
       Inr [(''async_profiler.collapsed'', Raw collapsed), (''flamegraph_java.svg'', Raw svg),
            (''top.json'', Topn (parse_topn 30 collapsed))]))"

definition analyze_ebpf :: "tool_env \<Rightarrow> string \<Rightarrow> string + artifact list" where
  "analyze_ebpf env collapsed =
     py_bind (find_tool env ''flamegraph.pl'') (\<lambda>fg_tool.
     py_bind (checked_run (to_perl env fg_tool
                  [''--color'', ''io'', ''--title'', ''Off-CPU Flame Graph'', ''--width'', ''1200'',
                   ''--countname'', ''microseconds''] collapsed)
                (\<lambda>_. ''flamegraph.pl failed for eBPF data'')) (\<lambda>svg.
       Inr [(''collapsed_ebpf.txt'', Raw collapsed), (''flamegraph_offcpu.svg'', Raw svg),
            (''top.json'', Topn (parse_topn 30 collapsed))]))"

definition analyze_data :: "tool_env \<Rightarrow> int \<Rightarrow> string \<Rightarrow> string + artifact list" where
  "analyze_data env profiler_type data =
     (if profiler_type = 0 then analyze_perf env data
      else if profiler_type = 1 then analyze_async_profiler env data
      else if profiler_type = 3 then analyze_ebpf env data
      else Inl (''Unsupported profiler_type='' @ show_int profiler_type))"

section \<open>Results\<close>

definition artifact_type :: "string \<Rightarrow> string" where
  "artifact_type art =
     (if suffix ''.svg'' art then ''image/svg+xml''
      else if suffix ''.json'' art then ''application/json''
      else if suffix ''.txt'' art then ''text/plain''
      else if suffix ''.md'' art then ''text/markdown''
      else ''application/octet-stream'')"

text \<open>The object store, by key, and the rows of suggestions.\<close>

record work_state =
  ws_objects :: "(string \<times> string \<times> file_content) list"
  ws_suggestions :: "suggestion_row list"

record work_env =
  we_tools :: tool_env
  we_upload_error :: "string \<Rightarrow> string option"
  we_rules :: "advice_rule list"
  we_regex :: "string \<Rightarrow> string \<Rightarrow> bool option"
  we_llm :: llm_env
  we_dumps :: "diagnosis \<Rightarrow> string"
  we_insert_ok :: bool

definition upload_file :: "work_env \<Rightarrow> string \<Rightarrow> string \<Rightarrow> file_content \<Rightarrow> work_state \<Rightarrow> (string + unit) \<times> work_state" where
  "upload_file env key ct content st =
     (case we_upload_error env key of
        Some m \<Rightarrow> (Inl m, st)
      | None \<Rightarrow> (Inr (), st\<lparr>ws_objects := AList.update key (ct, content) (ws_objects st)\<rparr>))"

fun upload_artifacts :: "work_env \<Rightarrow> string \<Rightarrow> artifact list \<Rightarrow> work_state \<Rightarrow> (string + unit) \<times> work_state" where
  "upload_artifacts env tid [] st = (Inr (), st)"
| "upload_artifacts env tid ((art, content) # arts) st =
     (case upload_file env (tid @ ''/'' @ art) (artifact_type art) content st of
        (Inl m, st1) \<Rightarrow> (Inl m, st1)
      | (Inr _, st1) \<Rightarrow> upload_artifacts env tid arts st1)"

definition rule_row :: "string \<Rightarrow> rule_match \<Rightarrow> suggestion_row" where
  "rule_row tid m = \<lparr>sug_tid = tid, sug_func = rm_func m, sug_suggestion = rm_advice m, sug_ai = [], sug_status = 0\<rparr>"

definition ai_row :: "string \<Rightarrow> string \<Rightarrow> suggestion_row" where
  "ai_row tid ai_text = \<lparr>sug_tid = tid, sug_func = ''__ai_summary__'', sug_suggestion = [], sug_ai = ai_text, sug_status = 1\<rparr>"

text \<open>
  One transaction, whose failure the caller ignores.  The column \<^verbatim>\<open>func\<close> holds at most 512
  characters, and the database refuses a longer text.
\<close>

definition insert_suggestions :: "work_env \<Rightarrow> string \<Rightarrow> rule_match list \<Rightarrow> diagnosis \<Rightarrow> work_state \<Rightarrow> work_state" where
  "insert_suggestions env tid rule_matches ai_result st =
     (if we_insert_ok env \<and> list_all (\<lambda>m. length (rm_func m) \<le> 512) rule_matches
      then st\<lparr>ws_suggestions := ws_suggestions st @ map (rule_row tid) rule_matches @ [ai_row tid (we_dumps env ai_result)]\<rparr>
      else st)"

definition top_list :: "artifact list \<Rightarrow> topn_item list option" where
  "top_list arts = (case map_of arts ''top.json'' of Some (Topn l) \<Rightarrow> Some l | _ \<Rightarrow> None)"

definition suggest :: "work_env \<Rightarrow> string \<Rightarrow> topn_item list \<Rightarrow> work_state \<Rightarrow> (string + unit) \<times> work_state" where
  "suggest env tid topn st =
     (let rule_matches = match_rules (we_regex env) topn (we_rules env);
          md = generate_suggestions_md (llm_show (we_llm env)) rule_matches
      in case upload_file env (tid @ ''/suggestions.md'') ''text/markdown'' (Raw md) st of
           (Inl m, st1) \<Rightarrow> (Inl m, st1)
         | (Inr _, st1) \<Rightarrow>
             let ai_result = ask_llm (we_llm env) topn; ai_md = generate_ai_suggestion_md ai_result
             in case upload_file env (tid @ ''/ai_suggestion.md'') ''text/markdown'' (Raw ai_md) st1 of
                  (Inl m, st2) \<Rightarrow> (Inl m, st2)
                | (Inr _, st2) \<Rightarrow> (Inr (), insert_suggestions env tid rule_matches ai_result st2))"

definition analysis_work :: "work_env \<Rightarrow> string \<Rightarrow> int \<Rightarrow> string \<Rightarrow> work_state \<Rightarrow> (string + unit) \<times> work_state" where
  "analysis_work env tid profiler_type data st =
     (case analyze_data (we_tools env) profiler_type data of
        Inl m \<Rightarrow> (Inl m, st)
      | Inr arts \<Rightarrow>
          (case upload_artifacts env tid arts st of
             (Inl m, st1) \<Rightarrow> (Inl m, st1)
           | (Inr _, st1) \<Rightarrow>
               (case top_list arts of None \<Rightarrow> (Inr (), st1) | Some topn \<Rightarrow> suggest env tid topn st1)))"

section \<open>Lemmas\<close>

lemma analyze_top_list:
  assumes "analyze_data env p data = Inr arts"
  shows "\<exists>l. top_list arts = Some l" and "distinct (map fst arts)"
    and "''suggestions.md'' \<notin> fst ` set arts" and "''ai_suggestion.md'' \<notin> fst ` set arts"
  using assms
  by (auto simp: analyze_data_def analyze_perf_def analyze_async_profiler_def analyze_ebpf_def top_list_def split: if_splits)

lemma upload_file_state:
  "upload_file env key ct content st = (r, st') \<Longrightarrow>
   ws_suggestions st' = ws_suggestions st \<and> (k \<noteq> key \<longrightarrow> map_of (ws_objects st') k = map_of (ws_objects st) k)
   \<and> (r = Inr () \<longrightarrow> map_of (ws_objects st') key = Some (ct, content))"
  by (auto simp: upload_file_def update_conv split: option.splits)

lemma upload_artifacts_state:
  "upload_artifacts env tid arts st = (r, st') \<Longrightarrow> distinct (map fst arts) \<Longrightarrow>
   ws_suggestions st' = ws_suggestions st
   \<and> (k \<notin> (\<lambda>a. tid @ ''/'' @ fst a) ` set arts \<longrightarrow> map_of (ws_objects st') k = map_of (ws_objects st) k)
   \<and> (r = Inr () \<longrightarrow> (\<forall>(n, c) \<in> set arts. map_of (ws_objects st') (tid @ ''/'' @ n) = Some (artifact_type n, c)))"
proof (induction env tid arts st arbitrary: k rule: upload_artifacts.induct)
  case (2 env tid art content arts st)
  obtain r1 st1 where u: "upload_file env (tid @ ''/'' @ art) (artifact_type art) content st = (r1, st1)" by fastforce
  note one = upload_file_state [OF u]
  show ?case
  proof (cases r1)
    case (Inl m)
    then show ?thesis using "2.prems" one [of k] by (auto simp: u [simplified])
  next
    case (Inr x)
    then have run: "upload_artifacts env tid arts st1 = (r, st')" using "2.prems"(1) by (simp add: u [simplified])
    have d: "distinct (map fst arts)" "art \<notin> fst ` set arts" using "2.prems"(2) by auto
    note rest = "2.IH" [OF u [symmetric] Inr run d(1)]
    have "map_of (ws_objects st') (tid @ ''/'' @ art) = map_of (ws_objects st1) (tid @ ''/'' @ art)"
      using rest [of "tid @ ''/'' @ art"] d(2) by (auto simp: image_iff)
    then show ?thesis using rest [of k] one [of k] Inr by auto
  qed
qed auto

definition run_matches :: "work_env \<Rightarrow> topn_item list \<Rightarrow> rule_match list" where
  "run_matches env topn = match_rules (we_regex env) topn (we_rules env)"

definition run_rows :: "work_env \<Rightarrow> string \<Rightarrow> topn_item list \<Rightarrow> suggestion_row list" where
  "run_rows env tid topn =
     map (rule_row tid) (run_matches env topn) @ [ai_row tid (we_dumps env (ask_llm (we_llm env) topn))]"

definition rows_fit :: "work_env \<Rightarrow> topn_item list \<Rightarrow> bool" where
  "rows_fit env topn \<longleftrightarrow> we_insert_ok env \<and> (\<forall>m \<in> set (run_matches env topn). length (rm_func m) \<le> 512)"

lemma insert_suggestions_rows:
  "ws_suggestions (insert_suggestions env tid (run_matches env topn) (ask_llm (we_llm env) topn) st)
     = ws_suggestions st @ (if rows_fit env topn then run_rows env tid topn else [])"
  "ws_objects (insert_suggestions env tid ms ai st) = ws_objects st"
  by (simp_all add: insert_suggestions_def rows_fit_def run_rows_def list_all_iff)

lemma suggest_state:
  assumes "suggest env tid topn st = (r, st')"
  shows "r \<noteq> Inr () \<Longrightarrow> ws_suggestions st' = ws_suggestions st"
    and "k \<noteq> tid @ ''/suggestions.md'' \<Longrightarrow> k \<noteq> tid @ ''/ai_suggestion.md'' \<Longrightarrow>
      map_of (ws_objects st') k = map_of (ws_objects st) k"
    and "r = Inr () \<Longrightarrow> ws_suggestions st' = ws_suggestions st @ (if rows_fit env topn then run_rows env tid topn else [])
      \<and> map_of (ws_objects st') (tid @ ''/suggestions.md'')
          = Some (''text/markdown'', Raw (generate_suggestions_md (llm_show (we_llm env)) (run_matches env topn)))
      \<and> map_of (ws_objects st') (tid @ ''/ai_suggestion.md'')
          = Some (''text/markdown'', Raw (generate_ai_suggestion_md (ask_llm (we_llm env) topn)))"
proof -
  let ?md = "Raw (generate_suggestions_md (llm_show (we_llm env)) (run_matches env topn))"
  let ?ai = "Raw (generate_ai_suggestion_md (ask_llm (we_llm env) topn))"
  obtain r1 st1 where u1: "upload_file env (tid @ ''/suggestions.md'') ''text/markdown'' ?md st = (r1, st1)" by fastforce
  obtain r2 st2 where u2: "upload_file env (tid @ ''/ai_suggestion.md'') ''text/markdown'' ?ai st1 = (r2, st2)" by fastforce
  have run: "(r, st') = (case r1 of Inl m \<Rightarrow> (Inl m, st1) | Inr _ \<Rightarrow> (case r2 of Inl m \<Rightarrow> (Inl m, st2)
      | Inr _ \<Rightarrow> (Inr (), insert_suggestions env tid (run_matches env topn) (ask_llm (we_llm env) topn) st2)))"
    unfolding assms [symmetric] suggest_def Let_def
    using u1 u2 by (cases r1; cases r2) (simp_all add: run_matches_def)
  note s1 = upload_file_state [OF u1] and s2 = upload_file_state [OF u2]
  show "ws_suggestions st' = ws_suggestions st" if "r \<noteq> Inr ()"
    using that run s1 s2 by (auto split: sum.splits)
  show "map_of (ws_objects st') k = map_of (ws_objects st) k"
    if "k \<noteq> tid @ ''/suggestions.md''" "k \<noteq> tid @ ''/ai_suggestion.md''"
    using that run s1 [of k] s2 [of k] by (auto simp: insert_suggestions_rows(2) split: sum.splits)
  show "ws_suggestions st' = ws_suggestions st @ (if rows_fit env topn then run_rows env tid topn else [])
      \<and> map_of (ws_objects st') (tid @ ''/suggestions.md'') = Some (''text/markdown'', ?md)
      \<and> map_of (ws_objects st') (tid @ ''/ai_suggestion.md'') = Some (''text/markdown'', ?ai)" if "r = Inr ()"
  proof -
    have r: "r1 = Inr ()" "r2 = Inr ()"
      "st' = insert_suggestions env tid (run_matches env topn) (ask_llm (we_llm env) topn) st2"
      using that run by (auto split: sum.splits)
    have "tid @ ''/suggestions.md'' \<noteq> tid @ ''/ai_suggestion.md''" by simp
    then show ?thesis
      using r s1 s2 [of "tid @ ''/suggestions.md''"] by (simp add: insert_suggestions_rows)
  qed
qed

text \<open>Whether a run succeeds does not depend on what is stored.\<close>

lemma upload_artifacts_result: "fst (upload_artifacts env tid arts st) = fst (upload_artifacts env tid arts st')"
proof (induction arts arbitrary: st st')
  case (Cons a arts)
  obtain n c where a: "a = (n, c)" by fastforce
  show ?case by (simp add: a upload_file_def split: option.split) (metis Cons.IH)
qed simp

lemma suggest_result: "fst (suggest env tid topn st) = fst (suggest env tid topn st')"
  by (simp add: suggest_def upload_file_def Let_def split: option.split)

theorem analysis_work_result: "fst (analysis_work env tid p data st) = fst (analysis_work env tid p data st')"
proof (cases "analyze_data (we_tools env) p data")
  case (Inr arts)
  obtain r st1 where u: "upload_artifacts env tid arts st = (r, st1)" by fastforce
  obtain r' st2 where u': "upload_artifacts env tid arts st' = (r', st2)" by fastforce
  have "r' = r" using upload_artifacts_result [of env tid arts st st'] u u' by simp
  then show ?thesis
    using suggest_result by (auto simp: analysis_work_def Inr u u' split: sum.split option.split)
qed (simp add: analysis_work_def)

section \<open>What a run leaves\<close>

theorem analysis_work_stores:
  assumes "analysis_work env tid p data st = (Inr (), st')"
  obtains arts topn where "analyze_data (we_tools env) p data = Inr arts" and "top_list arts = Some topn"
    and "\<forall>(n, c) \<in> set arts. map_of (ws_objects st') (tid @ ''/'' @ n) = Some (artifact_type n, c)"
    and "ws_suggestions st' = ws_suggestions st @ (if rows_fit env topn then run_rows env tid topn else [])"
proof -
  obtain arts where a: "analyze_data (we_tools env) p data = Inr arts"
    using assms by (auto simp: analysis_work_def split: sum.splits)
  note art = analyze_top_list [OF a]
  obtain topn where t: "top_list arts = Some topn" using art(1) by blast
  obtain r st1 where u: "upload_artifacts env tid arts st = (r, st1)" by fastforce
  have r: "r = Inr ()" and sug: "suggest env tid topn st1 = (Inr (), st')"
    using assms by (auto simp: analysis_work_def a t u split: sum.splits)
  note up = upload_artifacts_state [OF u art(2)]
  have "map_of (ws_objects st') (tid @ ''/'' @ n) = Some (artifact_type n, c)" if "(n, c) \<in> set arts" for n c
  proof -
    have "n \<noteq> ''suggestions.md'' \<and> n \<noteq> ''ai_suggestion.md''" using that art(3,4) by force
    then show ?thesis using up r that suggest_state(2) [OF sug, of "tid @ ''/'' @ n"] by auto
  qed
  then show thesis
    using that [OF a t] up suggest_state(3) [OF sug] by auto
qed

text \<open>The rows a run writes are the ones the API server lists for the task, the rules first.\<close>

theorem suggestions_listed:
  assumes "analysis_work env tid p data st = (Inr (), st')" and "\<forall>r \<in> set (ws_suggestions st). sug_tid r \<noteq> tid"
    and "analyze_data (we_tools env) p data = Inr arts" and "top_list arts = Some topn" and "rows_fit env topn"
  shows "ListSuggestions (ws_suggestions st') tid = run_rows env tid topn"
proof -
  have "ws_suggestions st' = ws_suggestions st @ run_rows env tid topn"
    using assms by (auto elim!: analysis_work_stores)
  moreover have "filter (\<lambda>r. sug_tid r = tid) (ws_suggestions st) = []" using assms(2) by (simp add: filter_empty_conv)
  moreover have "filter (\<lambda>r. sug_tid r = tid) (run_rows env tid topn) = run_rows env tid topn"
    by (simp add: run_rows_def rule_row_def ai_row_def filter_id_conv)
  moreover have "sorted (map sug_status (run_rows env tid topn))"
    by (simp add: run_rows_def rule_row_def ai_row_def sorted_append comp_def map_replicate_const)
  ultimately show ?thesis
    by (simp add: ListSuggestions_def find_suggestions_def sug_column_def sort_key_id_if_sorted)
qed

text \<open>
  One matched function with a name of more than 512 characters loses all suggestions of the run,
  which still succeeds.
\<close>

theorem long_name_loses_suggestions:
  assumes "analysis_work env tid p data st = (Inr (), st')"
    and "analyze_data (we_tools env) p data = Inr arts" and "top_list arts = Some topn"
    and "m \<in> set (run_matches env topn)" and "512 < length (rm_func m)"
  shows "ws_suggestions st' = ws_suggestions st"
proof -
  have "\<not> rows_fit env topn" using assms(4,5) unfolding rows_fit_def by (meson not_le)
  then show ?thesis using assms(1-3) by (auto elim!: analysis_work_stores)
qed

theorem failed_work_suggests_nothing:
  assumes "analysis_work env tid p data st = (Inl m, st')"
  shows "ws_suggestions st' = ws_suggestions st"
proof (cases "analyze_data (we_tools env) p data")
  case (Inr arts)
  obtain r st1 where u: "upload_artifacts env tid arts st = (r, st1)" by fastforce
  have "ws_suggestions st1 = ws_suggestions st"
    using upload_artifacts_state [OF u analyze_top_list(2) [OF Inr]] by blast
  moreover have "st' = st1 \<or> (\<exists>topn. suggest env tid topn st1 = (Inl m, st'))"
    using assms by (auto simp: analysis_work_def Inr u split: sum.splits option.splits)
  ultimately show ?thesis using suggest_state(1) by fastforce
qed (use assms in \<open>simp add: analysis_work_def\<close>)

section \<open>The outcome of a run\<close>

lemma analysis_columns_twice [simp]:
  "analysis_columns st2 i2 (analysis_columns st1 i1 r) = analysis_columns st2 i2 r"
  "tk_tid (analysis_columns st1 i1 r) = tk_tid r" "tk_cos_key (analysis_columns st1 i1 r) = tk_cos_key r"
  "tk_profiler_type (analysis_columns st1 i1 r) = tk_profiler_type r"
  by (simp_all add: analysis_columns_def)

definition marked :: "string \<Rightarrow> int \<Rightarrow> string \<Rightarrow> pg_db \<Rightarrow> pg_db" where
  "marked tid status info d =
     d\<lparr>hotmethod_task_tbl := map (\<lambda>q. if tk_tid q = tid then analysis_columns status info q else q) (hotmethod_task_tbl d)\<rparr>"

lemma marked_twice [simp]: "marked tid st2 i2 (marked tid st1 i1 d) = marked tid st2 i2 d"
  by (simp add: marked_def)

lemma exec_py_update:
  "all_ok env \<Longrightarrow> exec_stmt env (py_update_analysis_status tid status info) c
     = (Some (), c\<lparr>stmt_no := Suc (stmt_no c), db := marked tid status info (db c)\<rparr>)"
  by (simp add: exec_stmt_ok py_update_analysis_status_def marked_def)

lemma exec_py_get:
  assumes "all_ok env" and "distinct (map tk_tid (hotmethod_task_tbl d))" and "r \<in> set (hotmethod_task_tbl d)" "tk_tid r = tid"
    and "db c = marked tid status info d"
  shows "exec_stmt env (py_get_task_info tid) c = (Some [analysis_columns status info r], c\<lparr>stmt_no := Suc (stmt_no c)\<rparr>)"
proof -
  have "filter (\<lambda>q. tk_tid q = tid) tbl = [r]" if "distinct (map tk_tid tbl)" "r \<in> set tbl" for tbl
    using that assms(4) by (induction tbl) (auto simp: filter_empty_conv image_iff)
  then have "filter (\<lambda>q. tk_tid q = tid) (hotmethod_task_tbl d) = [r]" using assms(2,3) .
  then have "filter (\<lambda>q. tk_tid q = tid) (hotmethod_task_tbl (db c)) = [analysis_columns status info r]"
    using assms(4) by (simp add: assms(5) marked_def filter_map comp_def if_distrib cong: if_cong)
  then show ?thesis by (simp add: exec_stmt_ok [OF assms(1)] py_get_task_info_def)
qed

text \<open>The condition under which the body of a run on the task \<open>r\<close> does not raise.\<close>

definition analyzable :: "analysis_env \<Rightarrow> task_row \<Rightarrow> bool" where
  "analyzable env r \<longleftrightarrow> tk_cos_key r \<noteq> [] \<and> tk_profiler_type r \<in> {0, 1, 3}
     \<and> (\<exists>data. an_download env (tk_cos_key r) = Inr data \<and> an_work env (tk_tid r) (tk_profiler_type r) data = Inr ())"

lemma analysis_body_ok:
  assumes "all_ok (an_pg env)" and "distinct (map tk_tid (hotmethod_task_tbl d))" and "r \<in> set (hotmethod_task_tbl d)" "tk_tid r = tid"
    and "db c = marked tid status info d"
  shows "\<exists>m c'. analysis_body env tid c = (Some (if analyzable env r then Inr () else Inl m), c')
    \<and> db c' = (if analyzable env r then marked tid AnalysisStatusSuccess reason_analyzed d else db c)"
  using assms(4,5)
  by (auto simp: analysis_body_def exec_py_get [OF assms] exec_py_update [OF assms(1)] analyzable_def Let_def
      split: sum.splits)

text \<open>
  C24. The outcome of an analysis.  When the database answers, a run on a task succeeds exactly when
  the task has data, the download returns it, its profiler type is supported and the work succeeds;
  the exit status and the analysis status of the task then agree, 2 for success and 3 for failure,
  and the run changes nothing else in the tables of tasks and their history.
\<close>

theorem analysis_outcome:
  assumes "all_ok (an_pg env)" and "an_dsn_configured env" and "txn c = None"
    and "distinct (map tk_tid (hotmethod_task_tbl (db c)))" and "r \<in> set (hotmethod_task_tbl (db c))" and "tk_tid r = tid"
    and "an_work env = (\<lambda>tid p data. fst (analysis_work we tid p data st))"
    and "analysis_main env tid c = (ok, c')"
  shows "(ok \<longleftrightarrow> tk_cos_key r \<noteq> [] \<and> tk_profiler_type r \<in> {0, 1, 3}
           \<and> (\<exists>data. an_download env (tk_cos_key r) = Inr data
                \<and> fst (analysis_work we tid (tk_profiler_type r) data st) = Inr ()))
    \<and> (\<exists>info. hotmethod_task_tbl (db c') =
         map (\<lambda>q. if tk_tid q = tid then analysis_columns (if ok then AnalysisStatusSuccess else AnalysisStatusFailed) info q else q)
           (hotmethod_task_tbl (db c)))
    \<and> task_status_history_tbl (db c') = task_status_history_tbl (db c)"
proof -
  let ?d = "db c"
  let ?c1 = "c\<lparr>stmt_no := Suc (stmt_no c), db := marked tid AnalysisStatusRunning reason_analysis ?d\<rparr>"
  obtain m c2 where body: "analysis_body env tid ?c1 = (Some (if analyzable env r then Inr () else Inl m), c2)"
    and c2: "db c2 = (if analyzable env r then marked tid AnalysisStatusSuccess reason_analyzed ?d
                      else marked tid AnalysisStatusRunning reason_analysis ?d)"
    using analysis_body_ok [OF assms(1,4,5,6), of ?c1 AnalysisStatusRunning reason_analysis] by auto
  have ok: "ok = analyzable env r" and d: "\<exists>info. db c' = marked tid (if ok then AnalysisStatusSuccess else AnalysisStatusFailed) info ?d"
    using assms(2,8) body c2 by (auto simp: analysis_main_def exec_py_update [OF assms(1)] split: if_splits)
  have "analyzable env r \<longleftrightarrow> tk_cos_key r \<noteq> [] \<and> tk_profiler_type r \<in> {0, 1, 3}
           \<and> (\<exists>data. an_download env (tk_cos_key r) = Inr data
                \<and> fst (analysis_work we tid (tk_profiler_type r) data st) = Inr ())"
    by (simp add: analyzable_def assms(6,7))
  with ok d show ?thesis by (auto simp: marked_def)
qed

definition sample_work :: work_env where
  "sample_work = \<lparr>we_tools = \<lparr>to_which = Some, to_isfile = (\<lambda>_. False), to_home = ''/root'', to_find = Inr,
       to_perf_script = Exit_ok, to_perl = (\<lambda>_ _ _. Exit_ok ''<svg/>'')\<rparr>,
     we_upload_error = (\<lambda>_. None), we_rules = [], we_regex = (\<lambda>_ _. Some False),
     we_llm = \<lparr>llm_has_requests = False, llm_api_key = [], llm_call = (\<lambda>_. None), llm_loads = (\<lambda>_. None),
       llm_float = (\<lambda>_. None), llm_str = (\<lambda>_. []), llm_show = (\<lambda>_. [])\<rparr>,
     we_dumps = dg_diagnosis, we_insert_ok = True\<rparr>"

definition sample_analysis :: analysis_env where
  "sample_analysis = \<lparr>an_pg = \<lparr>outcome = (\<lambda>_. PQ_ok), clock = int\<rparr>, an_dsn_configured = True, an_db_error = [],
     an_download = (\<lambda>_. Inr (''a;b 5'' @ [CHR 0x0A])),
     an_work = (\<lambda>tid p data. fst (analysis_work sample_work tid p data \<lparr>ws_objects = [], ws_suggestions = []\<rparr>))\<rparr>"

definition sample_done_row :: task_row where
  "sample_done_row =
     (pending_row ''t1'' ''u'' ''user'' \<lparr>rq_name = [], rq_type = 0, rq_profiler_type = 3, rq_target_ip = ''10.0.0.1'',
        rq_pid = 1, rq_duration = 5, rq_hz = 99, rq_event = []\<rparr> 0)\<lparr>tk_status := kDone, tk_cos_key := ''t1/collapsed_ebpf.txt''\<rparr>"

theorem analysis_outcome_witness:
  "fst (analysis_main sample_analysis ''t1'' (fresh_conn\<lparr>db := empty_db\<lparr>hotmethod_task_tbl := [sample_done_row]\<rparr>\<rparr>))"
proof -
  let ?c = "fresh_conn\<lparr>db := empty_db\<lparr>hotmethod_task_tbl := [sample_done_row]\<rparr>\<rparr>"
  have env: "all_ok (an_pg sample_analysis)" "an_dsn_configured sample_analysis" "txn ?c = None"
    by (simp_all add: sample_analysis_def all_ok_def fresh_conn_def)
  have r: "distinct (map tk_tid (hotmethod_task_tbl (db ?c)))" "sample_done_row \<in> set (hotmethod_task_tbl (db ?c))"
    "tk_tid sample_done_row = ''t1''"
    by (simp_all add: sample_done_row_def pending_row_def)
  have w: "an_work sample_analysis = (\<lambda>tid p data. fst (analysis_work sample_work tid p data \<lparr>ws_objects = [], ws_suggestions = []\<rparr>))"
    by (simp add: sample_analysis_def)
  have "fst (analysis_work sample_work ''t1'' 3 data st) = Inr ()" for data st
    by (simp add: analysis_work_def sample_work_def analyze_data_def analyze_ebpf_def find_tool_def checked_run_def
        upload_file_def top_list_def suggest_def Let_def)
  then show ?thesis
    using analysis_outcome [OF env r w prod.collapse [symmetric]]
    by (simp add: sample_done_row_def pending_row_def) (simp add: sample_analysis_def)
qed

end
