(* ===== verification/HprofParser.thy ===== *)
theory HprofParser
  imports Prelude Complex_Main "HOL-Library.AList"
begin

text \<open>
  The heap dump analyzer, \<^verbatim>\<open>src/analysis/java_heap_analyzer/main.go\<close>: a parser of HPROF files
  that counts the objects of a Java heap by class.  A reader is the bytes that are left.  The result
  of a function that can fail is an error with its message, a run-time panic, or a value.  Memory is
  unbounded.
\<close>

section \<open>Readers and numbers\<close>

type_synonym byte = "8 word"

datatype hp_fail = Hp_error string | Hp_panic

type_synonym 'a hres = "hp_fail + 'a"

fun hbind :: "'a hres \<Rightarrow> ('a \<Rightarrow> 'b hres) \<Rightarrow> 'b hres" where
  "hbind (Inl e) f = Inl e"
| "hbind (Inr x) f = f x"

text \<open>\<^verbatim>\<open>io.ReadFull\<close> of \<open>n\<close> bytes; its error is told with the text before it.\<close>

definition read_full :: "string \<Rightarrow> nat \<Rightarrow> byte list \<Rightarrow> (byte list \<times> byte list) hres" where
  "read_full what n bs =
     (if n \<le> length bs then Inr (take n bs, drop n bs)
      else Inl (Hp_error (what @ '': '' @ (if bs = [] then ''EOF'' else ''unexpected EOF''))))"

definition be_val :: "byte list \<Rightarrow> nat" where
  "be_val bs = foldl (\<lambda>n b. n * 256 + unat b) 0 bs"

definition to_str :: "byte list \<Rightarrow> string" where
  "to_str bs = map (\<lambda>b. char_of (unat b)) bs"

definition hp_hex :: "nat \<Rightarrow> char" where
  "hp_hex d = ''0123456789abcdef'' ! d"

definition fmt_x :: "byte \<Rightarrow> string" where
  "fmt_x b = (if unat b < 16 then [hp_hex (unat b)] else [hp_hex (unat b div 16), hp_hex (unat b mod 16)])"

definition fmt_02x :: "byte \<Rightarrow> string" where
  "fmt_02x b = [hp_hex (unat b div 16), hp_hex (unat b mod 16)]"

section \<open>The parser's state\<close>

record class_info =
  ci_serial :: u32
  ci_obj_id :: u64
  ci_name :: string

datatype heap_type = Instance | Objarray | Primarray

record heap_object =
  ho_id :: u64
  ho_class :: u64
  ho_size :: u32
  ho_type :: heap_type

record cls_accum =
  ac_name :: string
  ac_count :: nat
  ac_total :: int

text \<open>The maps are their entries; the strings are the package variable \<^verbatim>\<open>stringMap\<close>.\<close>

record hprof =
  hp_classes :: "(u64 \<times> class_info) list"
  hp_objects :: "heap_object list"
  hp_by_class :: "(u64 \<times> cls_accum) list"
  hp_total_size :: int
  hp_total_obj :: nat
  hp_id_size :: nat
  hp_strings :: "(u64 \<times> string) list"

definition NewHPROFParser :: hprof where
  "NewHPROFParser = \<lparr>hp_classes = [], hp_objects = [], hp_by_class = [], hp_total_size = 0, hp_total_obj = 0,
     hp_id_size = 0, hp_strings = []\<rparr>"

definition readID :: "hprof \<Rightarrow> byte list \<Rightarrow> u64" where
  "readID p buf = (if hp_id_size p = 8 then of_nat (be_val (take 8 buf)) else of_nat (be_val (take 4 buf)))"

section \<open>Strings and classes\<close>

definition parseString :: "hprof \<Rightarrow> nat \<Rightarrow> byte list \<Rightarrow> (hprof \<times> byte list) hres" where
  "parseString p len bs =
     hbind (read_full ''reading string record'' len bs) (\<lambda>(buf, rest).
       if len < hp_id_size p then Inl Hp_panic
       else Inr (p\<lparr>hp_strings := AList.update (readID p (take (hp_id_size p) buf)) (to_str (drop (hp_id_size p) buf))
                                   (hp_strings p)\<rparr>, rest))"

definition java_name :: "string \<Rightarrow> string" where
  "java_name s =
     (let t = (if take 1 s = ''L'' \<and> s \<noteq> [] \<and> last s = CHR '';'' then butlast (tl s) else s)
      in map (\<lambda>c. if c = CHR ''/'' then CHR ''.'' else c) t)"

definition parseLoadClass :: "hprof \<Rightarrow> nat \<Rightarrow> byte list \<Rightarrow> (hprof \<times> byte list) hres" where
  "parseLoadClass p len bs =
     hbind (read_full ''reading load class record'' len bs) (\<lambda>(buf, rest).
       if len < 4 + hp_id_size p + 4 + hp_id_size p then Inl Hp_panic
       else
         let classSerial = of_nat (be_val (take 4 buf));
             classObjID = readID p (drop 4 buf);
             classNameID = readID p (drop (4 + hp_id_size p + 4) buf);
             className = (case map_of (hp_strings p) classNameID of Some s \<Rightarrow> s | None \<Rightarrow> [])
         in Inr (p\<lparr>hp_classes := AList.update classObjID
                     \<lparr>ci_serial = classSerial, ci_obj_id = classObjID, ci_name = java_name className\<rparr> (hp_classes p)\<rparr>, rest))"

section \<open>Objects\<close>

definition addObject :: "heap_object \<Rightarrow> hprof \<Rightarrow> hprof" where
  "addObject obj p =
     (let clsName = (case map_of (hp_classes p) (ho_class obj) of Some cls \<Rightarrow> ci_name cls | None \<Rightarrow> ''unknown'');
          acc = (case map_of (hp_by_class p) (ho_class obj) of
                   Some a \<Rightarrow> a | None \<Rightarrow> \<lparr>ac_name = clsName, ac_count = 0, ac_total = 0\<rparr>)
      in p\<lparr>hp_objects := hp_objects p @ [obj], hp_total_size := hp_total_size p + uint (ho_size obj),
           hp_total_obj := hp_total_obj p + 1,
           hp_by_class := AList.update (ho_class obj)
             (acc\<lparr>ac_count := ac_count acc + 1, ac_total := ac_total acc + uint (ho_size obj)\<rparr>) (hp_by_class p)\<rparr>)"

definition primTypeSize :: "byte \<Rightarrow> nat" where
  "primTypeSize t =
     (if t = 5 \<or> t = 9 then 2 else if t = 6 \<or> t = 10 then 4 else if t = 7 \<or> t = 11 then 8 else 1)"

text \<open>Each returns the object, the number of bytes it consumed, and the rest.\<close>

definition parseInstanceDump :: "hprof \<Rightarrow> byte list \<Rightarrow> (heap_object \<times> nat \<times> byte list) hres" where
  "parseInstanceDump p bs =
     (let n = hp_id_size p; hlen = n + 4 + n + 4
      in hbind (read_full ''reading instance dump header'' hlen bs) (\<lambda>(header, rest).
           let numFields = be_val (take 4 (drop (n + 4 + n) header))
           in hbind (read_full ''reading instance data'' numFields rest) (\<lambda>(_, rest').
                Inr (\<lparr>ho_id = readID p header, ho_class = readID p (drop (n + 4) header), ho_size = of_nat numFields,
                      ho_type = Instance\<rparr>, hlen + numFields, rest'))))"

definition parseObjArrayDump :: "hprof \<Rightarrow> byte list \<Rightarrow> (heap_object \<times> nat \<times> byte list) hres" where
  "parseObjArrayDump p bs =
     (let n = hp_id_size p; hlen = n + 4 + 4 + n
      in hbind (read_full ''reading obj array dump header'' hlen bs) (\<lambda>(header, rest).
           let numElements = be_val (take 4 (drop (n + 4) header))
           in hbind (read_full ''reading obj array elements'' (numElements * n) rest) (\<lambda>(_, rest').
                Inr (\<lparr>ho_id = readID p header, ho_class = readID p (drop (n + 4 + 4) header),
                      ho_size = of_nat numElements * of_nat n, ho_type = Objarray\<rparr>, hlen + numElements * n, rest'))))"

definition parsePrimArrayDump :: "hprof \<Rightarrow> byte list \<Rightarrow> (heap_object \<times> nat \<times> byte list) hres" where
  "parsePrimArrayDump p bs =
     (let n = hp_id_size p; hlen = n + 4 + 4 + 1
      in hbind (read_full ''reading prim array dump header'' hlen bs) (\<lambda>(header, rest).
           let numElements = be_val (take 4 (drop (n + 4) header)); elemSize = primTypeSize (header ! (n + 4 + 4))
           in hbind (read_full ''reading prim array elements'' (numElements * elemSize) rest) (\<lambda>(_, rest').
                Inr (\<lparr>ho_id = readID p header, ho_class = 0, ho_size = of_nat numElements * of_nat elemSize,
                      ho_type = Primarray\<rparr>, hlen + numElements * elemSize, rest'))))"

section \<open>Heap dumps\<close>

definition root_tags :: "byte list" where
  "root_tags = [0xFF, 0x01, 0x02, 0x03, 0x04, 0x05, 0x06, 0x07, 0x08]"

definition rootSubRecordSize :: "hprof \<Rightarrow> byte \<Rightarrow> nat" where
  "rootSubRecordSize p tag =
     (let base = hp_id_size p + 4
      in if tag = 0x01 then base + hp_id_size p
         else if tag = 0x02 \<or> tag = 0x03 then base + 4 + 4
         else if tag = 0x04 \<or> tag = 0x06 then base + 4
         else if tag = 0x08 then base + 4 + 4
         else base)"

definition classDumpSize :: "hprof \<Rightarrow> nat" where
  "classDumpSize p = 7 * hp_id_size p + 4 + 4 + 4 + 4 + 4 + 4"

text \<open>One turn of the loop: the new state, the bytes it took from \<open>remaining\<close>, and the rest.\<close>

definition sub_record :: "hprof \<Rightarrow> int \<Rightarrow> byte list \<Rightarrow> (hprof \<times> nat \<times> byte list) hres" where
  "sub_record p remaining bs =
     hbind (read_full ''reading subtag'' 1 bs) (\<lambda>(t, rest).
       let subtag = hd t;
           add = (\<lambda>(obj, consumed, rest'). Inr (addObject obj p, 1 + consumed, rest'))
       in if subtag \<in> set root_tags
          then hbind (read_full (''reading root sub-record '' @ fmt_x subtag) (rootSubRecordSize p subtag) rest)
                 (\<lambda>(_, rest'). Inr (p, 1 + rootSubRecordSize p subtag, rest'))
          else if subtag = 0x20
          then hbind (read_full ''reading class dump'' (classDumpSize p) rest)
                 (\<lambda>(_, rest'). Inr (p, 1 + classDumpSize p, rest'))
          else if subtag = 0x21 then hbind (parseInstanceDump p rest) add
          else if subtag = 0x22 then hbind (parseObjArrayDump p rest) add
          else if subtag = 0x23 then hbind (parsePrimArrayDump p rest) add
          else Inl (Hp_error (''unknown heap dump sub-record: 0x'' @ fmt_02x subtag @ '' at remaining=''
                              @ show_int (remaining - 1))))"

lemma hbind_Inr [simp]: "hbind r f = Inr y \<longleftrightarrow> (\<exists>x. r = Inr x \<and> f x = Inr y)"
  by (cases r) auto

lemma read_full_Inr:
  "read_full what n bs = Inr (xs, rest) \<longleftrightarrow> n \<le> length bs \<and> xs = take n bs \<and> rest = drop n bs"
  by (auto simp: read_full_def)

lemma sub_record_shrinks: "sub_record p rem bs = Inr (p', used, bs') \<Longrightarrow> length bs' < length bs"
  by (auto simp: sub_record_def read_full_Inr parseInstanceDump_def parseObjArrayDump_def parsePrimArrayDump_def Let_def
      split: if_splits)

function parseHeapDump :: "hprof \<Rightarrow> int \<Rightarrow> byte list \<Rightarrow> (hprof \<times> byte list) hres" where
  "parseHeapDump p remaining bs =
     (if remaining \<le> 0 then Inr (p, bs)
      else
        (case sub_record p remaining bs of
           Inl e \<Rightarrow> Inl e
         | Inr (p', used, bs') \<Rightarrow> parseHeapDump p' (remaining - int used) bs'))"
  by pat_completeness auto
termination
  by (relation "measure (\<lambda>(_, _, bs). length bs)") (auto dest: sub_record_shrinks)

declare parseHeapDump.simps [simp del]

section \<open>The file\<close>

text \<open>One record.\<close>

definition parse_record :: "hprof \<Rightarrow> byte list \<Rightarrow> (hprof \<times> byte list) hres" where
  "parse_record p bs =
     hbind (read_full ''reading tag'' 1 bs) (\<lambda>(tag, r1).
     hbind (read_full ''reading time'' 4 r1) (\<lambda>(_, r2).
     hbind (read_full ''reading length'' 4 r2) (\<lambda>(len, r3).
       let recLen = be_val len
       in if hd tag = 0x01 then parseString p recLen r3
          else if hd tag = 0x02 then parseLoadClass p recLen r3
          else if hd tag = 0x0C \<or> hd tag = 0x1C then parseHeapDump p (int recLen) r3
          else if recLen \<le> length r3 then Inr (p, drop recLen r3)
          else Inl (Hp_error (''skipping record tag '' @ fmt_x (hd tag) @ '': EOF'')))))"

text \<open>What every turn of the loop keeps, the loop keeps.\<close>

lemma parseHeapDump_steps:
  assumes "parseHeapDump p rem bs = Inr (p', bs')" and "R p bs"
    and "\<And>p rem bs p' used bs'. sub_record p rem bs = Inr (p', used, bs') \<Longrightarrow> R p bs \<Longrightarrow> R p' bs'"
  shows "R p' bs'"
  using assms(1,2)
proof (induction p rem bs rule: parseHeapDump.induct)
  case (1 p remaining bs)
  show ?case
  proof (cases "remaining \<le> 0")
    case True
    then show ?thesis using "1.prems" by (simp add: parseHeapDump.simps)
  next
    case False
    then obtain q used bs1 where s: "sub_record p remaining bs = Inr (q, used, bs1)"
      "parseHeapDump q (remaining - int used) bs1 = Inr (p', bs')"
      using "1.prems"(1) by (subst (asm) parseHeapDump.simps) (auto split: sum.splits)
    show ?thesis by (rule "1.IH" [OF False s(1) refl refl s(2) assms(3) [OF s(1) "1.prems"(2)]])
  qed
qed

lemma parseHeapDump_le: "parseHeapDump p rem bs = Inr (p', bs') \<Longrightarrow> length bs' \<le> length bs"
  by (rule parseHeapDump_steps [where R = "\<lambda>_ bs'. length bs' \<le> length bs"]) (auto dest: sub_record_shrinks)

lemma parse_record_shrinks: "parse_record p bs = Inr (p', bs') \<Longrightarrow> length bs' < length bs"
  by (auto simp: parse_record_def read_full_Inr parseString_def parseLoadClass_def Let_def
      split: if_splits dest!: parseHeapDump_le)

function parse_records :: "hprof \<Rightarrow> byte list \<Rightarrow> hprof hres" where
  "parse_records p bs =
     (if bs = [] then Inr p
      else (case parse_record p bs of Inl e \<Rightarrow> Inl e | Inr (p', bs') \<Rightarrow> parse_records p' bs'))"
  by pat_completeness auto
termination
  by (relation "measure (\<lambda>(_, bs). length bs)") (auto dest: parse_record_shrinks)

declare parse_records.simps [simp del]

lemma parse_records_steps:
  assumes "parse_records p bs = Inr p'" and "R p bs"
    and "\<And>p bs p' bs'. parse_record p bs = Inr (p', bs') \<Longrightarrow> R p bs \<Longrightarrow> R p' bs'"
  shows "R p' []"
  using assms(1,2)
proof (induction p bs rule: parse_records.induct)
  case (1 p bs)
  show ?case
  proof (cases "bs = []")
    case True
    then show ?thesis using "1.prems" by (simp add: parse_records.simps)
  next
    case False
    then obtain q bs1 where s: "parse_record p bs = Inr (q, bs1)" "parse_records q bs1 = Inr p'"
      using "1.prems"(1) by (subst (asm) parse_records.simps) (auto split: sum.splits)
    show ?thesis by (rule "1.IH" [OF False s(1) refl s(2) assms(3) [OF s(1) "1.prems"(2)]])
  qed
qed

definition Parse :: "byte list \<Rightarrow> hprof hres" where
  "Parse bs =
     (let h = takeWhile (\<lambda>b. b \<noteq> 0) bs
      in if length h = length bs then Inl (Hp_error ''reading hprof header: EOF'')
         else if take 12 (to_str h) \<noteq> ''JAVA PROFILE'' then Inl (Hp_error (''invalid hprof magic: '' @ to_str h))
         else
           hbind (read_full ''reading id size'' 4 (drop (Suc (length h)) bs)) (\<lambda>(idb, r1).
             let idSize = be_val idb
             in if idSize \<noteq> 4 \<and> idSize \<noteq> 8 then Inl (Hp_error (''unexpected id size: '' @ show_nat idSize))
                else hbind (read_full ''reading timestamp'' 8 r1) (\<lambda>(_, r2).
                       parse_records (NewHPROFParser\<lparr>hp_id_size := idSize\<rparr>) r2)))"

section \<open>The analysis\<close>

record leak_suspect =
  ls_class :: string
  ls_count :: nat
  ls_total :: int
  ls_percent :: real

record analysis_result =
  ar_total_size :: int
  ar_total_objects :: nat
  ar_class_count :: nat
  ar_top :: "leak_suspect list"
  ar_big :: "heap_object list"

definition suspect_of :: "int \<Rightarrow> cls_accum \<Rightarrow> leak_suspect" where
  "suspect_of tot acc =
     \<lparr>ls_class = ac_name acc, ls_count = ac_count acc, ls_total = ac_total acc,
      ls_percent = (if tot > 0 then of_int (ac_total acc) * 100 / of_int tot else 0)\<rparr>"

text \<open>
  The order in which Go walks a map, and that of equal sizes after \<^verbatim>\<open>sort.Slice\<close>, are open: \<open>accs\<close>
  are the entries of the map in some order, and sorting is stable here.
\<close>

definition Analyze :: "int \<Rightarrow> cls_accum list \<Rightarrow> hprof \<Rightarrow> analysis_result" where
  "Analyze topN0 accs p =
     (let topN = nat (if topN0 \<le> 0 then 20 else topN0);
          suspects = sort_key (\<lambda>s. - ls_total s) (map (suspect_of (hp_total_size p)) accs);
          objs = sort_key (\<lambda>o'. - uint (ho_size o')) (hp_objects p)
      in \<lparr>ar_total_size = hp_total_size p, ar_total_objects = hp_total_obj p, ar_class_count = length (hp_classes p),
          ar_top = take topN suspects,
          ar_big = take topN (map (\<lambda>o'. o'\<lparr>ho_class := 0\<rparr>) (takeWhile (\<lambda>o'. \<not> ho_size o' < 1048576) objs))\<rparr>)"

end
