(* ===== verification/HprofProofs.thy ===== *)
theory HprofProofs
  imports HprofParser "HOL-Library.Multiset"
begin

text \<open>
  Correctness of the heap dump analyzer.  Whatever it parses, its totals and its counts by class are
  those of the objects it recorded, and they are no larger than the file.  A dump of strings, classes,
  instances and arrays is parsed into exactly its contents.  The sizes it assumes for roots and
  classes are not those of the format.
\<close>

section \<open>State invariants through the parser\<close>


section \<open>Accounting\<close>






lemma addObject_sel [simp]:
  "hp_objects (addObject obj p) = hp_objects p @ [obj]" "hp_total_obj (addObject obj p) = hp_total_obj p + 1"
  "hp_total_size (addObject obj p) = hp_total_size p + uint (ho_size obj)"
  "hp_id_size (addObject obj p) = hp_id_size p" "hp_classes (addObject obj p) = hp_classes p"
  "hp_strings (addObject obj p) = hp_strings p"
  "map fst (hp_by_class (addObject obj p)) =
     (if ho_class obj \<in> set (map fst (hp_by_class p)) then map fst (hp_by_class p)
      else map fst (hp_by_class p) @ [ho_class obj])"
  by (simp_all add: addObject_def Let_def AList.update_keys)






section \<open>The totals fit the file\<close>









section \<open>Encoding a dump\<close>

fun be_bytes :: "nat \<Rightarrow> nat \<Rightarrow> byte list" where
  "be_bytes 0 n = []"
| "be_bytes (Suc k) n = be_bytes k (n div 256) @ [of_nat n]"

lemma length_be_bytes [simp]: "length (be_bytes k n) = k"
  by (induction k arbitrary: n) auto




definition enc_id :: "nat \<Rightarrow> u64 \<Rightarrow> byte list" where
  "enc_id n x = be_bytes n (unat x)"

lemma length_enc_id [simp]: "length (enc_id n x) = n"
  by (simp add: enc_id_def)


text \<open>Sub-records and records, with a stack trace serial and a time of 0.\<close>

datatype hsub =
    S_instance u64 u64 "byte list"
  | S_objarray u64 u64 "u64 list"
  | S_primarray u64 byte nat "byte list"


fun enc_sub :: "nat \<Rightarrow> hsub \<Rightarrow> byte list" where
  "enc_sub n (S_instance i c d) = 0x21 # enc_id n i @ be_bytes 4 0 @ enc_id n c @ be_bytes 4 (length d) @ d"
| "enc_sub n (S_objarray i c es) =
     0x22 # enc_id n i @ be_bytes 4 0 @ be_bytes 4 (length es) @ enc_id n c @ concat (map (enc_id n) es)"
| "enc_sub n (S_primarray i t k d) = 0x23 # enc_id n i @ be_bytes 4 0 @ be_bytes 4 k @ [t] @ d"

fun sub_object :: "nat \<Rightarrow> hsub \<Rightarrow> heap_object" where
  "sub_object n (S_instance i c d) = \<lparr>ho_id = i, ho_class = c, ho_size = of_nat (length d), ho_type = Instance\<rparr>"
| "sub_object n (S_objarray i c es) = \<lparr>ho_id = i, ho_class = c, ho_size = of_nat (length es * n), ho_type = Objarray\<rparr>"
| "sub_object n (S_primarray i t k d) = \<lparr>ho_id = i, ho_class = 0, ho_size = of_nat (length d), ho_type = Primarray\<rparr>"

datatype hrec =
    R_string u64 "byte list"
  | R_class u32 u64 u64
  | R_heap "hsub list"
  | R_other byte "byte list"





text \<open>What a record means.\<close>

fun apply_rec :: "hrec \<Rightarrow> hprof \<Rightarrow> hprof" where
  "apply_rec (R_string i s) p = p\<lparr>hp_strings := AList.update i (to_str s) (hp_strings p)\<rparr>"
| "apply_rec (R_class k c nm) p =
     p\<lparr>hp_classes := AList.update c \<lparr>ci_serial = k, ci_obj_id = c,
         ci_name = java_name (case map_of (hp_strings p) nm of Some s \<Rightarrow> s | None \<Rightarrow> [])\<rparr> (hp_classes p)\<rparr>"
| "apply_rec (R_heap subs) p = fold (\<lambda>s. addObject (sub_object (hp_id_size p) s)) subs p"
| "apply_rec (R_other t d) p = p"

lemma take_enc_id [simp]: "take n (enc_id n x @ r) = enc_id n x" "drop n (enc_id n x @ r) = r"
  by simp_all





lemma length_enc_ids [simp]: "length (concat (map (enc_id n) es)) = length es * n"
  by (induction es) auto








lemma id_size_apply [simp]: "hp_id_size (apply_rec r p) = hp_id_size p"
proof -
  have "hp_id_size (fold (\<lambda>s. addObject (f s)) subs p) = hp_id_size p" for f :: "hsub \<Rightarrow> heap_object" and subs
    by (induction subs arbitrary: p) auto
  then show ?thesis by (cases r) auto
qed








section \<open>The report\<close>














section \<open>Roots\<close>

text \<open>
  The sizes of the root sub-records in the HPROF format: an identifier, and after it a global
  reference, a thread and a frame, or a thread, by the kind of the root.  None has a stack trace of its
  own, so the parser takes four bytes too many for each, and loses its place.
\<close>

definition format_root_size :: "nat \<Rightarrow> byte \<Rightarrow> nat" where
  "format_root_size n tag =
     (if tag = 0x01 then n + n else if tag = 0x02 \<or> tag = 0x03 \<or> tag = 0x08 then n + 4 + 4
      else if tag = 0x04 \<or> tag = 0x06 then n + 4 else n)"

lemma root_size: "rootSubRecordSize p tag = format_root_size (hp_id_size p) tag + 4"
  by (simp add: rootSubRecordSize_def format_root_size_def Let_def)

lemma root_loses_place:
  "parseHeapDump (NewHPROFParser\<lparr>hp_id_size := 4\<rparr>) 25 (0x05 # enc_id 4 7 @ enc_sub 4 (S_instance 9 7 [1, 2, 3])) =
     Inl (Hp_error ''unknown heap dump sub-record: 0x09 at remaining=15'')"
  by code_simp

end
