(* ===== verification/Spec2Isabelle.thy ===== *)
theory Spec2Isabelle
  imports System ContainerInfo CosClient CronSchedules NLProofs AnalysisWork HprofProofs
begin

text \<open>
  A verification development of Drop, a distributed profiler.

  \<^bold>\<open>The program.\<close>  A user asks the API server (\<^verbatim>\<open>src/apiserver\<close>, Go) for a
  profile of a process on some machine.  The API server stores the task and passes it to
  \<^verbatim>\<open>drop_server\<close> (\<^verbatim>\<open>src/drop/server/main.cpp\<close>), which queues it for the machine.
  \<^verbatim>\<open>drop_agent\<close> on that machine (\<^verbatim>\<open>src/drop/agent/main.cpp\<close>) receives it with the
  answer to a heartbeat, runs one of four profilers (\<^verbatim>\<open>src/drop/common/src\<close>), uploads what it
  collected to the API server and reports the result to \<^verbatim>\<open>drop_server\<close>.  Both servers keep the
  status of every task in the same PostgreSQL tables.  When a task is done the API server starts the
  analysis (\<^verbatim>\<open>src/analysis\<close>, Python), which makes flame graphs, a list of hot functions, and
  suggestions.  A user may also ask in natural language, through a chat that makes tasks of messages.
  A separate tool in Go analyzes dumps of Java heaps.

  \<^bold>\<open>Conventions.\<close>  Strings are lists of bytes.  Fixed width integers are words where the code can
  wrap, and integers with the narrowing written out where it converts.  \<open>double\<close> is \<^typ>\<open>real\<close>.
  A C++ function that can throw returns \<open>cxx_exn + 'a\<close>; one that can also wait for ever
  returns an \<open>outc\<close>, with \<open>Hangs\<close> for the latter.  Logging is not modelled.  Whatever is not
  part of the sources is an argument: PostgreSQL decides for each statement whether it takes effect,
  fails, or takes effect and loses its reply (\<open>pq_env\<close>); the kernel decides what children of
  \<^verbatim>\<open>fork\<close> do, when they end and what files hold (\<open>os_env\<close>); libbpf, gRPC, curl, the clock
  and the object store are arguments of the same kind.

  \<^bold>\<open>Shared parts.\<close>  \<^verbatim>\<open>Prelude\<close> has the string and number functions of the C++ library and
  their round trips.  \<^verbatim>\<open>Messages\<close> has a record for every protobuf message.
  \<^verbatim>\<open>StackMap\<close> has the counted stacks and the collapsed text format that the probe's loader
  writes and the continuous profiler, the API server and the analysis read.

  \<^bold>\<open>Tasks in the database.\<close>  \<^verbatim>\<open>TaskStatus\<close> is the status machine;
  \<^verbatim>\<open>PGStore\<close> the class of that name in \<^verbatim>\<open>task_queue.cpp\<close>, one function for each SQL
  statement.  \<^verbatim>\<open>StoreSpec\<close> states what a status update promises and the invariant of the task
  tables, that each task's history replays to its status.  \<^verbatim>\<open>ApiServer\<close> has the handlers of
  the API server that touch these tables, \<^verbatim>\<open>HotmethodAnalyzer\<close> what an analysis run does to
  them, and \<^verbatim>\<open>CronSchedules\<close> the scheduled tasks.  \<^verbatim>\<open>ApiProofs\<close> shows that the
  update of the API server is that of \<^verbatim>\<open>drop_server\<close>, and that all its calls are sequences of
  three kinds of write that keep the invariant; \<^verbatim>\<open>PGStoreProofs\<close> that the store is atomic
  under every failure and that history and audit log explain the tables after any sequence of calls
  of both programs.

  \<^bold>\<open>The server.\<close>  \<^verbatim>\<open>TaskQueue\<close> and \<^verbatim>\<open>HeartbeatTracker\<close> are the classes
  of \<^verbatim>\<open>task_queue.h\<close>, \<^verbatim>\<open>DropServer\<close> the RPC handlers, the heartbeat scanner and
  the start of \<^verbatim>\<open>src/drop/server/main.cpp\<close>.  \<^verbatim>\<open>DropServerProofs\<close> shows, over any
  sequence of RPCs, scans and API calls, that tasks are handed out once and in order and that a task
  can be recorded as running only after it was handed out.

  \<^bold>\<open>The agent.\<close>  \<^verbatim>\<open>OSModel\<close> has processes and files, \<^verbatim>\<open>Watchdog\<close> the two
  threads that wait for a child as a transition system.  \<^verbatim>\<open>PerfProfiler\<close>,
  \<^verbatim>\<open>AsyncProfiler\<close>, \<^verbatim>\<open>ScriptRunner\<close> and \<^verbatim>\<open>EbpfProfiler\<close> are the
  profilers, with the contract of \<^verbatim>\<open>profiler.h\<close> as the locale of \<^verbatim>\<open>IProfiler\<close> and
  \<^verbatim>\<open>ProfilerFactory\<close> to choose one.  \<^verbatim>\<open>OffcpuBpf\<close> is the kernel probe,
  \<^verbatim>\<open>Symbols\<close> and \<^verbatim>\<open>EbpfLoader\<close> the reading and naming of what it counted;
  \<^verbatim>\<open>SymbolsProofs\<close> and \<^verbatim>\<open>EbpfProofs\<close> show that no count is lost or doubled on the
  way to the file.  \<^verbatim>\<open>ContinuousProfiler\<close> cuts a long run into segments, and
  \<^verbatim>\<open>ContinuousProofs\<close> shows that they conserve the samples and that the run ends.
  \<^verbatim>\<open>CosClient\<close>, \<^verbatim>\<open>ContainerInfo\<close>, \<^verbatim>\<open>ServerPool\<close> and
  \<^verbatim>\<open>AgentStats\<close> are the remaining classes and functions.  \<^verbatim>\<open>Agent\<close> has the threads
  of \<^verbatim>\<open>main.cpp\<close> as interleaved steps; \<^verbatim>\<open>AgentProofs\<close> accounts for every task
  that was accepted, gives the schedule of failover, and shows that a shutdown drains the queue.

  \<^bold>\<open>The chat.\<close>  \<^verbatim>\<open>PyRegex\<close> has the regular expressions of Python as far as
  \<^verbatim>\<open>nl_parser.py\<close> uses them, with groups and greedy repetition; \<^verbatim>\<open>NLParser\<close> is
  that parser, \<^verbatim>\<open>NLChat\<close> the handlers of \<^verbatim>\<open>nl_handler.go\<close> with their own
  parser, \<^verbatim>\<open>NLTexts\<close> and \<^verbatim>\<open>FloatFormat\<close> their texts and numbers.  The chat
  creates tasks, so \<^verbatim>\<open>ApiProofs\<close> has it among the calls that both servers interleave;
  \<^verbatim>\<open>NLProofs\<close> gives the task that a message creates.

  \<^bold>\<open>What users see.\<close>  \<^verbatim>\<open>ApiAccess\<close> has the routes of the API server with their
  middleware, users and groups, and the listings: which request reaches which handler, and which
  tasks a user sees.  \<^verbatim>\<open>HotmethodAnalyzer\<close> is what a run of the analysis does to the
  database, \<^verbatim>\<open>AnalysisWork\<close> the work between, from the file of the agent to the uploaded
  results and the stored suggestions, and \<^verbatim>\<open>Advisor\<close> the diagnosis and the Markdown.
  \<^verbatim>\<open>HprofParser\<close> is the analyzer of heap dumps; \<^verbatim>\<open>HprofProofs\<close> has an
  encoder and shows that what it encodes is read back, and that the report is exact for any dump.
  \<^verbatim>\<open>ProfileWindow\<close> is the merge of segments in the API server,
  \<^verbatim>\<open>FlameTree\<close> the tree of \<^verbatim>\<open>collapsed2tree.py\<close> and \<^verbatim>\<open>TopN\<close> the hot
  functions and the rules.  Each is shown to report exactly the sums of the counts in the texts it
  reads.

  \<^bold>\<open>All together.\<close>  \<^verbatim>\<open>System\<close> runs the server, the agent and the API server on a
  network that may lose any request or response.  The theorems below are about its runs: a task
  stored as DONE was really executed and reported without an error, a task is executed at most once,
  and a pending task can be run to its end.

  \<^bold>\<open>Fuel.\<close>  Only the loop of the continuous profiler has fuel, one unit per burst.  It returns for
  every fuel above the burst at which it is stopped, if the bursts return; the theorem says so.

  \<^bold>\<open>Ghost state.\<close>  The agent's lists of accepted and taken tasks and of sent reports, the list of
  merged texts and written segments of the continuous profiler, and the lists of created and handed
  out tasks of the system record what happened.  No step reads them.

  \<^bold>\<open>Not modelled.\<close>  A handler is one step: two RPCs do not interleave inside a handler, and a
  transaction of one program does not interleave with one of the other.  The member functions of
  \<^verbatim>\<open>TaskQueue\<close> hold their mutex throughout, and the row of a task is locked while its status
  is updated.  Outside the development are the wire format and transport of gRPC and HTTP, the
  configuration files and access log of the API server, the MinIO client, the web front end, and the
  FlameGraph scripts: they are libraries, user interface, or programs the code only runs.  The
  language model, the Unicode tables of Python and its formatting of numbers are arguments.  Where SQL
  leaves an order open the model has that of the table; the theorem on listings is about tasks with
  different creation times.  \<^verbatim>\<open>vmlinux.h\<close> is generated from the kernel.
\<close>

section \<open>Properties of the whole system\<close>

text \<open>
  C1. A task is DONE only if the agent did it.  Start the server with an empty queue and no DONE
  task, and an agent.  Whatever the clients, the threads, the database and the network then do, a
  task whose stored status is DONE was created for this agent's address, was taken from the
  agent's queue, and the agent sent a report for it without an error message.
\<close>

theorem done_was_reported:
  assumes "agent_init env0 mk flags0 ps = (env, flags, a0)"
    and "server_ready sv" and "g_task_queue sv = empty_task_queue" and "\<And>t. server_status sv t \<noteq> Some kDone"
    and "system_reachable penv sflags env mk flags (fresh_system sv a0) y"
    and "server_status (sy_server y) tid = Some kDone"
  shows "\<exists>ch result d. (ch, result) \<in> set (ag_notified (sy_agent y)) \<and> tr_task_id result = tid
    \<and> tr_error_message result = [] \<and> d \<in> set (wk_taken (ag_worker (sy_agent y))) \<and> td_task_id d = tid
    \<and> (FLAGS_ip flags, d) \<in> set (sy_created y)"
proof -
  have inv: "system_inv mk (FLAGS_ip flags) y" by (rule started_inv [OF assms(1-5)])
  obtain ch result where r: "(ch, result) \<in> set (ag_notified (sy_agent y))" "tr_task_id result = tid" "tr_error_message result = []"
    using done_reported [OF inv assms(6)] by blast
  then obtain d where "d \<in> set (wk_taken (ag_worker (sy_agent y)))" "td_task_id d = tid"
    using reported_taken [OF inv, of ch result] by blast
  with r show ?thesis using taken_created [OF inv] by blast
qed

lemma sample_start:
  "agent_init sample_agent_env id sample_flags sample_prof = (sample_agent_env, sample_flags, sample_agent)"
  "server_ready sample_server" "g_task_queue sample_server = empty_task_queue" "server_status sample_server t \<noteq> Some kDone"
proof -
  show "agent_init sample_agent_env id sample_flags sample_prof = (sample_agent_env, sample_flags, sample_agent)"
    by (simp add: sample_agent_def agent_init_def system_constants_def resolve_flags_def sample_agent_env_def
        sample_flags_def default_agent_flags_def Let_def)
  show "server_ready sample_server" "g_task_queue sample_server = empty_task_queue" "server_status sample_server t \<noteq> Some kDone"
    by (simp_all add: sample_server_def server_ready_def store_ready_def server_status_def store_status_def)
      (simp add: fresh_conn_def empty_db_def status_of_def sql_select_status_def)
qed

lemma sample_done:
  "\<exists>y. system_reachable sample_env default_flags sample_agent_env id sample_flags (fresh_system sample_server sample_agent) y
     \<and> server_status (sy_server y) ''task00000001'' = Some kDone"
  using sample_completes system_reachable_trans sample_pending_reachable by blast

theorem done_was_reported_witness:
  "\<exists>y ch result. system_reachable sample_env default_flags sample_agent_env id sample_flags (fresh_system sample_server sample_agent) y
     \<and> (ch, result) \<in> set (ag_notified (sy_agent y)) \<and> tr_task_id result = ''task00000001'' \<and> tr_error_message result = []"
proof -
  from sample_done obtain y where
    y: "system_reachable sample_env default_flags sample_agent_env id sample_flags (fresh_system sample_server sample_agent) y"
      "server_status (sy_server y) ''task00000001'' = Some kDone" by blast
  from done_was_reported [OF sample_start y] y(1) show ?thesis by blast
qed

text \<open>
  C2. A task is run at most once.  In the same runs, if the tasks created for the agent's address
  have different ids, the agent never takes and never reports the same task twice, although
  heartbeats, their answers and reports may be lost.
\<close>

theorem at_most_once:
  assumes "agent_init env0 mk flags0 ps = (env, flags, a0)"
    and "server_ready sv" and "g_task_queue sv = empty_task_queue" and "\<And>t. server_status sv t \<noteq> Some kDone"
    and "system_reachable penv sflags env mk flags (fresh_system sv a0) y"
    and "distinct (map td_task_id (for_key (FLAGS_ip flags) (sy_created y)))"
  shows "subseq (wk_accepted (ag_worker (sy_agent y))) (for_key (FLAGS_ip flags) (sy_created y))
    \<and> distinct (map td_task_id (wk_taken (ag_worker (sy_agent y))))
    \<and> distinct (map (\<lambda>n. tr_task_id (snd n)) (ag_notified (sy_agent y)))"
proof -
  have inv: "system_inv mk (FLAGS_ip flags) y" by (rule started_inv [OF assms(1-5)])
  then have sub: "subseq (wk_accepted (ag_worker (sy_agent y))) (for_key (FLAGS_ip flags) (sy_created y))"
    by (rule accepted_created)
  then have acc: "distinct (map td_task_id (wk_accepted (ag_worker (sy_agent y))))"
    using assms(6) subseq_map subseq_distinct by blast
  then show ?thesis using sub accounted_distinct [OF inv acc] by blast
qed

theorem at_most_once_witness:
  "distinct (map td_task_id (wk_taken (ag_worker (sy_agent sample_pending))))
   \<and> subseq (wk_accepted (ag_worker (sy_agent sample_pending))) [single_ebpf_task]"
proof -
  have c: "for_key (FLAGS_ip sample_flags) (sy_created sample_pending) = [single_ebpf_task]"
    by (simp add: sample_pending_def sample_flags_def for_key_def)
  then have "distinct (map td_task_id (for_key (FLAGS_ip sample_flags) (sy_created sample_pending)))" by simp
  from at_most_once [OF sample_start sample_pending_reachable this] c show ?thesis by simp
qed

text \<open>
  C6. A dispatched task reaches its final status.  From any state in which the agent waits for
  work, a PENDING single-shot task for it is first in the server's queue, the database answers
  and the profiler returns, there is a run of both programs that ends with the task DONE if its
  result carries no error message, and FAILED otherwise.
\<close>

theorem task_completes:
  assumes "waiting_for_work env (sy_agent y)" and "Pop (g_task_queue (sy_server y)) (FLAGS_ip flags) = Some (d, q)"
    and "\<not> continuous d" and "records_return env [d]" and "accepted ctx"
    and "all_ok penv" and "server_ready (sy_server y)" and "server_status (sy_server y) (td_task_id d) = Some kPending"
  shows "\<exists>y' result s'. system_reachable penv sflags env mk flags y y'
    \<and> run_single_shot env flags d (ag_prof (sy_agent y)) = Returns (result, s')
    \<and> server_status (sy_server y') (td_task_id d) = Some (if tr_error_message result = [] then kDone else kFailed)"
  by (rule completes [OF assms])

theorem task_completes_witness:
  "\<exists>y. system_reachable sample_env default_flags sample_agent_env id sample_flags sample_pending y
     \<and> server_status (sy_server y) ''task00000001'' \<in> {Some kDone, Some kFailed}"
proof -
  obtain q where q: "Pop (g_task_queue (sy_server sample_pending)) (FLAGS_ip sample_flags) = Some (single_ebpf_task, q)"
    using sample_pending_status(3) by (auto simp: sample_flags_def)
  have "\<not> continuous single_ebpf_task" "server_status (sy_server sample_pending) (td_task_id single_ebpf_task) = Some kPending"
    using sample_pending_status(1) by (simp_all add: continuous_def sample_ebpf_type)
  from task_completes [OF sample_waiting q this(1) sample_returns sample_accepted sample_env_ok(1) sample_pending_status(2) this(2),
      of default_flags id]
  show ?thesis by (auto simp: sample_ebpf_type split: if_splits)
qed

end
